theory Spec2Isabelle
  imports Main
begin

section \<open>JavaScript strings\<close>

text \<open>
  A JavaScript string is a sequence of UTF-16 code units. The model uses \<^typ>\<open>string\<close>,
  whose characters are the code units below 256; within that range the white space of
  \<^verbatim>\<open>String.prototype.trim\<close> is TAB, LF, VT, FF, CR, SPACE and NBSP, and the line
  terminators that the regular-expression dot refuses are LF and CR.
\<close>

definition isWhiteSpace :: "char \<Rightarrow> bool" where
  "isWhiteSpace c = (c \<in> set [CHR 0x09, CHR 0x0A, CHR 0x0B, CHR 0x0C, CHR 0x0D, CHR 0x20, CHR 0xA0])"

definition isLineTerminator :: "char \<Rightarrow> bool" where
  "isLineTerminator c = (c = CHR 0x0A \<or> c = CHR 0x0D)"

text \<open>\<^verbatim>\<open>s.trim()\<close>\<close>

definition trim :: "string \<Rightarrow> string" where
  "trim s = rev (dropWhile isWhiteSpace (rev (dropWhile isWhiteSpace s)))"

text \<open>\<^verbatim>\<open>s.substring(0, n)\<close>\<close>

definition substring0 :: "nat \<Rightarrow> string \<Rightarrow> string" where
  "substring0 n s = take n s"

section \<open>FileGenerator.sanitizeFileName\<close>

text \<open>
  One attempt of the regular expression \<^verbatim>\<open>\[([^\]]+)\]\((.*?)\)\<close> at the head of the
  input: an opening bracket, the longest non-empty run of characters other than the closing
  bracket, the closing bracket, an opening parenthesis, the shortest run of characters that
  are not line terminators, and a closing parenthesis. The result is the first capture group
  and the input left after the match. The greedy group cannot give characters back (the next
  character would not be a closing bracket), and the lazy group stops at the first closing
  parenthesis.
\<close>

fun matchLink :: "string \<Rightarrow> (string \<times> string) option" where
  "matchLink [] = None"
| "matchLink (c # r) =
     (if c \<noteq> CHR ''['' then None
      else let txt = takeWhile (\<lambda>x. x \<noteq> CHR '']'') r;
               r1 = dropWhile (\<lambda>x. x \<noteq> CHR '']'') r
           in if txt = [] then None
              else (case r1 of
                      a # b # r2 \<Rightarrow>
                        if a = CHR '']'' \<and> b = CHR ''(''
                        then (case dropWhile (\<lambda>x. x \<noteq> CHR '')'' \<and> \<not> isLineTerminator x) r2 of
                                d # r4 \<Rightarrow> if d = CHR '')'' then Some (txt, r4) else None
                              | [] \<Rightarrow> None)
                        else None
                    | _ \<Rightarrow> None))"

lemma matchLink_shorter: "matchLink s = Some (t, r) \<Longrightarrow> length r < length s"
proof (cases s)
  case Nil
  assume "matchLink s = Some (t, r)"
  with Nil show ?thesis by simp
next
  case (Cons c cs)
  assume m: "matchLink s = Some (t, r)"
  let ?r1 = "dropWhile (\<lambda>x. x \<noteq> CHR '']'') cs"
  from m Cons obtain a b r2 where r1: "?r1 = a # b # r2"
    by (auto simp: Let_def split: if_splits list.splits)
  let ?r3 = "dropWhile (\<lambda>x. x \<noteq> CHR '')'' \<and> \<not> isLineTerminator x) r2"
  from m Cons r1 obtain d where r3: "?r3 = d # r"
    by (auto simp: Let_def split: if_splits list.splits)
  have "length ?r3 \<le> length r2" by (rule length_dropWhile_le)
  moreover have "length ?r1 \<le> length cs" by (rule length_dropWhile_le)
  ultimately show ?thesis using r1 r3 Cons by simp
qed

text \<open>
  \<^verbatim>\<open>name.replace(/\[([^\]]+)\]\((.*?)\)/g, '$1')\<close>: the leftmost match is replaced by
  its first group and the search goes on behind the match.
\<close>

function replaceLinks :: "string \<Rightarrow> string" where
  "replaceLinks [] = []"
| "replaceLinks (c # cs) =
     (case matchLink (c # cs) of
        Some (txt, rest) \<Rightarrow> txt @ replaceLinks rest
      | None \<Rightarrow> c # replaceLinks cs)"
  by pat_completeness auto
termination
proof (relation "measure length")
  show "wf (measure length)" by simp
next
  fix c cs x2 x y
  assume "matchLink (c # cs) = Some x2" and "(x, y) = x2"
  then have "matchLink (c # cs) = Some (x, y)" by simp
  then have "length y < length (c # cs)" by (rule matchLink_shorter)
  then show "(y, c # cs) \<in> measure length" by simp
next
  fix c cs
  show "(cs, c # cs) \<in> measure length" by simp
qed

text \<open>The character class \<^verbatim>\<open>[<>:\"/\\|?*]\<close>.\<close>

definition unsafeChars :: "char list" where
  "unsafeChars = [CHR ''<'', CHR ''>'', CHR '':'', CHR 0x22, CHR ''/'', CHR 0x5C,
                  CHR ''|'', CHR ''?'', CHR ''*'']"

text \<open>\<^verbatim>\<open>.replace(/[<>:\"/\\|?*]/g, '_')\<close>\<close>

fun replaceUnsafe :: "string \<Rightarrow> string" where
  "replaceUnsafe [] = []"
| "replaceUnsafe (c # cs) = (if c \<in> set unsafeChars then CHR ''_'' else c) # replaceUnsafe cs"

text \<open>\<^verbatim>\<open>.replace(/\./g, '_')\<close>\<close>

fun replaceDots :: "string \<Rightarrow> string" where
  "replaceDots [] = []"
| "replaceDots (c # cs) = (if c = CHR ''.'' then CHR ''_'' else c) # replaceDots cs"

text \<open>
  \<^verbatim>\<open>v.replace(/_+/g, '_')\<close>: at an underscore the greedy \<^verbatim>\<open>_+\<close> takes the whole run,
  one underscore is written and the search goes on behind the run.
\<close>

function collapseUnderscores :: "string \<Rightarrow> string" where
  "collapseUnderscores [] = []"
| "collapseUnderscores (c # cs) =
     (if c = CHR ''_'' then CHR ''_'' # collapseUnderscores (dropWhile (\<lambda>x. x = CHR ''_'') cs)
      else c # collapseUnderscores cs)"
  by pat_completeness auto
termination
proof (relation "measure length")
  show "wf (measure length)" by simp
next
  fix c :: char and cs :: string
  have "length (dropWhile (\<lambda>x. x = CHR ''_'') cs) \<le> length cs" by (rule length_dropWhile_le)
  then show "(dropWhile (\<lambda>x. x = CHR ''_'') cs, c # cs) \<in> measure length" by simp
next
  fix c :: char and cs :: string
  show "(cs, c # cs) \<in> measure length" by simp
qed

text \<open>The function as the source writes it, statement by statement.\<close>

definition sanitizeFileName :: "string \<Rightarrow> string" where
  "sanitizeFileName name =
     (let v = replaceLinks name;
          v = substring0 100 (trim (replaceDots (replaceUnsafe v)));
          v = collapseUnderscores v
      in if v = [] then ''untitled'' else v)"




section \<open>JavaScript maps\<close>

text \<open>
  A JavaScript \<^verbatim>\<open>Map\<close> keeps its entries in insertion order, one entry per key:
  \<^verbatim>\<open>set\<close> on a key that is present replaces the value where it stands, on a new key it
  appends the entry; \<^verbatim>\<open>delete\<close> removes the entry. Keys are compared by the relation
  \<open>eq\<close> (equality for strings).
\<close>

type_synonym ('k, 'v) jsmap = "('k \<times> 'v) list"

fun map_get_by :: "('k \<Rightarrow> 'k \<Rightarrow> bool) \<Rightarrow> ('k, 'v) jsmap \<Rightarrow> 'k \<Rightarrow> 'v option" where
  "map_get_by eq [] k = None"
| "map_get_by eq ((k', v) # m) k = (if eq k' k then Some v else map_get_by eq m k)"

fun map_set_by :: "('k \<Rightarrow> 'k \<Rightarrow> bool) \<Rightarrow> 'k \<Rightarrow> 'v \<Rightarrow> ('k, 'v) jsmap \<Rightarrow> ('k, 'v) jsmap" where
  "map_set_by eq k v [] = [(k, v)]"
| "map_set_by eq k v ((k', v') # m) =
     (if eq k' k then (k', v) # m else (k', v') # map_set_by eq k v m)"

definition map_delete_by :: "('k \<Rightarrow> 'k \<Rightarrow> bool) \<Rightarrow> 'k \<Rightarrow> ('k, 'v) jsmap \<Rightarrow> ('k, 'v) jsmap" where
  "map_delete_by eq k m = filter (\<lambda>(k', v). \<not> eq k' k) m"

definition map_get :: "('k, 'v) jsmap \<Rightarrow> 'k \<Rightarrow> 'v option" where
  "map_get = map_get_by (=)"

definition map_set :: "'k \<Rightarrow> 'v \<Rightarrow> ('k, 'v) jsmap \<Rightarrow> ('k, 'v) jsmap" where
  "map_set = map_set_by (=)"

definition map_delete :: "'k \<Rightarrow> ('k, 'v) jsmap \<Rightarrow> ('k, 'v) jsmap" where
  "map_delete = map_delete_by (=)"

text \<open>\<^verbatim>\<open>Array.from(m.values())\<close>\<close>

definition map_values :: "('k, 'v) jsmap \<Rightarrow> 'v list" where
  "map_values m = map snd m"

section \<open>Entities of the remote service (models/types.ts)\<close>

text \<open>
  The interfaces of \<^verbatim>\<open>models/types.ts\<close>, with the fields that the synchronisation code
  reads. A field that may be absent or null is an option; \<open>'n\<close> is the type of the
  numbers of the language.
\<close>

record TodoistDue =
  due_date :: string
  due_datetime :: "string option"

record 'n TodoistTask =
  t_id :: string
  t_project_id :: string
  t_content :: string
  t_description :: string
  t_priority :: 'n
  t_due :: "TodoistDue option"
  t_parent_id :: "string option"
  t_section_id :: "string option"
  t_labels :: "string list"
  t_checked :: bool
  t_is_deleted :: bool
  t_date_added :: string

record TodoistProject =
  p_id :: string
  p_name :: string
  p_color :: string
  p_parent_id :: "string option"
  p_is_deleted :: bool
  p_is_archived :: bool
  p_is_favorite :: bool

record TodoistSection =
  s_id :: string
  s_name :: string
  s_project_id :: string
  s_is_deleted :: bool

record TodoistLabel =
  l_id :: string
  l_name :: string
  l_color :: string
  l_is_deleted :: bool

record SyncState =
  syncToken :: string
  lastFullSync :: int
  lastIncrementalSync :: int

text \<open>
  A sync payload. The source guards each list with \<^verbatim>\<open>if (syncResponse.items)\<close>, so a
  list may be absent.
\<close>

record 'n TodoistSyncResponse =
  sync_token :: string
  full_sync :: bool
  r_projects :: "TodoistProject list option"
  r_items :: "'n TodoistTask list option"
  r_sections :: "TodoistSection list option"
  r_labels :: "TodoistLabel list option"

section \<open>TodoistState (state/todoistState.ts)\<close>

text \<open>
  The four maps and the sync bookkeeping of the class. TypeScript's types are erased at run
  time and \<^verbatim>\<open>deserialize\<close> stores whatever the persisted text holds, so the record is
  polymorphic in what the fields hold: the typed instance is what the rest of the program
  works with, the instance over parsed JSON is what \<^verbatim>\<open>deserialize\<close> produces.
\<close>

record ('k, 't, 'p, 's, 'l, 'y) TodoistState =
  tasks :: "('k, 't) jsmap"
  projects :: "('k, 'p) jsmap"
  sections :: "('k, 's) jsmap"
  labels :: "('k, 'l) jsmap"
  syncState :: 'y

type_synonym 'n todoist_state =
  "(string, 'n TodoistTask, TodoistProject, TodoistSection, TodoistLabel, SyncState) TodoistState"

definition initialSyncState :: SyncState where
  "initialSyncState = \<lparr>syncToken = ''*'', lastFullSync = 0, lastIncrementalSync = 0\<rparr>"

definition initialTodoistState :: "'n todoist_state" where
  "initialTodoistState =
     \<lparr>tasks = [], projects = [], sections = [], labels = [], syncState = initialSyncState\<rparr>"

text \<open>
  The body of each \<^verbatim>\<open>forEach\<close> of \<^verbatim>\<open>updateFromSync\<close>: an entity marked deleted is
  removed from its map, any other is stored under its id. The source writes the loop once per
  entity kind; \<open>idf\<close> and \<open>del\<close> are the \<^verbatim>\<open>id\<close> and \<^verbatim>\<open>is_deleted\<close> fields of the kind.
\<close>

definition upsert :: "('e \<Rightarrow> string) \<Rightarrow> ('e \<Rightarrow> bool) \<Rightarrow> 'e \<Rightarrow> (string, 'e) jsmap \<Rightarrow> (string, 'e) jsmap" where
  "upsert idf del e m = (if del e then map_delete (idf e) m else map_set (idf e) e m)"

fun replay :: "('e \<Rightarrow> string) \<Rightarrow> ('e \<Rightarrow> bool) \<Rightarrow> 'e list \<Rightarrow> (string, 'e) jsmap \<Rightarrow> (string, 'e) jsmap" where
  "replay idf del [] m = m"
| "replay idf del (e # es) m = replay idf del es (upsert idf del e m)"

definition replayOpt :: "('e \<Rightarrow> string) \<Rightarrow> ('e \<Rightarrow> bool) \<Rightarrow> 'e list option \<Rightarrow> (string, 'e) jsmap \<Rightarrow> (string, 'e) jsmap" where
  "replayOpt idf del es m = (case es of None \<Rightarrow> m | Some xs \<Rightarrow> replay idf del xs m)"

text \<open>\<^verbatim>\<open>updateFromSync(syncResponse)\<close>; \<open>now\<close> is the value of \<^verbatim>\<open>Date.now()\<close>.\<close>

definition updateFromSync :: "int \<Rightarrow> 'n TodoistSyncResponse \<Rightarrow> 'n todoist_state \<Rightarrow> 'n todoist_state" where
  "updateFromSync now resp st =
     (let st1 = st\<lparr>syncState := (syncState st)\<lparr>syncToken := sync_token resp,
                                                lastIncrementalSync := now\<rparr>\<rparr>;
          st2 = (if full_sync resp
                 then st1\<lparr>syncState := (syncState st1)\<lparr>lastFullSync := now\<rparr>,
                          tasks := [], projects := [], sections := [], labels := []\<rparr>
                 else st1);
          st3 = st2\<lparr>tasks := replayOpt t_id t_is_deleted (r_items resp) (tasks st2)\<rparr>;
          st4 = st3\<lparr>projects := replayOpt p_id p_is_deleted (r_projects resp) (projects st3)\<rparr>;
          st5 = st4\<lparr>sections := replayOpt s_id s_is_deleted (r_sections resp) (sections st4)\<rparr>
      in st5\<lparr>labels := replayOpt l_id l_is_deleted (r_labels resp) (labels st5)\<rparr>)"

definition getAllTasks :: "'n todoist_state \<Rightarrow> 'n TodoistTask list" where
  "getAllTasks st = filter (\<lambda>task. \<not> t_is_deleted task) (map_values (tasks st))"

definition getTask :: "'n todoist_state \<Rightarrow> string \<Rightarrow> 'n TodoistTask option" where
  "getTask st i = map_get (tasks st) i"

definition getAllProjects :: "'n todoist_state \<Rightarrow> TodoistProject list" where
  "getAllProjects st =
     filter (\<lambda>project. \<not> p_is_deleted project \<and> \<not> p_is_archived project) (map_values (projects st))"

definition getProject :: "'n todoist_state \<Rightarrow> string \<Rightarrow> TodoistProject option" where
  "getProject st i = map_get (projects st) i"

definition getAllSections :: "'n todoist_state \<Rightarrow> TodoistSection list" where
  "getAllSections st = filter (\<lambda>section. \<not> s_is_deleted section) (map_values (sections st))"

definition getAllLabels :: "'n todoist_state \<Rightarrow> TodoistLabel list" where
  "getAllLabels st = filter (\<lambda>label. \<not> l_is_deleted label) (map_values (labels st))"

text \<open>
  \<^verbatim>\<open>needsFullSync()\<close>: the token is the initial one, no full sync was ever made, or the
  last one is older than 24 hours.
\<close>

definition needsFullSync :: "int \<Rightarrow> 'n todoist_state \<Rightarrow> bool" where
  "needsFullSync now st =
     (syncToken (syncState st) = ''*'' \<or> lastFullSync (syncState st) = 0
      \<or> now - lastFullSync (syncState st) > 24 * 60 * 60 * 1000)"

section \<open>Invariants of the remote state\<close>

text \<open>
  A map of the remote state is well keyed when its keys are distinct, every entity is stored
  under its own id, and no stored entity is marked deleted. The states reachable from the
  initial one by replaying payloads are well keyed.
\<close>

definition keyed :: "('e \<Rightarrow> string) \<Rightarrow> ('e \<Rightarrow> bool) \<Rightarrow> (string, 'e) jsmap \<Rightarrow> bool" where
  "keyed idf del m = (distinct (map fst m) \<and> (\<forall>(k, v) \<in> set m. k = idf v \<and> \<not> del v))"

definition wf_todoist :: "'n todoist_state \<Rightarrow> bool" where
  "wf_todoist st =
     (keyed t_id t_is_deleted (tasks st) \<and> keyed p_id p_is_deleted (projects st)
      \<and> keyed s_id s_is_deleted (sections st) \<and> keyed l_id l_is_deleted (labels st))"

inductive reachable :: "'n todoist_state \<Rightarrow> bool" where
  reachable_init: "reachable initialTodoistState"
| reachable_step: "reachable st \<Longrightarrow> reachable (updateFromSync now resp st)"

text \<open>A full snapshot whose only project is archived and not deleted.\<close>

definition archivedProject :: TodoistProject where
  "archivedProject =
     \<lparr>p_id = ''P1'', p_name = ''Old'', p_color = ''red'', p_parent_id = None,
      p_is_deleted = False, p_is_archived = True, p_is_favorite = False\<rparr>"

definition archivedSnapshot :: "int TodoistSyncResponse" where
  "archivedSnapshot =
     \<lparr>sync_token = ''tok'', full_sync = True, r_projects = Some [archivedProject],
      r_items = Some [], r_sections = Some [], r_labels = Some []\<rparr>"


text \<open>
  A full snapshot with one project, one task and one section, and an incremental payload
  that deletes the task.
\<close>

definition sampleProject :: TodoistProject where
  "sampleProject =
     \<lparr>p_id = ''P1'', p_name = ''Work'', p_color = ''blue'', p_parent_id = None,
      p_is_deleted = False, p_is_archived = False, p_is_favorite = False\<rparr>"

definition sampleTask :: "int TodoistTask" where
  "sampleTask =
     \<lparr>t_id = ''T1'', t_project_id = ''P1'', t_content = ''Write report'', t_description = [],
      t_priority = 1, t_due = None, t_parent_id = None, t_section_id = None, t_labels = [],
      t_checked = False, t_is_deleted = False, t_date_added = ''1970-01-01T00:00:00.500Z''\<rparr>"

definition sampleSection :: TodoistSection where
  "sampleSection = \<lparr>s_id = ''S1'', s_name = ''Later'', s_project_id = ''P1'', s_is_deleted = False\<rparr>"

definition sampleSnapshot :: "int TodoistSyncResponse" where
  "sampleSnapshot =
     \<lparr>sync_token = ''tok1'', full_sync = True, r_projects = Some [sampleProject],
      r_items = Some [sampleTask], r_sections = Some [sampleSection], r_labels = Some []\<rparr>"

definition sampleDelta :: "int TodoistSyncResponse" where
  "sampleDelta =
     \<lparr>sync_token = ''tok2'', full_sync = False, r_projects = Some [sampleProject],
      r_items = Some [sampleTask\<lparr>t_is_deleted := True\<rparr>], r_sections = None, r_labels = None\<rparr>"

section \<open>Persistence of the remote state (TodoistState.serialize, deserialize)\<close>

text \<open>
  JSON values. \<^verbatim>\<open>JSON.parse\<close> and \<^verbatim>\<open>JSON.stringify\<close> belong to the language: a JSON
  text is represented by the value it denotes, and a text that \<^verbatim>\<open>JSON.parse\<close> rejects
  with a SyntaxError by \<open>None\<close>. Numbers are integers. The properties of an object are an
  association list with distinct names, as \<^verbatim>\<open>JSON.parse\<close> builds it.
\<close>

datatype json = JNull | JBool bool | JNum int | JStr string | JArr "json list"
  | JObj "(string \<times> json) list"

text \<open>A run-time value read from parsed JSON: \<open>None\<close> is \<^verbatim>\<open>undefined\<close>.\<close>

type_synonym jsval = "json option"

datatype js_error = SyntaxError | TypeError

fun truthy :: "json \<Rightarrow> bool" where
  "truthy JNull = False"
| "truthy (JBool b) = b"
| "truthy (JNum n) = (n \<noteq> 0)"
| "truthy (JStr s) = (s \<noteq> [])"
| "truthy (JArr xs) = True"
| "truthy (JObj kvs) = True"

text \<open>
  \<^verbatim>\<open>parsed.name\<close> for one of the names the source reads: reading a property of
  \<^verbatim>\<open>null\<close> throws a TypeError, an object gives the property or \<^verbatim>\<open>undefined\<close>, and
  arrays, strings, numbers and booleans have none of these names.
\<close>

fun getProperty :: "json \<Rightarrow> string \<Rightarrow> js_error + jsval" where
  "getProperty JNull name = Inl TypeError"
| "getProperty (JObj kvs) name = Inr (map_of kvs name)"
| "getProperty v name = Inr None"

text \<open>\<^verbatim>\<open>x || []\<close>\<close>

fun orEmptyArray :: "jsval \<Rightarrow> json" where
  "orEmptyArray None = JArr []"
| "orEmptyArray (Some v) = (if truthy v then v else JArr [])"

text \<open>
  The key comparison of \<^verbatim>\<open>Map\<close> (SameValueZero): primitive values are compared by
  value; the arrays and objects of a parsed text are all different objects.
\<close>

fun sameValueZero :: "jsval \<Rightarrow> jsval \<Rightarrow> bool" where
  "sameValueZero None None = True"
| "sameValueZero (Some JNull) (Some JNull) = True"
| "sameValueZero (Some (JBool a)) (Some (JBool b)) = (a = b)"
| "sameValueZero (Some (JNum a)) (Some (JNum b)) = (a = b)"
| "sameValueZero (Some (JStr a)) (Some (JStr b)) = (a = b)"
| "sameValueZero a b = False"

text \<open>
  One element of the iterable given to \<^verbatim>\<open>new Map(...)\<close>: it must be an object, and its
  properties 0 and 1 are the key and the value; anything else throws a TypeError.
\<close>

fun entryOf :: "json \<Rightarrow> js_error + (jsval \<times> jsval)" where
  "entryOf (JArr xs) =
     Inr (if 0 < length xs then Some (xs ! 0) else None,
          if 1 < length xs then Some (xs ! 1) else None)"
| "entryOf (JObj kvs) = Inr (map_of kvs ''0'', map_of kvs ''1'')"
| "entryOf v = Inl TypeError"

fun addEntries :: "json list \<Rightarrow> (jsval, jsval) jsmap \<Rightarrow> js_error + (jsval, jsval) jsmap" where
  "addEntries [] m = Inr m"
| "addEntries (e # es) m =
     (case entryOf e of
        Inl err \<Rightarrow> Inl err
      | Inr (k, v) \<Rightarrow> addEntries es (map_set_by sameValueZero k v m))"

text \<open>
  \<^verbatim>\<open>new Map(x)\<close>: an array is iterated; \<^verbatim>\<open>null\<close> gives the empty map; a string is
  iterated character by character, and a character is not an object; numbers, booleans and
  plain objects are not iterable.
\<close>

fun newMap :: "json \<Rightarrow> js_error + (jsval, jsval) jsmap" where
  "newMap (JArr es) = addEntries es []"
| "newMap JNull = Inr []"
| "newMap (JStr s) = (if s = [] then Inr [] else Inl TypeError)"
| "newMap v = Inl TypeError"

text \<open>The state as the fields hold it at run time.\<close>

type_synonym raw_state = "(jsval, jsval, jsval, jsval, jsval, json) TodoistState"

definition initialSyncStateJson :: json where
  "initialSyncStateJson =
     JObj [(''syncToken'', JStr ''*''), (''lastFullSync'', JNum 0), (''lastIncrementalSync'', JNum 0)]"

definition resetState :: "raw_state \<Rightarrow> raw_state" where
  "resetState st =
     st\<lparr>tasks := [], projects := [], sections := [], labels := [],
        syncState := initialSyncStateJson\<rparr>"

text \<open>
  The \<^verbatim>\<open>try\<close> block of \<^verbatim>\<open>deserialize\<close>. \<open>data\<close> is the result of
  \<^verbatim>\<open>JSON.parse\<close>. The four maps are built and assigned one after the other, then the sync
  state; an exception leaves the block at once.
\<close>

definition mapField :: "json \<Rightarrow> string \<Rightarrow> js_error + (jsval, jsval) jsmap" where
  "mapField parsed name =
     (case getProperty parsed name of
        Inl err \<Rightarrow> Inl err
      | Inr v \<Rightarrow> newMap (orEmptyArray v))"

definition deserializeTry :: "json option \<Rightarrow> raw_state \<Rightarrow> js_error + raw_state" where
  "deserializeTry data st =
     (case data of
        None \<Rightarrow> Inl SyntaxError
      | Some parsed \<Rightarrow>
          (case mapField parsed ''tasks'' of Inl err \<Rightarrow> Inl err | Inr t \<Rightarrow>
          (case mapField parsed ''projects'' of Inl err \<Rightarrow> Inl err | Inr p \<Rightarrow>
          (case mapField parsed ''sections'' of Inl err \<Rightarrow> Inl err | Inr s \<Rightarrow>
          (case mapField parsed ''labels'' of Inl err \<Rightarrow> Inl err | Inr l \<Rightarrow>
          (case getProperty parsed ''syncState'' of Inl err \<Rightarrow> Inl err | Inr y \<Rightarrow>
             Inr (st\<lparr>tasks := t, projects := p, sections := s, labels := l,
                     syncState := (case y of
                                     None \<Rightarrow> initialSyncStateJson
                                   | Some v \<Rightarrow> if truthy v then v else initialSyncStateJson)\<rparr>)))))))"

text \<open>
  \<^verbatim>\<open>deserialize(data)\<close>: the \<^verbatim>\<open>catch\<close> block clears the four maps, whichever of them
  the \<^verbatim>\<open>try\<close> block had already replaced, and sets the initial sync state.
\<close>

definition deserialize :: "json option \<Rightarrow> raw_state \<Rightarrow> raw_state" where
  "deserialize data st =
     (case deserializeTry data st of Inl err \<Rightarrow> resetState st | Inr st' \<Rightarrow> st')"

text \<open>
  \<^verbatim>\<open>serialize()\<close>: the value handed to \<^verbatim>\<open>JSON.stringify\<close>, in which an
  \<^verbatim>\<open>undefined\<close> inside an array is written as \<^verbatim>\<open>null\<close>.
\<close>

fun jsonOf :: "jsval \<Rightarrow> json" where
  "jsonOf None = JNull"
| "jsonOf (Some v) = v"

definition entriesJson :: "(jsval, jsval) jsmap \<Rightarrow> json" where
  "entriesJson m = JArr (map (\<lambda>(k, v). JArr [jsonOf k, jsonOf v]) m)"

definition serialize :: "raw_state \<Rightarrow> json" where
  "serialize st =
     JObj [(''tasks'', entriesJson (tasks st)), (''projects'', entriesJson (projects st)),
           (''sections'', entriesJson (sections st)), (''labels'', entriesJson (labels st)),
           (''syncState'', syncState st)]"

text \<open>
  A map as the typed program builds it: string keys, each once, and values that are present.
\<close>

definition stringKeyed :: "(jsval, jsval) jsmap \<Rightarrow> bool" where
  "stringKeyed m =
     (distinct (map fst m)
      \<and> list_all (\<lambda>(k, v). (case k of Some (JStr s) \<Rightarrow> True | _ \<Rightarrow> False) \<and> v \<noteq> None) m)"

text \<open>A persisted text of valid JSON whose task entry is the number 5.\<close>

definition wrongShape :: json where
  "wrongShape = JObj [(''tasks'', JArr [JArr [JStr ''a'', JNum 5]])]"

definition emptyRawState :: raw_state where
  "emptyRawState =
     \<lparr>tasks = [], projects = [], sections = [], labels = [], syncState = initialSyncStateJson\<rparr>"

definition sampleRawState :: raw_state where
  "sampleRawState =
     \<lparr>tasks = [(Some (JStr ''T1''), Some (JObj [(''id'', JStr ''T1''), (''content'', JStr ''Write'')]))],
      projects = [(Some (JStr ''P1''), Some (JObj [(''id'', JStr ''P1''), (''name'', JStr ''Work'')]))],
      sections = [], labels = [],
      syncState = JObj [(''syncToken'', JStr ''tok1''), (''lastFullSync'', JNum 1000),
                        (''lastIncrementalSync'', JNum 1000)]\<rparr>"

section \<open>More JavaScript string operations\<close>

abbreviation NL :: char where "NL \<equiv> CHR 0x0A"
abbreviation CR :: char where "CR \<equiv> CHR 0x0D"
abbreviation DQ :: char where "DQ \<equiv> CHR 0x22"
abbreviation SQ :: char where "SQ \<equiv> CHR 0x27"
abbreviation BSL :: char where "BSL \<equiv> CHR 0x5C"

text \<open>\<^verbatim>\<open>s.split(c)\<close> for a one-character separator: the result is never empty.\<close>

fun splitOn :: "char \<Rightarrow> string \<Rightarrow> string list" where
  "splitOn c [] = [[]]"
| "splitOn c (x # xs) =
     (if x = c then [] # splitOn c xs
      else (case splitOn c xs of l # ls \<Rightarrow> (x # l) # ls | [] \<Rightarrow> [[x]]))"

text \<open>\<^verbatim>\<open>lines.join(c)\<close>\<close>

fun joinWith :: "char \<Rightarrow> string list \<Rightarrow> string" where
  "joinWith c [] = []"
| "joinWith c [l] = l"
| "joinWith c (l # ls) = l @ c # joinWith c ls"

text \<open>\<^verbatim>\<open>s.indexOf(c)\<close>, \<open>None\<close> for -1.\<close>

fun indexOf :: "char \<Rightarrow> string \<Rightarrow> nat option" where
  "indexOf c [] = None"
| "indexOf c (x # xs) = (if x = c then Some 0 else map_option Suc (indexOf c xs))"

definition startsWith :: "char \<Rightarrow> string \<Rightarrow> bool" where
  "startsWith c s = (case s of [] \<Rightarrow> False | x # xs \<Rightarrow> x = c)"

definition endsWith :: "char \<Rightarrow> string \<Rightarrow> bool" where
  "endsWith c s = (s \<noteq> [] \<and> last s = c)"

text \<open>\<^verbatim>\<open>s.slice(1, -1)\<close>\<close>

definition slice1m1 :: "string \<Rightarrow> string" where
  "slice1m1 s = take (length s - 2) (drop 1 s)"

text \<open>\<^verbatim>\<open>s.lastIndexOf(c)\<close>, \<open>None\<close> for -1.\<close>

definition lastIndexOf :: "char \<Rightarrow> string \<Rightarrow> nat option" where
  "lastIndexOf c s =
     (case indexOf c (rev s) of None \<Rightarrow> None | Some i \<Rightarrow> Some (length s - 1 - i))"

section \<open>Frontmatter property bags\<close>

text \<open>
  A frontmatter object is used through \<^verbatim>\<open>Object.entries\<close> and property access: it is the
  list of its properties in insertion order. A value is a string, a number, a boolean, an
  array of strings, or \<^verbatim>\<open>undefined\<close>/\<^verbatim>\<open>null\<close>. The type \<open>'n\<close> is the type of
  JavaScript numbers; the conversions between numbers and strings belong to the language and
  are parameters of the functions that use them.
\<close>

datatype 'n fmvalue = FStr string | FNum 'n | FBool bool | FArr "string list" | FNull

type_synonym 'n frontmatter = "(string \<times> 'n fmvalue) list"

text \<open>
  \<^verbatim>\<open>obj[key] = value\<close> on an object created by \<^verbatim>\<open>{}\<close>: an own property is replaced
  in place or appended; the name \<^verbatim>\<open>__proto__\<close> is the prototype accessor and creates no
  own property.
\<close>

definition objSet :: "string \<Rightarrow> 'v \<Rightarrow> (string \<times> 'v) list \<Rightarrow> (string \<times> 'v) list" where
  "objSet key v obj = (if key = ''__proto__'' then obj else map_set key v obj)"

text \<open>\<^verbatim>\<open>obj.key\<close>: \<open>FNull\<close> when the property is missing.\<close>

definition fmGet :: "'n frontmatter \<Rightarrow> string \<Rightarrow> 'n fmvalue" where
  "fmGet fm key = (case map_of fm key of None \<Rightarrow> FNull | Some v \<Rightarrow> v)"

text \<open>Truthiness of a frontmatter value; \<open>isZero\<close> tells the numbers 0 and NaN.\<close>

fun fmTruthy :: "('n \<Rightarrow> bool) \<Rightarrow> 'n fmvalue \<Rightarrow> bool" where
  "fmTruthy isZero (FStr s) = (s \<noteq> [])"
| "fmTruthy isZero (FNum n) = (\<not> isZero n)"
| "fmTruthy isZero (FBool b) = b"
| "fmTruthy isZero (FArr xs) = True"
| "fmTruthy isZero FNull = False"

section \<open>FileGenerator.serializeFrontmatter\<close>

text \<open>\<^verbatim>\<open>value.replace(/\r\n/g, '\n')\<close>\<close>

fun replaceCRLF :: "string \<Rightarrow> string" where
  "replaceCRLF (a # b # cs) =
     (if a = CR \<and> b = NL then NL # replaceCRLF cs else a # replaceCRLF (b # cs))"
| "replaceCRLF cs = cs"

text \<open>\<^verbatim>\<open>.replace(/\r/g, '\n').replace(/\n+$/, '')\<close>\<close>

definition replaceCR :: "string \<Rightarrow> string" where
  "replaceCR s = map (\<lambda>c. if c = CR then NL else c) s"

definition stripTrailingNewlines :: "string \<Rightarrow> string" where
  "stripTrailingNewlines s = rev (dropWhile (\<lambda>c. c = NL) (rev s))"

text \<open>\<^verbatim>\<open>value.replace(/"/g, '\\"')\<close>\<close>

fun escapeQuotes :: "string \<Rightarrow> string" where
  "escapeQuotes [] = []"
| "escapeQuotes (c # cs) = (if c = DQ then BSL # DQ # escapeQuotes cs else c # escapeQuotes cs)"

text \<open>
  The body of the loop of \<^verbatim>\<open>serializeFrontmatter\<close>: what one property adds to the
  text. \<open>numToString\<close> is the conversion of a number in a template literal.
\<close>

fun serializeEntry :: "('n \<Rightarrow> string) \<Rightarrow> string \<times> 'n fmvalue \<Rightarrow> string" where
  "serializeEntry numToString (key, FNull) = []"
| "serializeEntry numToString (key, FArr items) =
     key @ '':'' @ [NL] @ concat (map (\<lambda>item. ''  - '' @ item @ [NL]) items)"
| "serializeEntry numToString (key, FStr v) =
     (if NL \<in> set v
      then (let normalized = stripTrailingNewlines (replaceCR (replaceCRLF v));
                lines = splitOn NL normalized
            in key @ '': |'' @ [NL] @ concat (map (\<lambda>line. ''  '' @ line @ [NL]) lines))
      else if v = ''true'' then key @ '': true'' @ [NL]
      else if v = ''false'' then key @ '': false'' @ [NL]
      else key @ '': '' @ [DQ] @ escapeQuotes v @ [DQ] @ [NL])"
| "serializeEntry numToString (key, FNum n) = key @ '': '' @ numToString n @ [NL]"
| "serializeEntry numToString (key, FBool b) =
     key @ '': '' @ (if b then ''true'' else ''false'') @ [NL]"

definition serializeFrontmatter :: "('n \<Rightarrow> string) \<Rightarrow> 'n frontmatter \<Rightarrow> string" where
  "serializeFrontmatter numToString fm =
     ''---'' @ [NL] @ concat (map (serializeEntry numToString) fm) @ ''---''"

section \<open>FrontmatterParser (utils/frontmatterParser.ts)\<close>

text \<open>\<^verbatim>\<open>item.trim().replace(/['"]/g, '')\<close>\<close>

definition cleanItem :: "string \<Rightarrow> string" where
  "cleanItem item = filter (\<lambda>c. c \<noteq> SQ \<and> c \<noteq> DQ) (trim item)"

text \<open>
  The value of one line of \<^verbatim>\<open>parseYaml\<close>, after the key was cut off. \<open>toNumber\<close> is
  \<^verbatim>\<open>Number(value)\<close>, with \<open>None\<close> for NaN.
\<close>

definition parseValue :: "(string \<Rightarrow> 'n option) \<Rightarrow> string \<Rightarrow> 'n fmvalue" where
  "parseValue toNumber value0 =
     (let value = (if (startsWith DQ value0 \<and> endsWith DQ value0)
                      \<or> (startsWith SQ value0 \<and> endsWith SQ value0)
                   then slice1m1 value0 else value0)
      in if startsWith (CHR ''['') value \<and> endsWith (CHR '']'') value
         then (let arrayContent = trim (slice1m1 value)
               in if arrayContent \<noteq> [] then FArr (map cleanItem (splitOn (CHR '','') arrayContent))
                  else FArr [])
         else if value = ''true'' \<or> value = ''false'' then FBool (value = ''true'')
         else (case toNumber value of
                 Some n \<Rightarrow> if value \<noteq> [] then FNum n else FStr value
               | None \<Rightarrow> FStr value))"

text \<open>The body of the loop of \<^verbatim>\<open>parseYaml\<close>.\<close>

definition parseLine :: "(string \<Rightarrow> 'n option) \<Rightarrow> string \<Rightarrow> 'n frontmatter \<Rightarrow> 'n frontmatter" where
  "parseLine toNumber line result =
     (let trimmed = trim line
      in if trimmed = [] \<or> startsWith (CHR ''#'') trimmed then result
         else (case indexOf (CHR '':'') trimmed of
                 None \<Rightarrow> result
               | Some colonIndex \<Rightarrow>
                   (let key = trim (take colonIndex trimmed);
                        value = trim (drop (colonIndex + 1) trimmed)
                    in objSet key (parseValue toNumber value) result)))"

definition parseYaml :: "(string \<Rightarrow> 'n option) \<Rightarrow> string \<Rightarrow> 'n frontmatter" where
  "parseYaml toNumber yamlContent =
     fold (parseLine toNumber) (splitOn NL yamlContent) []"

text \<open>
  \<^verbatim>\<open>parseFrontmatter(content)\<close>: \<open>None\<close> is \<^verbatim>\<open>null\<close>. The first line must be the
  delimiter; the block ends at the next line that is the delimiter.
\<close>

definition parseFrontmatter :: "(string \<Rightarrow> 'n option) \<Rightarrow> string \<Rightarrow> ('n frontmatter \<times> string) option" where
  "parseFrontmatter toNumber content =
     (case splitOn NL content of
        [] \<Rightarrow> None
      | first # rest \<Rightarrow>
          if first \<noteq> ''---'' then None
          else if ''---'' \<notin> set rest then None
          else (let frontmatterLines = takeWhile (\<lambda>l. l \<noteq> ''---'') rest;
                    bodyLines = drop 1 (dropWhile (\<lambda>l. l \<noteq> ''---'') rest)
                in Some (parseYaml toNumber (joinWith NL frontmatterLines),
                         joinWith NL bodyLines)))"

section \<open>The environment of the engine\<close>

text \<open>
  Conversions of the language that the program calls: \<^verbatim>\<open>Number(s)\<close> (\<open>None\<close> for NaN),
  the text of a number in a template literal, whether a number is falsy (zero or NaN), the
  time value of \<^verbatim>\<open>new Date(n)\<close> for a number (\<open>None\<close> for NaN),
  \<^verbatim>\<open>new Date(s).getTime()\<close> for a string (\<open>None\<close> for NaN),
  \<^verbatim>\<open>new Date(t).toISOString()\<close>, and the text of a time value in a template literal.
\<close>

record 'n js =
  js_Number :: "string \<Rightarrow> 'n option"
  js_numToString :: "'n \<Rightarrow> string"
  js_numFalsy :: "'n \<Rightarrow> bool"
  js_numToTime :: "'n \<Rightarrow> int option"
  js_dateParse :: "string \<Rightarrow> int option"
  js_toISOString :: "int \<Rightarrow> string"
  js_timeToString :: "int \<Rightarrow> string"

text \<open>An exception with its message.\<close>

datatype exn = Error string

text \<open>
  The remote client (api/todoistSync.ts) as the engine sees it. \<^verbatim>\<open>testConnection\<close>,
  \<^verbatim>\<open>getProjects\<close> and \<^verbatim>\<open>getTasks\<close> catch their errors and return;
  \<^verbatim>\<open>sync\<close>, \<^verbatim>\<open>getSections\<close>, \<^verbatim>\<open>getLabels\<close> and \<^verbatim>\<open>updateTask\<close> can
  throw. \<open>api_updateTask_fails\<close> tells for which task ids \<^verbatim>\<open>updateTask\<close> throws.
\<close>

record 'n api =
  api_testConnection :: bool
  api_sync :: "string \<Rightarrow> exn + 'n TodoistSyncResponse"
  api_getProjects :: "TodoistProject list"
  api_getTasks :: "'n TodoistTask list"
  api_getSections :: "exn + TodoistSection list"
  api_getLabels :: "exn + TodoistLabel list"
  api_updateTask_fails :: "'n fmvalue \<Rightarrow> exn option"

text \<open>
  What is fixed during one call of an entry point: the language, the remote service, the
  reading of \<^verbatim>\<open>Date.now()\<close>, and the frontmatter that the metadata cache of the host
  reports for a document text.
\<close>

record 'n env =
  env_js :: "'n js"
  env_api :: "'n api"
  env_now :: int
  env_cache :: "string \<Rightarrow> 'n frontmatter option"

section \<open>The vault of the host\<close>

text \<open>
  The storage collaborator: the folders that exist and the documents, in the order in which
  the host lists them. The operations of the program on the vault succeed; each one that
  changes the vault is recorded in a log.
\<close>

record 'n vfile =
  vf_content :: string
  vf_mtime :: int
  vf_cache :: "'n frontmatter option"

datatype vault_op = CreateFolder string | CreateFile string | ModifyFile string | DeleteFile string

record 'n vault =
  v_folders :: "string list"
  v_files :: "(string, 'n vfile) jsmap"
  v_log :: "vault_op list"

datatype abstract_file = TFile | TFolder

definition getAbstractFileByPath :: "'n vault \<Rightarrow> string \<Rightarrow> abstract_file option" where
  "getAbstractFileByPath v path =
     (if map_get (v_files v) path \<noteq> None then Some TFile
      else if path \<in> set (v_folders v) then Some TFolder else None)"

definition vault_createFolder :: "string \<Rightarrow> 'n vault \<Rightarrow> 'n vault" where
  "vault_createFolder path v =
     v\<lparr>v_folders := v_folders v @ [path], v_log := v_log v @ [CreateFolder path]\<rparr>"

definition vault_write :: "'n env \<Rightarrow> string \<Rightarrow> string \<Rightarrow> 'n vault \<Rightarrow> 'n vault" where
  "vault_write env path content v =
     v\<lparr>v_files := map_set path
          \<lparr>vf_content = content, vf_mtime = env_now env, vf_cache = env_cache env content\<rparr>
          (v_files v)\<rparr>"

definition vault_create :: "'n env \<Rightarrow> string \<Rightarrow> string \<Rightarrow> 'n vault \<Rightarrow> 'n vault" where
  "vault_create env path content v =
     (vault_write env path content v)\<lparr>v_log := v_log v @ [CreateFile path]\<rparr>"

definition vault_modify :: "'n env \<Rightarrow> string \<Rightarrow> string \<Rightarrow> 'n vault \<Rightarrow> 'n vault" where
  "vault_modify env path content v =
     (vault_write env path content v)\<lparr>v_log := v_log v @ [ModifyFile path]\<rparr>"

definition vault_delete :: "string \<Rightarrow> 'n vault \<Rightarrow> 'n vault" where
  "vault_delete path v =
     v\<lparr>v_files := map_delete path (v_files v), v_log := v_log v @ [DeleteFile path]\<rparr>"

text \<open>The name of a document without its folders, its extension and its base name.\<close>

definition fileName :: "string \<Rightarrow> string" where
  "fileName path = rev (takeWhile (\<lambda>c. c \<noteq> CHR ''/'') (rev path))"

definition extension :: "string \<Rightarrow> string" where
  "extension path =
     (if CHR ''.'' \<in> set (fileName path)
      then rev (takeWhile (\<lambda>c. c \<noteq> CHR ''.'') (rev (fileName path))) else [])"

definition basename :: "string \<Rightarrow> string" where
  "basename path =
     (if CHR ''.'' \<in> set (fileName path)
      then rev (drop 1 (dropWhile (\<lambda>c. c \<noteq> CHR ''.'') (rev (fileName path))))
      else fileName path)"

text \<open>\<^verbatim>\<open>path.startsWith(prefix)\<close>\<close>

definition startsWithStr :: "string \<Rightarrow> string \<Rightarrow> bool" where
  "startsWithStr prefix s = (take (length prefix) s = prefix)"

section \<open>Local state (state/obsidianState.ts)\<close>

text \<open>
  The notes of \<^verbatim>\<open>models/types.ts\<close>. The frontmatter of a scanned note is what the metadata
  cache reports, cast without a check, so an id or a name read from it is a frontmatter value.
\<close>

record 'n ObsidianTaskNote =
  tn_filePath :: string
  tn_todoistId :: "'n fmvalue"
  tn_content :: string
  tn_frontmatter :: "'n frontmatter"
  tn_lastModified :: int

record 'n ObsidianProjectNote =
  pn_filePath :: string
  pn_todoistId :: "'n fmvalue"
  pn_name :: "'n fmvalue"
  pn_frontmatter :: "'n frontmatter"
  pn_lastModified :: int

record 'n ObsidianSectionNote =
  sn_filePath :: string
  sn_todoistId :: "'n fmvalue"
  sn_name :: "'n fmvalue"
  sn_projectId :: "'n fmvalue"
  sn_frontmatter :: "'n frontmatter"
  sn_lastModified :: int

text \<open>
  The key comparison of \<^verbatim>\<open>Map\<close> on frontmatter values: strings, numbers and booleans
  by value; every array is an object of its own.
\<close>

fun fmSame :: "'n fmvalue \<Rightarrow> 'n fmvalue \<Rightarrow> bool" where
  "fmSame (FStr a) (FStr b) = (a = b)"
| "fmSame (FNum a) (FNum b) = (a = b)"
| "fmSame (FBool a) (FBool b) = (a = b)"
| "fmSame FNull FNull = True"
| "fmSame a b = False"

record 'n ObsidianState =
  taskNotes :: "('n fmvalue, 'n ObsidianTaskNote) jsmap"
  projectNotes :: "('n fmvalue, 'n ObsidianProjectNote) jsmap"
  sectionNotes :: "('n fmvalue, 'n ObsidianSectionNote) jsmap"
  filePathToTodoistId :: "(string, 'n fmvalue) jsmap"

definition emptyObsidianState :: "'n ObsidianState" where
  "emptyObsidianState =
     \<lparr>taskNotes = [], projectNotes = [], sectionNotes = [], filePathToTodoistId = []\<rparr>"

definition getTaskNote :: "'n ObsidianState \<Rightarrow> 'n fmvalue \<Rightarrow> 'n ObsidianTaskNote option" where
  "getTaskNote os i = map_get_by fmSame (taskNotes os) i"

definition getProjectNote :: "'n ObsidianState \<Rightarrow> 'n fmvalue \<Rightarrow> 'n ObsidianProjectNote option" where
  "getProjectNote os i = map_get_by fmSame (projectNotes os) i"

definition getSectionNote :: "'n ObsidianState \<Rightarrow> 'n fmvalue \<Rightarrow> 'n ObsidianSectionNote option" where
  "getSectionNote os i = map_get_by fmSame (sectionNotes os) i"

definition setTaskNote :: "'n fmvalue \<Rightarrow> 'n ObsidianTaskNote \<Rightarrow> 'n ObsidianState \<Rightarrow> 'n ObsidianState" where
  "setTaskNote i note os =
     os\<lparr>taskNotes := map_set_by fmSame i note (taskNotes os),
        filePathToTodoistId := map_set (tn_filePath note) i (filePathToTodoistId os)\<rparr>"

definition setProjectNote :: "'n fmvalue \<Rightarrow> 'n ObsidianProjectNote \<Rightarrow> 'n ObsidianState \<Rightarrow> 'n ObsidianState" where
  "setProjectNote i note os =
     os\<lparr>projectNotes := map_set_by fmSame i note (projectNotes os),
        filePathToTodoistId := map_set (pn_filePath note) i (filePathToTodoistId os)\<rparr>"

definition setSectionNote :: "'n fmvalue \<Rightarrow> 'n ObsidianSectionNote \<Rightarrow> 'n ObsidianState \<Rightarrow> 'n ObsidianState" where
  "setSectionNote i note os =
     os\<lparr>sectionNotes := map_set_by fmSame i note (sectionNotes os),
        filePathToTodoistId := map_set (sn_filePath note) i (filePathToTodoistId os)\<rparr>"

text \<open>\<^verbatim>\<open>removeNote(todoistId)\<close>\<close>

definition removeNote :: "'n fmvalue \<Rightarrow> 'n ObsidianState \<Rightarrow> 'n ObsidianState" where
  "removeNote i os =
     (let os1 = (case getTaskNote os i of
                   None \<Rightarrow> os
                 | Some n \<Rightarrow> os\<lparr>taskNotes := map_delete_by fmSame i (taskNotes os),
                               filePathToTodoistId := map_delete (tn_filePath n) (filePathToTodoistId os)\<rparr>);
          os2 = (case getProjectNote os i of
                   None \<Rightarrow> os1
                 | Some n \<Rightarrow> os1\<lparr>projectNotes := map_delete_by fmSame i (projectNotes os1),
                                filePathToTodoistId := map_delete (pn_filePath n) (filePathToTodoistId os1)\<rparr>)
      in (case getSectionNote os i of
            None \<Rightarrow> os2
          | Some n \<Rightarrow> os2\<lparr>sectionNotes := map_delete_by fmSame i (sectionNotes os2),
                         filePathToTodoistId := map_delete (sn_filePath n) (filePathToTodoistId os2)\<rparr>))"

text \<open>
  \<^verbatim>\<open>processFile(file)\<close>: a document without cached frontmatter or without a truthy
  \<^verbatim>\<open>todoist_id\<close> is ignored; the others are sorted by \<^verbatim>\<open>todoist_type\<close>, a task
  being the default.
\<close>

definition orElse :: "('n \<Rightarrow> bool) \<Rightarrow> 'n fmvalue \<Rightarrow> 'n fmvalue \<Rightarrow> 'n fmvalue" where
  "orElse isZero a b = (if fmTruthy isZero a then a else b)"

definition processFile :: "'n js \<Rightarrow> string \<times> 'n vfile \<Rightarrow> 'n ObsidianState \<Rightarrow> 'n ObsidianState" where
  "processFile js pf os =
     (case vf_cache (snd pf) of
        None \<Rightarrow> os
      | Some frontmatter \<Rightarrow>
          (let path = fst pf; file = snd pf;
               todoistId = fmGet frontmatter ''todoist_id''
           in if \<not> fmTruthy (js_numFalsy js) todoistId then os
              else (let os1 = os\<lparr>filePathToTodoistId := map_set path todoistId (filePathToTodoistId os)\<rparr>;
                        todoistType = fmGet frontmatter ''todoist_type''
                    in if todoistType = FStr ''project''
                       then os1\<lparr>projectNotes := map_set_by fmSame todoistId
                              \<lparr>pn_filePath = path, pn_todoistId = todoistId,
                               pn_name = orElse (js_numFalsy js) (fmGet frontmatter ''title'') (FStr (basename path)),
                               pn_frontmatter = frontmatter, pn_lastModified = vf_mtime file\<rparr>
                              (projectNotes os1)\<rparr>
                       else if todoistType = FStr ''section''
                       then os1\<lparr>sectionNotes := map_set_by fmSame todoistId
                              \<lparr>sn_filePath = path, sn_todoistId = todoistId,
                               sn_name = orElse (js_numFalsy js) (fmGet frontmatter ''title'') (FStr (basename path)),
                               sn_projectId = orElse (js_numFalsy js) (fmGet frontmatter ''todoist_project'') (FStr []),
                               sn_frontmatter = frontmatter, sn_lastModified = vf_mtime file\<rparr>
                              (sectionNotes os1)\<rparr>
                       else os1\<lparr>taskNotes := map_set_by fmSame todoistId
                              \<lparr>tn_filePath = path, tn_todoistId = todoistId,
                               tn_content = vf_content file,
                               tn_frontmatter = frontmatter, tn_lastModified = vf_mtime file\<rparr>
                              (taskNotes os1)\<rparr>)))"

text \<open>
  \<^verbatim>\<open>scanVault()\<close>: the maps are cleared; when the sync folder exists, every markdown
  document below it is processed, in the order of the host.
\<close>

definition scanVault :: "'n js \<Rightarrow> string \<Rightarrow> 'n vault \<Rightarrow> 'n ObsidianState" where
  "scanVault js syncFolderPath v =
     (if getAbstractFileByPath v syncFolderPath \<noteq> Some TFolder then emptyObsidianState
      else fold (processFile js)
             (filter (\<lambda>pf. startsWithStr (syncFolderPath @ ''/'') (fst pf) \<and> extension (fst pf) = ''md'')
                (v_files v))
             emptyObsidianState)"

text \<open>\<^verbatim>\<open>getModifiedSince(timestamp)\<close>\<close>

definition modifiedTasks :: "'n ObsidianState \<Rightarrow> int \<Rightarrow> 'n ObsidianTaskNote list" where
  "modifiedTasks os timestamp = filter (\<lambda>note. tn_lastModified note > timestamp) (map_values (taskNotes os))"

definition modifiedProjects :: "'n ObsidianState \<Rightarrow> int \<Rightarrow> 'n ObsidianProjectNote list" where
  "modifiedProjects os timestamp =
     filter (\<lambda>note. pn_lastModified note > timestamp) (map_values (projectNotes os))"

definition modifiedSections :: "'n ObsidianState \<Rightarrow> int \<Rightarrow> 'n ObsidianSectionNote list" where
  "modifiedSections os timestamp =
     filter (\<lambda>note. sn_lastModified note > timestamp) (map_values (sectionNotes os))"

section \<open>FileGenerator (obsidian/fileGenerator.ts)\<close>

text \<open>
  The settings of the engine. The constructor of the engine and \<^verbatim>\<open>updateSettings\<close> hand
  the same sync folder, properties and dry-run flag to the file generator and to the local
  state, so the components read them from one record.
\<close>

record EnabledProperties =
  ep_content :: bool
  ep_dueDate :: bool
  ep_priority :: bool
  ep_labels :: bool
  ep_project :: bool
  ep_section :: bool

record SyncEngineSettings =
  todoistApiToken :: string
  syncFolderPath :: string
  scopeTag :: string
  enabledProperties :: EnabledProperties
  realTimeSyncEnabled :: bool
  dryRunMode :: bool

text \<open>A string that may be absent is truthy when it is present and not empty.\<close>

fun truthyStr :: "string option \<Rightarrow> bool" where
  "truthyStr None = False"
| "truthyStr (Some s) = (s \<noteq> [])"

definition ensureSyncFolder :: "SyncEngineSettings \<Rightarrow> 'n vault \<Rightarrow> 'n vault" where
  "ensureSyncFolder st v =
     (if getAbstractFileByPath v (syncFolderPath st) = None
      then vault_createFolder (syncFolderPath st) v else v)"

definition ensureFolder :: "string \<Rightarrow> 'n vault \<Rightarrow> 'n vault" where
  "ensureFolder folderPath v =
     (if getAbstractFileByPath v folderPath = None then vault_createFolder folderPath v else v)"

definition getTaskFolderPath :: "SyncEngineSettings \<Rightarrow> string option \<Rightarrow> string option \<Rightarrow> string" where
  "getTaskFolderPath st projectName sectionName =
     (case projectName of
        None \<Rightarrow> syncFolderPath st
      | Some p \<Rightarrow>
          if p = [] then syncFolderPath st
          else (let path = syncFolderPath st @ ''/'' @ sanitizeFileName p
                in (case sectionName of
                      None \<Rightarrow> path
                    | Some s \<Rightarrow> if s = [] then path else path @ ''/'' @ sanitizeFileName s)))"

definition optEntry :: "bool \<Rightarrow> string \<Rightarrow> 'n fmvalue \<Rightarrow> 'n frontmatter" where
  "optEntry cond key v = (if cond then [(key, v)] else [])"

definition buildTaskFrontmatter ::
  "'n env \<Rightarrow> SyncEngineSettings \<Rightarrow> 'n TodoistTask \<Rightarrow> string option \<Rightarrow> string option \<Rightarrow> 'n frontmatter" where
  "buildTaskFrontmatter env st task projectName sectionName =
     (let ep = enabledProperties st
      in [(''todoist_id'', FStr (t_id task)), (''todoist_type'', FStr ''task''),
          (''sync_status'', FStr ''synced''),
          (''last_sync'', FStr (js_toISOString (env_js env) (env_now env)))]
         @ optEntry (ep_content ep) ''title'' (FStr (t_content task))
         @ (case t_due task of
              None \<Rightarrow> []
            | Some due \<Rightarrow>
                if ep_dueDate ep
                then optEntry (due_date due \<noteq> []) ''due_date'' (FStr (due_date due))
                     @ (case due_datetime due of
                          None \<Rightarrow> []
                        | Some dt \<Rightarrow> optEntry (dt \<noteq> []) ''due_datetime'' (FStr dt))
                else [])
         @ optEntry (ep_priority ep) ''priority'' (FNum (t_priority task))
         @ optEntry (ep_labels ep \<and> length (t_labels task) > 0) ''labels'' (FArr (t_labels task))
         @ (case projectName of
              None \<Rightarrow> []
            | Some p \<Rightarrow> optEntry (ep_project ep \<and> p \<noteq> []) ''todoist_project'' (FStr p))
         @ (case sectionName of
              None \<Rightarrow> []
            | Some s \<Rightarrow> optEntry (ep_section ep \<and> s \<noteq> []) ''todoist_section'' (FStr s))
         @ [(''completed'', FBool (t_checked task))]
         @ optEntry (t_description task \<noteq> []) ''description'' (FStr (t_description task))
         @ (case t_parent_id task of
              None \<Rightarrow> []
            | Some p \<Rightarrow> optEntry (p \<noteq> []) ''parent_task'' (FStr p)))"

definition buildProjectFrontmatter :: "'n env \<Rightarrow> TodoistProject \<Rightarrow> 'n frontmatter" where
  "buildProjectFrontmatter env project =
     [(''todoist_id'', FStr (p_id project)), (''todoist_type'', FStr ''project''),
      (''title'', FStr (p_name project)), (''color'', FStr (p_color project)),
      (''parent_project'', (case p_parent_id project of
                              None \<Rightarrow> FNull
                            | Some p \<Rightarrow> if p = [] then FNull else FStr p)),
      (''is_favorite'', FBool (p_is_favorite project)),
      (''sync_status'', FStr ''synced''),
      (''last_sync'', FStr (js_toISOString (env_js env) (env_now env)))]"

definition buildSectionFrontmatter :: "'n env \<Rightarrow> TodoistSection \<Rightarrow> 'n frontmatter" where
  "buildSectionFrontmatter env section =
     [(''todoist_id'', FStr (s_id section)), (''todoist_type'', FStr ''section''),
      (''title'', FStr (s_name section)), (''todoist_project'', FStr (s_project_id section)),
      (''sync_status'', FStr ''synced''),
      (''last_sync'', FStr (js_toISOString (env_js env) (env_now env)))]"

text \<open>
  \<^verbatim>\<open>buildTaskContent\<close>, \<^verbatim>\<open>buildProjectContent\<close> and \<^verbatim>\<open>buildSectionContent\<close>:
  the frontmatter and a line break, no body.
\<close>

definition buildContent :: "'n env \<Rightarrow> 'n frontmatter \<Rightarrow> string" where
  "buildContent env frontmatter =
     serializeFrontmatter (js_numToString (env_js env)) frontmatter @ [NL]"

text \<open>
  The end of the three \<^verbatim>\<open>createOrUpdate\<close> functions: under dry-run nothing is written;
  otherwise the document is modified when it exists and created when it does not. The result
  is the modification time of the note: the clock under dry-run, the time of the document
  otherwise.
\<close>

definition writeNote :: "'n env \<Rightarrow> SyncEngineSettings \<Rightarrow> string \<Rightarrow> string \<Rightarrow> 'n vault \<Rightarrow> int \<times> 'n vault" where
  "writeNote env st filePath content v =
     (let existingFile = getAbstractFileByPath v filePath
      in if dryRunMode st then (env_now env, v)
         else (let v' = (if existingFile = Some TFile then vault_modify env filePath content v
                         else vault_create env filePath content v)
               in (case map_get (v_files v') filePath of
                     Some file \<Rightarrow> (vf_mtime file, v')
                   | None \<Rightarrow> (env_now env, v'))))"

text \<open>
  \<^verbatim>\<open>createOrUpdateTaskNote(task, projectName, sectionName, existingFilePath)\<close>
\<close>

definition createOrUpdateTaskNote ::
  "'n env \<Rightarrow> SyncEngineSettings \<Rightarrow> 'n TodoistTask \<Rightarrow> string option \<Rightarrow> string option \<Rightarrow> string option
     \<Rightarrow> 'n vault \<Rightarrow> 'n ObsidianTaskNote \<times> 'n vault" where
  "createOrUpdateTaskNote env st task projectName sectionName existingFilePath v =
     (let v1 = ensureSyncFolder st v;
          (filePath, folderPath) =
            (if truthyStr existingFilePath
             then (let filePath = (case existingFilePath of Some p \<Rightarrow> p | None \<Rightarrow> [])
                   in (filePath, (case lastIndexOf (CHR ''/'') filePath of
                                    Some idx \<Rightarrow> take idx filePath
                                  | None \<Rightarrow> syncFolderPath st)))
             else (let fileName = sanitizeFileName
                                    (if t_content task \<noteq> [] then t_content task
                                     else ''Task '' @ t_id task);
                       folderPath = getTaskFolderPath st projectName sectionName
                   in (folderPath @ ''/'' @ fileName @ ''.md'', folderPath)));
          v2 = ensureFolder folderPath v1;
          frontmatter = buildTaskFrontmatter env st task projectName sectionName;
          content = buildContent env frontmatter;
          (mtime, v3) = writeNote env st filePath content v2
      in (\<lparr>tn_filePath = filePath, tn_todoistId = FStr (t_id task), tn_content = content,
           tn_frontmatter = frontmatter, tn_lastModified = mtime\<rparr>, v3))"

text \<open>\<^verbatim>\<open>createOrUpdateProjectNote(project)\<close>\<close>

definition createOrUpdateProjectNote ::
  "'n env \<Rightarrow> SyncEngineSettings \<Rightarrow> TodoistProject \<Rightarrow> 'n vault \<Rightarrow> 'n ObsidianProjectNote \<times> 'n vault" where
  "createOrUpdateProjectNote env st project v =
     (let v1 = ensureSyncFolder st v;
          fileName = sanitizeFileName (p_name project);
          filePath = syncFolderPath st @ ''/'' @ fileName @ ''/_project.md'';
          projectFolder = syncFolderPath st @ ''/'' @ fileName;
          v2 = ensureFolder projectFolder v1;
          frontmatter = buildProjectFrontmatter env project;
          content = buildContent env frontmatter;
          (mtime, v3) = writeNote env st filePath content v2
      in (\<lparr>pn_filePath = filePath, pn_todoistId = FStr (p_id project), pn_name = FStr (p_name project),
           pn_frontmatter = frontmatter, pn_lastModified = mtime\<rparr>, v3))"

text \<open>\<^verbatim>\<open>createOrUpdateSectionNote(section, projectName)\<close>\<close>

definition createOrUpdateSectionNote ::
  "'n env \<Rightarrow> SyncEngineSettings \<Rightarrow> TodoistSection \<Rightarrow> string \<Rightarrow> 'n vault \<Rightarrow> 'n ObsidianSectionNote \<times> 'n vault" where
  "createOrUpdateSectionNote env st section projectName v =
     (let v1 = ensureSyncFolder st v;
          projectFolderName = sanitizeFileName projectName;
          sectionFileName = sanitizeFileName (s_name section);
          filePath = syncFolderPath st @ ''/'' @ projectFolderName @ ''/'' @ sectionFileName
                       @ ''/_section.md'';
          sectionFolder = syncFolderPath st @ ''/'' @ projectFolderName @ ''/'' @ sectionFileName;
          v2 = ensureFolder sectionFolder v1;
          frontmatter = buildSectionFrontmatter env section;
          content = buildContent env frontmatter;
          (mtime, v3) = writeNote env st filePath content v2
      in (\<lparr>sn_filePath = filePath, sn_todoistId = FStr (s_id section), sn_name = FStr (s_name section),
           sn_projectId = FStr (s_project_id section), sn_frontmatter = frontmatter,
           sn_lastModified = mtime\<rparr>, v3))"

text \<open>\<^verbatim>\<open>deleteNote(filePath)\<close>\<close>

definition deleteNote :: "SyncEngineSettings \<Rightarrow> string \<Rightarrow> 'n vault \<Rightarrow> 'n vault" where
  "deleteNote st filePath v =
     (if dryRunMode st then v
      else if getAbstractFileByPath v filePath = Some TFile then vault_delete filePath v else v)"

section \<open>SyncEngine (sync/syncEngine.ts): state and reconciliation\<close>

record pending_change =
  pc_filePath :: string
  pc_lastModified :: int

text \<open>The calls of the remote client that change the remote workspace.\<close>

datatype 'n remote_call =
  CloseTask "'n fmvalue"
| ReopenTask "'n fmvalue"
| UpdateTask "'n fmvalue" "'n frontmatter"

datatype entity_kind = KProject | KSection | KTask

datatype decision = Created | Updated | Skipped

text \<open>
  The engine with its two states and the world it acts on: the vault and the calls made to
  the remote service. \<open>decisions\<close> is the console trace of the reconcile functions, one
  entry for each decision with the kind and id of the entity.
\<close>

record 'n system =
  settings :: SyncEngineSettings
  todoistState :: "'n todoist_state"
  obsidianState :: "'n ObsidianState"
  isRunning :: bool
  lastSyncTime :: int
  pendingChanges :: "(string, pending_change) jsmap"
  isWatchingFiles :: bool
  vault :: "'n vault"
  remoteLog :: "'n remote_call list"
  decisions :: "(entity_kind \<times> string \<times> decision) list"

text \<open>The constructor of the engine, on a vault.\<close>

definition newSyncEngine :: "SyncEngineSettings \<Rightarrow> 'n vault \<Rightarrow> 'n system" where
  "newSyncEngine st v =
     \<lparr>settings = st, todoistState = initialTodoistState, obsidianState = emptyObsidianState,
      isRunning = False, lastSyncTime = 0, pendingChanges = [], isWatchingFiles = False,
      vault = v, remoteLog = [], decisions = []\<rparr>"

definition updateSettings :: "SyncEngineSettings \<Rightarrow> 'n system \<Rightarrow> 'n system" where
  "updateSettings newSettings sys = sys\<lparr>settings := newSettings\<rparr>"

text \<open>
  \<^verbatim>\<open>parseLastSyncTime(lastSync)\<close>: a missing or unreadable value is time zero. The value
  comes from a frontmatter: \<^verbatim>\<open>new Date(v)\<close> parses a string, takes a number as the time,
  \<^verbatim>\<open>true\<close> as 1, and an array as the text of its elements joined by commas.
\<close>

definition orZero :: "int option \<Rightarrow> int" where
  "orZero t = (case t of None \<Rightarrow> 0 | Some x \<Rightarrow> x)"

fun parseLastSyncTime :: "'n js \<Rightarrow> 'n fmvalue \<Rightarrow> int" where
  "parseLastSyncTime js FNull = 0"
| "parseLastSyncTime js (FStr s) = (if s = [] then 0 else orZero (js_dateParse js s))"
| "parseLastSyncTime js (FBool b) = (if b then 1 else 0)"
| "parseLastSyncTime js (FNum n) = (if js_numFalsy js n then 0 else orZero (js_numToTime js n))"
| "parseLastSyncTime js (FArr xs) = orZero (js_dateParse js (joinWith (CHR '','') xs))"

text \<open>\<^verbatim>\<open>a > b\<close> where \<open>a\<close> may be NaN: a comparison with NaN is false.\<close>

definition newerThan :: "int option \<Rightarrow> int \<Rightarrow> bool" where
  "newerThan a b = (case a of None \<Rightarrow> False | Some x \<Rightarrow> x > b)"

definition decide :: "entity_kind \<Rightarrow> string \<Rightarrow> decision \<Rightarrow> 'n system \<Rightarrow> 'n system" where
  "decide k i d sys = sys\<lparr>decisions := decisions sys @ [(k, i, d)]\<rparr>"

text \<open>\<^verbatim>\<open>reconcileTask(task, projectName, sectionName)\<close>\<close>

definition reconcileTask ::
  "'n env \<Rightarrow> 'n TodoistTask \<Rightarrow> string option \<Rightarrow> string option \<Rightarrow> 'n system \<Rightarrow> decision \<times> 'n system" where
  "reconcileTask env task projectName sectionName sys =
     (case getTaskNote (obsidianState sys) (FStr (t_id task)) of
        None \<Rightarrow>
          (let (taskNote, v) = createOrUpdateTaskNote env (settings sys) task projectName sectionName
                                 None (vault sys)
           in (Created, decide KTask (t_id task) Created
                 (sys\<lparr>vault := v,
                      obsidianState := setTaskNote (FStr (t_id task)) taskNote (obsidianState sys)\<rparr>)))
      | Some existingNote \<Rightarrow>
          (let todoistModified = js_dateParse (env_js env) (t_date_added task);
               lastSync = parseLastSyncTime (env_js env) (fmGet (tn_frontmatter existingNote) ''last_sync'')
           in if newerThan todoistModified lastSync
              then (let (updatedNote, v) = createOrUpdateTaskNote env (settings sys) task projectName
                                             sectionName (Some (tn_filePath existingNote)) (vault sys)
                    in (Updated, decide KTask (t_id task) Updated
                          (sys\<lparr>vault := v,
                               obsidianState := setTaskNote (FStr (t_id task)) updatedNote
                                                   (obsidianState sys)\<rparr>)))
              else (Skipped, decide KTask (t_id task) Skipped sys)))"

text \<open>\<^verbatim>\<open>reconcileProject(project)\<close>\<close>

definition reconcileProject :: "'n env \<Rightarrow> TodoistProject \<Rightarrow> 'n system \<Rightarrow> decision \<times> 'n system" where
  "reconcileProject env project sys =
     (case getProjectNote (obsidianState sys) (FStr (p_id project)) of
        None \<Rightarrow>
          (let (projectNote, v) = createOrUpdateProjectNote env (settings sys) project (vault sys)
           in (Created, decide KProject (p_id project) Created
                 (sys\<lparr>vault := v,
                      obsidianState := setProjectNote (FStr (p_id project)) projectNote
                                          (obsidianState sys)\<rparr>)))
      | Some existingNote \<Rightarrow>
          (let contentChanged =
                 (pn_name existingNote \<noteq> FStr (p_name project)
                  \<or> fmGet (pn_frontmatter existingNote) ''color'' \<noteq> FStr (p_color project)
                  \<or> fmGet (pn_frontmatter existingNote) ''is_favorite'' \<noteq> FBool (p_is_favorite project))
           in if contentChanged
              then (let (updatedNote, v) = createOrUpdateProjectNote env (settings sys) project (vault sys)
                    in (Updated, decide KProject (p_id project) Updated
                          (sys\<lparr>vault := v,
                               obsidianState := setProjectNote (FStr (p_id project)) updatedNote
                                                   (obsidianState sys)\<rparr>)))
              else (Skipped, decide KProject (p_id project) Skipped sys)))"

text \<open>\<^verbatim>\<open>reconcileSection(section, projectName)\<close>\<close>

definition reconcileSection :: "'n env \<Rightarrow> TodoistSection \<Rightarrow> string \<Rightarrow> 'n system \<Rightarrow> decision \<times> 'n system" where
  "reconcileSection env section projectName sys =
     (case getSectionNote (obsidianState sys) (FStr (s_id section)) of
        None \<Rightarrow>
          (let (sectionNote, v) = createOrUpdateSectionNote env (settings sys) section projectName
                                    (vault sys)
           in (Created, decide KSection (s_id section) Created
                 (sys\<lparr>vault := v,
                      obsidianState := setSectionNote (FStr (s_id section)) sectionNote
                                          (obsidianState sys)\<rparr>)))
      | Some existingNote \<Rightarrow>
          (let contentChanged = (sn_name existingNote \<noteq> FStr (s_name section))
           in if contentChanged
              then (let (updatedNote, v) = createOrUpdateSectionNote env (settings sys) section
                                             projectName (vault sys)
                    in (Updated, decide KSection (s_id section) Updated
                          (sys\<lparr>vault := v,
                               obsidianState := setSectionNote (FStr (s_id section)) updatedNote
                                                   (obsidianState sys)\<rparr>)))
              else (Skipped, decide KSection (s_id section) Skipped sys)))"

text \<open>The counters of \<^verbatim>\<open>reconcileStates\<close>.\<close>

record counts =
  n_tasks :: nat
  n_projects :: nat
  n_sections :: nat

record stats =
  created :: counts
  updated :: counts
  skipped :: counts

definition zeroCounts :: counts where
  "zeroCounts = \<lparr>n_tasks = 0, n_projects = 0, n_sections = 0\<rparr>"

definition zeroStats :: stats where
  "zeroStats = \<lparr>created = zeroCounts, updated = zeroCounts, skipped = zeroCounts\<rparr>"

fun bumpCount :: "entity_kind \<Rightarrow> counts \<Rightarrow> counts" where
  "bumpCount KTask c = c\<lparr>n_tasks := n_tasks c + 1\<rparr>"
| "bumpCount KProject c = c\<lparr>n_projects := n_projects c + 1\<rparr>"
| "bumpCount KSection c = c\<lparr>n_sections := n_sections c + 1\<rparr>"

text \<open>\<^verbatim>\<open>stats[result].tasks++\<close> and its two siblings.\<close>

fun bump :: "decision \<Rightarrow> entity_kind \<Rightarrow> stats \<Rightarrow> stats" where
  "bump Created k s = s\<lparr>created := bumpCount k (created s)\<rparr>"
| "bump Updated k s = s\<lparr>updated := bumpCount k (updated s)\<rparr>"
| "bump Skipped k s = s\<lparr>skipped := bumpCount k (skipped s)\<rparr>"

text \<open>
  The three loops of \<^verbatim>\<open>reconcileStates\<close>. The state of a loop is the engine, the
  counters and the lookup maps of names built so far.
\<close>

type_synonym 'n loop_state = "'n system \<times> stats \<times> (string, string) jsmap \<times> (string, string) jsmap"

definition projectStep :: "'n env \<Rightarrow> TodoistProject \<Rightarrow> 'n loop_state \<Rightarrow> 'n loop_state" where
  "projectStep env project ls =
     (case ls of (sys, st, projectMap, sectionMap) \<Rightarrow>
        (let (result, sys') = reconcileProject env project sys
         in (sys', bump result KProject st,
             map_set (p_id project) (p_name project) projectMap, sectionMap)))"

definition sectionStep :: "'n env \<Rightarrow> TodoistSection \<Rightarrow> 'n loop_state \<Rightarrow> 'n loop_state" where
  "sectionStep env section ls =
     (case ls of (sys, st, projectMap, sectionMap) \<Rightarrow>
        (let projectName = map_get projectMap (s_project_id section)
         in if truthyStr projectName
            then (let (result, sys') = reconcileSection env section
                                         (case projectName of Some p \<Rightarrow> p | None \<Rightarrow> []) sys
                  in (sys', bump result KSection st, projectMap,
                      map_set (s_id section) (s_name section) sectionMap))
            else ls))"

definition taskStep :: "'n env \<Rightarrow> 'n TodoistTask \<Rightarrow> 'n loop_state \<Rightarrow> 'n loop_state" where
  "taskStep env task ls =
     (case ls of (sys, st, projectMap, sectionMap) \<Rightarrow>
        (let projectName = map_get projectMap (t_project_id task);
             sectionName = (if truthyStr (t_section_id task)
                            then (case t_section_id task of
                                    Some s \<Rightarrow> map_get sectionMap s
                                  | None \<Rightarrow> None)
                            else None);
             (result, sys') = reconcileTask env task projectName sectionName sys
         in (sys', bump result KTask st, projectMap, sectionMap)))"

text \<open>
  \<^verbatim>\<open>reconcileStates()\<close>: the lists of projects, sections and tasks are read from the remote
  state when their loop starts, and the remote state does not change during the pass.
\<close>

definition reconcileStates :: "'n env \<Rightarrow> 'n system \<Rightarrow> stats \<times> 'n system" where
  "reconcileStates env sys =
     (let ls0 = (sys, zeroStats, [], []);
          ls1 = fold (projectStep env) (getAllProjects (todoistState sys)) ls0;
          ls2 = fold (sectionStep env) (getAllSections (todoistState (fst ls1))) ls1;
          ls3 = fold (taskStep env) (getAllTasks (todoistState (fst ls2))) ls2
      in (fst (snd ls3), fst ls3))"

section \<open>SyncEngine: from the local documents to the remote service\<close>

text \<open>The helpers of \<^verbatim>\<open>FrontmatterParser\<close> that read the body of a document.\<close>

fun containsStr :: "string \<Rightarrow> string \<Rightarrow> bool" where
  "containsStr pat [] = (pat = [])"
| "containsStr pat (c # cs) = (startsWithStr pat (c # cs) \<or> containsStr pat cs)"

text \<open>
  \<^verbatim>\<open>extractCheckboxStatus(body)\<close>: some match of \<^verbatim>\<open>/\[([x\s])\]/g\<close> contains an
  \<^verbatim>\<open>x\<close>, that is, the body contains \<^verbatim>\<open>[x]\<close>.
\<close>

definition extractCheckboxStatus :: "string \<Rightarrow> bool" where
  "extractCheckboxStatus body = containsStr ''[x]'' body"

text \<open>
  \<^verbatim>\<open>extractTitleFromContent(body)\<close>: the first line that starts with \<^verbatim>\<open>#\<close> once
  trimmed, without its heading marks.
\<close>

definition extractTitleFromContent :: "string \<Rightarrow> string option" where
  "extractTitleFromContent body =
     (case find (\<lambda>line. startsWith (CHR ''#'') (trim line)) (splitOn NL body) of
        None \<Rightarrow> None
      | Some line \<Rightarrow>
          Some (trim (dropWhile isWhiteSpace (dropWhile (\<lambda>c. c = CHR ''#'') (trim line)))))"

record 'n changes =
  ch_frontmatter :: "'n frontmatter option"
  ch_completed :: "'n fmvalue"
  ch_title :: "'n fmvalue"

definition titleOf :: "'n js \<Rightarrow> 'n frontmatter \<Rightarrow> string \<Rightarrow> 'n fmvalue" where
  "titleOf js fm body =
     orElse (js_numFalsy js) (fmGet fm ''title'')
       (case extractTitleFromContent body of None \<Rightarrow> FNull | Some s \<Rightarrow> FStr s)"

definition noChanges :: "'n changes" where
  "noChanges = \<lparr>ch_frontmatter = None, ch_completed = FBool False, ch_title = FNull\<rparr>"

text \<open>\<^verbatim>\<open>extractTaskChanges(content)\<close>\<close>

definition extractTaskChanges :: "'n js \<Rightarrow> string \<Rightarrow> 'n changes" where
  "extractTaskChanges js content =
     (case parseFrontmatter (js_Number js) content of
        None \<Rightarrow> noChanges
      | Some (fm, body) \<Rightarrow>
          if \<not> fmTruthy (js_numFalsy js) (fmGet fm ''todoist_id'')
             \<or> fmGet fm ''todoist_type'' = FStr ''project''
             \<or> fmGet fm ''todoist_type'' = FStr ''section''
          then noChanges
          else \<lparr>ch_frontmatter = Some fm, ch_completed = FBool (extractCheckboxStatus body),
                ch_title = titleOf js fm body\<rparr>)"

text \<open>\<^verbatim>\<open>extractProjectChanges(content)\<close>: the frontmatter and the title.\<close>

definition extractProjectChanges :: "'n js \<Rightarrow> string \<Rightarrow> 'n frontmatter option \<times> 'n fmvalue" where
  "extractProjectChanges js content =
     (case parseFrontmatter (js_Number js) content of
        None \<Rightarrow> (None, FNull)
      | Some (fm, body) \<Rightarrow>
          if fmGet fm ''todoist_type'' \<noteq> FStr ''project'' then (None, FNull)
          else (Some fm, titleOf js fm body))"

text \<open>\<^verbatim>\<open>isInSyncScope(content, scopeTag)\<close>\<close>

definition isInSyncScope :: "'n js \<Rightarrow> string \<Rightarrow> bool" where
  "isInSyncScope js content =
     (case parseFrontmatter (js_Number js) content of
        None \<Rightarrow> False
      | Some (fm, body) \<Rightarrow> map_of fm ''todoist_id'' \<noteq> None)"

text \<open>
  \<^verbatim>\<open>SyncEngine.serializeFrontmatter\<close>, the serializer of the engine itself: a string is
  quoted only when it contains a colon.
\<close>

fun engineSerializeEntry :: "('n \<Rightarrow> string) \<Rightarrow> string \<times> 'n fmvalue \<Rightarrow> string" where
  "engineSerializeEntry numToString (key, FNull) = []"
| "engineSerializeEntry numToString (key, FArr items) =
     key @ '':'' @ [NL] @ concat (map (\<lambda>item. ''  - '' @ item @ [NL]) items)"
| "engineSerializeEntry numToString (key, FStr v) =
     (if CHR '':'' \<in> set v then key @ '': '' @ [DQ] @ v @ [DQ] @ [NL]
      else key @ '': '' @ v @ [NL])"
| "engineSerializeEntry numToString (key, FNum n) = key @ '': '' @ numToString n @ [NL]"
| "engineSerializeEntry numToString (key, FBool b) =
     key @ '': '' @ (if b then ''true'' else ''false'') @ [NL]"

definition engineSerializeFrontmatter :: "('n \<Rightarrow> string) \<Rightarrow> 'n frontmatter \<Rightarrow> string" where
  "engineSerializeFrontmatter numToString fm =
     ''---'' @ [NL] @ concat (map (engineSerializeEntry numToString) fm) @ ''---''"

text \<open>
  \<^verbatim>\<open>updateFileSyncTimestamp(file)\<close>. \<open>None\<close> is the \<^verbatim>\<open>null\<close> that
  \<^verbatim>\<open>syncTaskToTodoist\<close> passes: reading it throws, and the function catches what it
  throws.
\<close>

definition updateFileSyncTimestamp :: "'n env \<Rightarrow> string option \<Rightarrow> 'n vault \<Rightarrow> 'n vault" where
  "updateFileSyncTimestamp env file v =
     (case file of
        None \<Rightarrow> v
      | Some path \<Rightarrow>
          (case map_get (v_files v) path of
             None \<Rightarrow> v
           | Some f \<Rightarrow>
               (case parseFrontmatter (js_Number (env_js env)) (vf_content f) of
                  None \<Rightarrow> v
                | Some (fm, body) \<Rightarrow>
                    (let fm1 = map_set ''last_sync''
                                 (FStr (js_toISOString (env_js env) (env_now env))) fm;
                         fm2 = map_set ''sync_status'' (FStr ''synced'') fm1;
                         newFrontmatter = engineSerializeFrontmatter (js_numToString (env_js env)) fm2;
                         newContent = newFrontmatter @ [NL] @ body
                     in vault_modify env path newContent v))))"

text \<open>\<^verbatim>\<open>todoistState.getTask(id)\<close> for an id of any type: only a string is a key.\<close>

definition lookupTask :: "'n todoist_state \<Rightarrow> 'n fmvalue \<Rightarrow> 'n TodoistTask option" where
  "lookupTask ts i = (case i of FStr s \<Rightarrow> getTask ts s | _ \<Rightarrow> None)"

definition lookupProject :: "'n todoist_state \<Rightarrow> 'n fmvalue \<Rightarrow> TodoistProject option" where
  "lookupProject ts i = (case i of FStr s \<Rightarrow> getProject ts s | _ \<Rightarrow> None)"

text \<open>
  \<^verbatim>\<open>syncTaskChangesToTodoist(todoistId, changes, file)\<close>. Under dry-run no call is made and
  no document is touched. \<^verbatim>\<open>closeTask\<close> and \<^verbatim>\<open>reopenTask\<close> do not throw; when
  \<^verbatim>\<open>updateTask\<close> throws, the function ends in its catch block.
\<close>

definition syncTaskChangesToTodoist ::
  "'n env \<Rightarrow> 'n fmvalue \<Rightarrow> 'n changes \<Rightarrow> string option \<Rightarrow> 'n system \<Rightarrow> 'n system" where
  "syncTaskChangesToTodoist env todoistId changes file sys =
     (case lookupTask (todoistState sys) todoistId of
        None \<Rightarrow> sys
      | Some existingTask \<Rightarrow>
          (let dry = dryRunMode (settings sys);
               isZero = js_numFalsy (env_js env);
               completionChanged = (ch_completed changes \<noteq> FNull
                                    \<and> ch_completed changes \<noteq> FBool (t_checked existingTask));
               sys1 = (if completionChanged \<and> \<not> dry
                       then sys\<lparr>remoteLog := remoteLog sys
                                 @ [if fmTruthy isZero (ch_completed changes) then CloseTask todoistId
                                    else ReopenTask todoistId]\<rparr>
                       else sys);
               updates = optEntry (fmTruthy isZero (ch_title changes)
                                   \<and> ch_title changes \<noteq> FStr (t_content existingTask))
                           ''content'' (ch_title changes)
                         @ (case ch_frontmatter changes of
                              None \<Rightarrow> []
                            | Some fm \<Rightarrow>
                                optEntry (fmGet fm ''priority'' \<noteq> FNull
                                          \<and> fmGet fm ''priority'' \<noteq> FNum (t_priority existingTask))
                                  ''priority'' (fmGet fm ''priority''))
           in if dry then sys1
              else if updates \<noteq> []
              then (let sys2 = sys1\<lparr>remoteLog := remoteLog sys1 @ [UpdateTask todoistId updates]\<rparr>
                    in (case api_updateTask_fails (env_api env) todoistId of
                          Some err \<Rightarrow> sys2
                        | None \<Rightarrow> sys2\<lparr>vault := updateFileSyncTimestamp env file (vault sys2)\<rparr>))
              else if completionChanged
              then sys1\<lparr>vault := updateFileSyncTimestamp env file (vault sys1)\<rparr>
              else sys1))"

text \<open>
  \<^verbatim>\<open>syncProjectChangesToTodoist(todoistId, changes)\<close>, which sends the new name through
  \<^verbatim>\<open>updateTask\<close>.
\<close>

definition syncProjectChangesToTodoist :: "'n env \<Rightarrow> 'n fmvalue \<Rightarrow> 'n fmvalue \<Rightarrow> 'n system \<Rightarrow> 'n system" where
  "syncProjectChangesToTodoist env todoistId title sys =
     (case lookupProject (todoistState sys) todoistId of
        None \<Rightarrow> sys
      | Some existingProject \<Rightarrow>
          (let updates = optEntry (fmTruthy (js_numFalsy (env_js env)) title
                                   \<and> title \<noteq> FStr (p_name existingProject)) ''name'' title
           in if updates \<noteq> [] \<and> \<not> dryRunMode (settings sys)
              then sys\<lparr>remoteLog := remoteLog sys @ [UpdateTask todoistId updates]\<rparr>
              else sys))"

text \<open>\<^verbatim>\<open>processFileChange(filePath)\<close>\<close>

definition processFileChange :: "'n env \<Rightarrow> string \<Rightarrow> 'n system \<Rightarrow> 'n system" where
  "processFileChange env filePath sys =
     (case map_get (v_files (vault sys)) filePath of
        None \<Rightarrow> sys
      | Some f \<Rightarrow>
          (let js = env_js env; content = vf_content f
           in if \<not> isInSyncScope js content then sys
              else (let taskChanges = extractTaskChanges js content;
                        taskId = (case ch_frontmatter taskChanges of
                                    None \<Rightarrow> FNull | Some fm \<Rightarrow> fmGet fm ''todoist_id'')
                    in if fmTruthy (js_numFalsy js) taskId
                       then syncTaskChangesToTodoist env taskId taskChanges (Some filePath) sys
                       else (let (pfm, title) = extractProjectChanges js content;
                                 projectId = (case pfm of None \<Rightarrow> FNull
                                              | Some fm \<Rightarrow> fmGet fm ''todoist_id'')
                             in if fmTruthy (js_numFalsy js) projectId
                                then syncProjectChangesToTodoist env projectId title sys
                                else sys))))"

text \<open>\<^verbatim>\<open>processPendingChanges()\<close>\<close>

definition processPendingChanges :: "'n env \<Rightarrow> 'n system \<Rightarrow> 'n system" where
  "processPendingChanges env sys =
     (if pendingChanges sys = [] then sys
      else (fold (processFileChange env) (map fst (pendingChanges sys)) sys)\<lparr>pendingChanges := []\<rparr>)"

text \<open>\<^verbatim>\<open>syncTaskToTodoist(taskNote)\<close> and \<^verbatim>\<open>syncProjectToTodoist(projectNote)\<close>\<close>

definition syncTaskToTodoist :: "'n env \<Rightarrow> 'n ObsidianTaskNote \<Rightarrow> 'n system \<Rightarrow> 'n system" where
  "syncTaskToTodoist env taskNote sys =
     syncTaskChangesToTodoist env (tn_todoistId taskNote)
       \<lparr>ch_frontmatter = Some (tn_frontmatter taskNote),
        ch_completed = fmGet (tn_frontmatter taskNote) ''completed'',
        ch_title = fmGet (tn_frontmatter taskNote) ''title''\<rparr>
       None sys"

definition syncProjectToTodoist :: "'n env \<Rightarrow> 'n ObsidianProjectNote \<Rightarrow> 'n system \<Rightarrow> 'n system" where
  "syncProjectToTodoist env projectNote sys =
     syncProjectChangesToTodoist env (pn_todoistId projectNote)
       (fmGet (pn_frontmatter projectNote) ''title'') sys"

text \<open>
  \<^verbatim>\<open>syncToTodoist()\<close>: the pending changes first, then every note modified after the
  last run.
\<close>

definition syncToTodoist :: "'n env \<Rightarrow> 'n system \<Rightarrow> 'n system" where
  "syncToTodoist env sys =
     (let sys1 = processPendingChanges env sys;
          ts = modifiedTasks (obsidianState sys1) (lastSyncTime sys1);
          ps = modifiedProjects (obsidianState sys1) (lastSyncTime sys1);
          ss = modifiedSections (obsidianState sys1) (lastSyncTime sys1)
      in if ts = [] \<and> ps = [] \<and> ss = [] \<and> pendingChanges sys1 = [] then sys1
         else fold (syncProjectToTodoist env) ps (fold (syncTaskToTodoist env) ts sys1))"

section \<open>SyncEngine: fetching and the entry points\<close>

text \<open>
  \<^verbatim>\<open>syncFromTodoist()\<close>: an incremental fetch when the state holds a token and needs no
  full sync; when that fetch throws, or otherwise, the four lists are fetched and replayed as
  a full payload.
\<close>

definition restSyncResponse ::
  "string \<Rightarrow> TodoistProject list \<Rightarrow> 'n TodoistTask list \<Rightarrow> TodoistSection list \<Rightarrow> TodoistLabel list
     \<Rightarrow> 'n TodoistSyncResponse" where
  "restSyncResponse token ps ts ss ls =
     \<lparr>sync_token = token, full_sync = True, r_projects = Some ps, r_items = Some ts,
      r_sections = Some ss, r_labels = Some ls\<rparr>"

definition fetchAll :: "'n env \<Rightarrow> 'n system \<Rightarrow> exn + 'n system" where
  "fetchAll env sys =
     (case api_getSections (env_api env) of
        Inl err \<Rightarrow> Inl err
      | Inr ss \<Rightarrow>
          (case api_getLabels (env_api env) of
             Inl err \<Rightarrow> Inl err
           | Inr ls \<Rightarrow>
               Inr (sys\<lparr>todoistState :=
                      updateFromSync (env_now env)
                        (restSyncResponse (''rest_'' @ js_timeToString (env_js env) (env_now env))
                           (api_getProjects (env_api env)) (api_getTasks (env_api env)) ss ls)
                        (todoistState sys)\<rparr>)))"

definition syncFromTodoist :: "'n env \<Rightarrow> 'n system \<Rightarrow> exn + 'n system" where
  "syncFromTodoist env sys =
     (let token = syncToken (syncState (todoistState sys));
          full = needsFullSync (env_now env) (todoistState sys)
      in if \<not> full \<and> token \<noteq> ''*''
         then (case api_sync (env_api env) token of
                 Inr syncResponse \<Rightarrow>
                   Inr (sys\<lparr>todoistState := updateFromSync (env_now env) syncResponse (todoistState sys)\<rparr>)
               | Inl err \<Rightarrow> fetchAll env sys)
         else fetchAll env sys)"

text \<open>\<^verbatim>\<open>scanObsidianChanges()\<close>\<close>

definition scanObsidianChanges :: "'n env \<Rightarrow> 'n system \<Rightarrow> 'n system" where
  "scanObsidianChanges env sys =
     sys\<lparr>obsidianState := scanVault (env_js env) (syncFolderPath (settings sys)) (vault sys)\<rparr>"

record outcome =
  success :: bool
  message :: string

definition alreadyRunning :: outcome where
  "alreadyRunning = \<lparr>success = False, message = ''Sync already in progress''\<rparr>"

definition noToken :: outcome where
  "noToken = \<lparr>success = False, message = ''Todoist API token not configured''\<rparr>"

text \<open>
  The end of an entry point: the \<^verbatim>\<open>catch\<close> block turns an exception into a failure with
  the given prefix, and the \<^verbatim>\<open>finally\<close> block clears the running flag. The state keeps
  what the steps before the exception did.
\<close>

definition finish :: "string \<Rightarrow> string \<Rightarrow> exn + 'n system \<Rightarrow> 'n system \<Rightarrow> outcome \<times> 'n system" where
  "finish prefix done r sysAtThrow =
     (case r of
        Inr sys \<Rightarrow> (\<lparr>success = True, message = done\<rparr>, sys\<lparr>isRunning := False\<rparr>)
      | Inl (Error msg) \<Rightarrow>
          (\<lparr>success = False, message = prefix @ msg\<rparr>, sysAtThrow\<lparr>isRunning := False\<rparr>))"

text \<open>\<^verbatim>\<open>performSync()\<close>\<close>

definition performSync :: "'n env \<Rightarrow> 'n system \<Rightarrow> outcome \<times> 'n system" where
  "performSync env sys =
     (if isRunning sys then (alreadyRunning, sys)
      else if todoistApiToken (settings sys) = [] then (noToken, sys)
      else (let sys0 = sys\<lparr>isRunning := True\<rparr>
            in if \<not> api_testConnection (env_api env)
               then finish ''Sync failed: '' [] (Inl (Error ''Failed to connect to Todoist API'')) sys0
               else (case syncFromTodoist env sys0 of
                       Inl err \<Rightarrow> finish ''Sync failed: '' [] (Inl err) sys0
                     | Inr sys1 \<Rightarrow>
                         (let sys2 = scanObsidianChanges env sys1;
                              sys3 = syncToTodoist env sys2;
                              sys4 = snd (reconcileStates env sys3)
                          in finish ''Sync failed: '' ''Sync completed successfully''
                               (Inr (sys4\<lparr>lastSyncTime := env_now env\<rparr>)) sys0))))"

text \<open>\<^verbatim>\<open>fetchFromTodoist()\<close>\<close>

definition fetchFromTodoist :: "'n env \<Rightarrow> 'n system \<Rightarrow> outcome \<times> 'n system" where
  "fetchFromTodoist env sys =
     (if isRunning sys then (alreadyRunning, sys)
      else if todoistApiToken (settings sys) = [] then (noToken, sys)
      else (let sys0 = sys\<lparr>isRunning := True\<rparr>
            in (case syncFromTodoist env sys0 of
                  Inl err \<Rightarrow> finish ''Fetch failed: '' [] (Inl err) sys0
                | Inr sys1 \<Rightarrow>
                    finish ''Fetch failed: '' ''Fetched from Todoist''
                      (Inr (sys1\<lparr>lastSyncTime := env_now env\<rparr>)) sys0)))"

text \<open>\<^verbatim>\<open>scan()\<close>\<close>

definition scan :: "'n env \<Rightarrow> 'n system \<Rightarrow> outcome \<times> 'n system" where
  "scan env sys =
     (if isRunning sys then (alreadyRunning, sys)
      else (let sys0 = sys\<lparr>isRunning := True\<rparr>;
                sys1 = scanObsidianChanges env sys0
            in finish ''Scan failed: '' ''Scanned Obsidian''
                 (Inr (sys1\<lparr>lastSyncTime := env_now env\<rparr>)) sys0))"

text \<open>\<^verbatim>\<open>pull()\<close>\<close>

definition pull :: "'n env \<Rightarrow> 'n system \<Rightarrow> outcome \<times> 'n system" where
  "pull env sys =
     (if isRunning sys then (alreadyRunning, sys)
      else if todoistApiToken (settings sys) = [] then (noToken, sys)
      else (let sys0 = sys\<lparr>isRunning := True\<rparr>
            in (case syncFromTodoist env sys0 of
                  Inl err \<Rightarrow> finish ''Pull failed: '' [] (Inl err) sys0
                | Inr sys1 \<Rightarrow>
                    (let sys2 = scanObsidianChanges env sys1;
                         sys3 = snd (reconcileStates env sys2)
                     in finish ''Pull failed: '' ''Pull completed''
                          (Inr (sys3\<lparr>lastSyncTime := env_now env\<rparr>)) sys0))))"

text \<open>The notifications of the host.\<close>

definition onFileModified :: "'n env \<Rightarrow> string \<Rightarrow> 'n system \<Rightarrow> 'n system" where
  "onFileModified env path sys =
     (if \<not> isWatchingFiles sys then sys
      else if \<not> startsWithStr (syncFolderPath (settings sys)) path then sys
      else sys\<lparr>pendingChanges :=
                 map_set path \<lparr>pc_filePath = path, pc_lastModified = env_now env\<rparr> (pendingChanges sys)\<rparr>)"

definition onFileDeleted :: "'n env \<Rightarrow> string \<Rightarrow> 'n system \<Rightarrow> 'n system" where
  "onFileDeleted env path sys =
     (case map_get (filePathToTodoistId (obsidianState sys)) path of
        None \<Rightarrow> sys
      | Some todoistId \<Rightarrow>
          if fmTruthy (js_numFalsy (env_js env)) todoistId
          then sys\<lparr>obsidianState := removeNote todoistId (obsidianState sys)\<rparr> else sys)"

section \<open>A sample environment\<close>

text \<open>
  A small instance of the environment with integers as numbers: the conversions are tables
  over the values that the examples use, with the values that the language gives there.
\<close>

definition sampleToISOString :: "int \<Rightarrow> string" where
  "sampleToISOString t =
     (if t = 1000 then ''1970-01-01T00:00:01.000Z''
      else if t = 2000 then ''1970-01-01T00:00:02.000Z''
      else ''1970-01-01T00:00:00.000Z'')"

definition sampleDateParse :: "string \<Rightarrow> int option" where
  "sampleDateParse s =
     (if s = ''1970-01-01T00:00:00.000Z'' then Some 0
      else if s = ''1970-01-01T00:00:00.500Z'' then Some 500
      else if s = ''1970-01-01T00:00:01.000Z'' then Some 1000
      else if s = ''1970-01-01T00:00:02.000Z'' then Some 2000
      else if s = ''1970-01-01T00:00:05.000Z'' then Some 5000
      else None)"

definition sampleNumToString :: "int \<Rightarrow> string" where
  "sampleNumToString n =
     (if n = 1 then ''1'' else if n = 2 then ''2'' else if n = 3 then ''3'' else ''4'')"

definition sampleNumber :: "string \<Rightarrow> int option" where
  "sampleNumber s =
     (if s = ''1'' then Some 1 else if s = ''2'' then Some 2 else if s = ''3'' then Some 3
      else if s = ''4'' then Some 4 else if s = ''42'' then Some 42 else None)"

definition sampleJs :: "int js" where
  "sampleJs =
     \<lparr>js_Number = sampleNumber, js_numToString = sampleNumToString, js_numFalsy = (\<lambda>n. n = 0),
      js_numToTime = Some, js_dateParse = sampleDateParse, js_toISOString = sampleToISOString,
      js_timeToString = (\<lambda>t. if t = 1000 then ''1000'' else ''2000'')\<rparr>"

definition sampleApi :: "int api" where
  "sampleApi =
     \<lparr>api_testConnection = True, api_sync = (\<lambda>token. Inl (Error ''offline'')),
      api_getProjects = [], api_getTasks = [], api_getSections = Inr [], api_getLabels = Inr [],
      api_updateTask_fails = (\<lambda>i. None)\<rparr>"

definition sampleEnv :: "int env" where
  "sampleEnv = \<lparr>env_js = sampleJs, env_api = sampleApi, env_now = 1000, env_cache = (\<lambda>c. None)\<rparr>"

definition sampleSettings :: SyncEngineSettings where
  "sampleSettings =
     \<lparr>todoistApiToken = ''token'', syncFolderPath = ''Todoist'', scopeTag = ''todoist'',
      enabledProperties = \<lparr>ep_content = True, ep_dueDate = True, ep_priority = True,
                           ep_labels = True, ep_project = True, ep_section = True\<rparr>,
      realTimeSyncEnabled = False, dryRunMode = False\<rparr>"

definition emptyVault :: "int vault" where
  "emptyVault = \<lparr>v_folders = [], v_files = [], v_log = []\<rparr>"

text \<open>An engine in the middle of a run.\<close>

definition runningEngine :: "int system" where
  "runningEngine = (newSyncEngine sampleSettings emptyVault)\<lparr>isRunning := True\<rparr>"

section \<open>Sample local documents\<close>







section \<open>The decisions of a reconcile pass, from the two states\<close>

text \<open>
  The decision that the specification gives for one entity, read off the local state: create
  when no document is known for the id, update when the remote entity is newer (a task) or
  differs in name, colour or favourite flag (a project) or in name (a section), skip
  otherwise.
\<close>

definition projectDecision :: "'n ObsidianState \<Rightarrow> TodoistProject \<Rightarrow> decision" where
  "projectDecision os p =
     (case getProjectNote os (FStr (p_id p)) of
        None \<Rightarrow> Created
      | Some n \<Rightarrow>
          if pn_name n \<noteq> FStr (p_name p)
             \<or> fmGet (pn_frontmatter n) ''color'' \<noteq> FStr (p_color p)
             \<or> fmGet (pn_frontmatter n) ''is_favorite'' \<noteq> FBool (p_is_favorite p)
          then Updated else Skipped)"

definition sectionDecision :: "'n ObsidianState \<Rightarrow> TodoistSection \<Rightarrow> decision" where
  "sectionDecision os s =
     (case getSectionNote os (FStr (s_id s)) of
        None \<Rightarrow> Created
      | Some n \<Rightarrow> if sn_name n \<noteq> FStr (s_name s) then Updated else Skipped)"

definition taskDecision :: "'n js \<Rightarrow> 'n ObsidianState \<Rightarrow> 'n TodoistTask \<Rightarrow> decision" where
  "taskDecision js os t =
     (case getTaskNote os (FStr (t_id t)) of
        None \<Rightarrow> Created
      | Some n \<Rightarrow>
          if newerThan (js_dateParse js (t_date_added t))
               (parseLastSyncTime js (fmGet (tn_frontmatter n) ''last_sync''))
          then Updated else Skipped)"

text \<open>The names of the projects that a pass has reconciled, by project id.\<close>

definition projectNames :: "TodoistProject list \<Rightarrow> (string, string) jsmap" where
  "projectNames ps = fold (\<lambda>p. map_set (p_id p) (p_name p)) ps []"

definition resolved :: "'n todoist_state \<Rightarrow> TodoistSection \<Rightarrow> bool" where
  "resolved ts s = truthyStr (map_get (projectNames (getAllProjects ts)) (s_project_id s))"

text \<open>
  The plan of a pass: the projects, then the sections whose project is resolved, then the
  tasks, each with its decision.
\<close>

definition plan :: "'n env \<Rightarrow> 'n system \<Rightarrow> (entity_kind \<times> string \<times> decision) list" where
  "plan env sys =
     map (\<lambda>p. (KProject, p_id p, projectDecision (obsidianState sys) p))
       (getAllProjects (todoistState sys))
     @ map (\<lambda>s. (KSection, s_id s, sectionDecision (obsidianState sys) s))
         (filter (resolved (todoistState sys)) (getAllSections (todoistState sys)))
     @ map (\<lambda>t. (KTask, t_id t, taskDecision (env_js env) (obsidianState sys) t))
         (getAllTasks (todoistState sys))"

definition tally :: "(entity_kind \<times> string \<times> decision) list \<Rightarrow> stats \<Rightarrow> stats" where
  "tally events st = fold (\<lambda>e. bump (snd (snd e)) (fst e)) events st"

text \<open>What a reconcile pass leaves alone.\<close>

definition sameOutside :: "'n system \<Rightarrow> 'n system \<Rightarrow> bool" where
  "sameOutside sys sys' =
     (todoistState sys' = todoistState sys \<and> settings sys' = settings sys
      \<and> isRunning sys' = isRunning sys \<and> lastSyncTime sys' = lastSyncTime sys
      \<and> pendingChanges sys' = pendingChanges sys \<and> isWatchingFiles sys' = isWatchingFiles sys
      \<and> remoteLog sys' = remoteLog sys)"

text \<open>
  A task is settled in a pass when its date of addition, if it can be read, is not later than
  the time read back from the stamp that the pass writes into a document.
\<close>

definition settled :: "'n env \<Rightarrow> 'n TodoistTask \<Rightarrow> bool" where
  "settled env t =
     (\<not> newerThan (js_dateParse (env_js env) (t_date_added t))
          (parseLastSyncTime (env_js env) (FStr (js_toISOString (env_js env) (env_now env)))))"


text \<open>The ids that the accessors of the remote state return are distinct within each kind.\<close>

definition distinctIds :: "'n todoist_state \<Rightarrow> bool" where
  "distinctIds ts =
     (distinct (map p_id (getAllProjects ts)) \<and> distinct (map s_id (getAllSections ts))
      \<and> distinct (map t_id (getAllTasks ts)))"

text \<open>
  An engine whose remote state holds project P1, section S1 and task T1, with no local
  document, on an empty vault.
\<close>

definition freshSystem :: "int system" where
  "freshSystem =
     (newSyncEngine sampleSettings emptyVault)
       \<lparr>todoistState := updateFromSync 1000 sampleSnapshot initialTodoistState\<rparr>"

text \<open>
  An engine whose remote state holds one task, of a project that the remote state does not
  hold, with no local document, on an empty vault.
\<close>

definition orphanTask :: "int TodoistTask" where
  "orphanTask = sampleTask\<lparr>t_project_id := ''P9''\<rparr>"

definition orphanSnapshot :: "int TodoistSyncResponse" where
  "orphanSnapshot =
     \<lparr>sync_token = ''tok1'', full_sync = True, r_projects = Some [],
      r_items = Some [orphanTask], r_sections = Some [], r_labels = Some []\<rparr>"

definition orphanSystem :: "int system" where
  "orphanSystem =
     (newSyncEngine sampleSettings emptyVault)
       \<lparr>todoistState := updateFromSync 1000 orphanSnapshot initialTodoistState\<rparr>"

text \<open>
  An engine whose remote state holds one task that is dated after the reading of the local
  clock, with no local document, on an empty vault.
\<close>

definition futureTask :: "int TodoistTask" where
  "futureTask = sampleTask\<lparr>t_date_added := ''1970-01-01T00:00:05.000Z''\<rparr>"

definition futureSnapshot :: "int TodoistSyncResponse" where
  "futureSnapshot =
     \<lparr>sync_token = ''tok1'', full_sync = True, r_projects = Some [sampleProject],
      r_items = Some [futureTask], r_sections = Some [], r_labels = Some []\<rparr>"

definition futureSystem :: "int system" where
  "futureSystem =
     (newSyncEngine sampleSettings emptyVault)
       \<lparr>todoistState := updateFromSync 1000 futureSnapshot initialTodoistState\<rparr>"

text \<open>
  A dry run as the command of the plugin starts it: the settings with the dry-run flag set are
  given to a new engine on an empty vault, and the remote service holds project P1, section
  S1 and task T1.
\<close>

definition dryRunSettings :: SyncEngineSettings where
  "dryRunSettings = sampleSettings\<lparr>dryRunMode := True\<rparr>"

definition remoteApi :: "int api" where
  "remoteApi = sampleApi\<lparr>api_getProjects := [sampleProject], api_getTasks := [sampleTask],
                         api_getSections := Inr [sampleSection]\<rparr>"

definition remoteEnv :: "int env" where
  "remoteEnv = sampleEnv\<lparr>env_api := remoteApi\<rparr>"

definition dryRunEngine :: "int system" where
  "dryRunEngine = updateSettings dryRunSettings (newSyncEngine sampleSettings emptyVault)"

section \<open>Property bags of scalars\<close>

text \<open>A text without white space at either end.\<close>

definition trimmed :: "string \<Rightarrow> bool" where
  "trimmed s = (s = [] \<or> (\<not> isWhiteSpace (hd s) \<and> \<not> isWhiteSpace (last s)))"

text \<open>
  A key that one line of the frontmatter block can carry: no white space at either end, no
  colon, no line feed, no leading number sign, and not the name of the prototype accessor.
\<close>

definition plainKey :: "string \<Rightarrow> bool" where
  "plainKey k =
     (trimmed k \<and> CHR '':'' \<notin> set k \<and> NL \<notin> set k \<and> \<not> startsWith (CHR ''#'') k
      \<and> k \<noteq> ''__proto__'')"

text \<open>The characters of the text of a number: digits, sign, point, exponent, \<^verbatim>\<open>Infinity\<close>.\<close>

definition numberChars :: "char list" where
  "numberChars = ''0123456789+-.eInfity''"

text \<open>
  A scalar value that reads back as itself. A string is on one line, has no double quote, is
  not the text of a boolean, is not enclosed in square brackets, and is empty or not the text
  of a number. A number has a text that reads back as the number. Every boolean does. Arrays
  and missing values do not.
\<close>

fun plainValue :: "'n js \<Rightarrow> 'n fmvalue \<Rightarrow> bool" where
  "plainValue js (FStr v) =
     (NL \<notin> set v \<and> DQ \<notin> set v \<and> v \<noteq> ''true'' \<and> v \<noteq> ''false''
      \<and> (startsWith (CHR ''['') v \<longrightarrow> \<not> endsWith (CHR '']'') v)
      \<and> (v = [] \<or> js_Number js v = None))"
| "plainValue js (FNum n) =
     (js_numToString js n \<noteq> [] \<and> set (js_numToString js n) \<subseteq> set numberChars
      \<and> js_Number js (js_numToString js n) = Some n)"
| "plainValue js (FBool b) = True"
| "plainValue js (FArr items) = False"
| "plainValue js FNull = False"

definition plainBag :: "'n js \<Rightarrow> 'n frontmatter \<Rightarrow> bool" where
  "plainBag js fm =
     (distinct (map fst fm) \<and> list_all (\<lambda>(k, v). plainKey k \<and> plainValue js v) fm)"

text \<open>The text of a scalar value in its line, and the line of a property.\<close>

fun valueText :: "'n js \<Rightarrow> 'n fmvalue \<Rightarrow> string" where
  "valueText js (FStr v) = [DQ] @ v @ [DQ]"
| "valueText js (FNum n) = js_numToString js n"
| "valueText js (FBool b) = (if b then ''true'' else ''false'')"
| "valueText js (FArr items) = []"
| "valueText js FNull = []"

definition lineOf :: "'n js \<Rightarrow> string \<times> 'n fmvalue \<Rightarrow> string" where
  "lineOf js e = fst e @ '': '' @ valueText js (snd e)"

text \<open>Sample bags: one of scalars, one with an array of strings.\<close>

definition scalarBag :: "int frontmatter" where
  "scalarBag =
     [(''title'', FStr ''Write report''), (''priority'', FNum 2), (''completed'', FBool False),
      (''description'', FStr [])]"

definition labelsBag :: "int frontmatter" where
  "labelsBag = [(''labels'', FArr [''home'', ''urgent''])]"

section \<open>Properties of the name sanitizer\<close>










section \<open>Properties of the remote state\<close>

lemma map_get_map_of: "map_get m k = map_of m k"
  unfolding map_get_def by (induction m) auto

lemma set_map_set: "set (map_set k v m) \<subseteq> insert (k, v) (set m)"
  unfolding map_set_def by (induction m) (auto split: if_splits)

lemma keys_map_set:
  "map fst (map_set k v m) = (if k \<in> set (map fst m) then map fst m else map fst m @ [k])"
  unfolding map_set_def by (induction m) (auto simp: rev_image_eqI)

lemma distinct_map_set: "distinct (map fst m) \<Longrightarrow> distinct (map fst (map_set k v m))"
  by (simp add: keys_map_set)

lemma map_of_map_set: "map_of (map_set k v m) = (map_of m)(k \<mapsto> v)"
  unfolding map_set_def by (induction m) (auto simp: fun_eq_iff)

lemma map_of_map_delete: "map_of (map_delete k m) = (map_of m)(k := None)"
  unfolding map_delete_def map_delete_by_def by (induction m) (auto simp: fun_eq_iff)

lemma keyed_upsert: "keyed idf del m \<Longrightarrow> keyed idf del (upsert idf del e m)"
  unfolding keyed_def upsert_def
  using set_map_set[of "idf e" e m]
  by (auto simp: distinct_map_set map_delete_def map_delete_by_def distinct_map_filter)

lemma keyed_replay: "keyed idf del m \<Longrightarrow> keyed idf del (replay idf del es m)"
  by (induction es arbitrary: m) (simp_all add: keyed_upsert)

lemma replay_append: "replay idf del (xs @ ys) m = replay idf del ys (replay idf del xs m)"
  by (induction xs arbitrary: m) simp_all

lemma map_of_upsert_other: "idf e \<noteq> i \<Longrightarrow> map_of (upsert idf del e m) i = map_of m i"
  by (simp add: upsert_def map_of_map_set map_of_map_delete)

lemma map_of_upsert_same: "map_of (upsert idf del e m) (idf e) = (if del e then None else Some e)"
  by (simp add: upsert_def map_of_map_set map_of_map_delete)

lemma map_of_replay_other: "i \<notin> idf ` set es \<Longrightarrow> map_of (replay idf del es m) i = map_of m i"
  by (induction es arbitrary: m) (auto simp: map_of_upsert_other)

lemma map_of_replay_last:
  "idf e \<notin> idf ` set post \<Longrightarrow>
   map_of (replay idf del (pre @ e # post) m) (idf e) = (if del e then None else Some e)"
  by (simp add: replay_append map_of_replay_other map_of_upsert_same)

lemma keyed_filter_id:
  "keyed idf del m \<Longrightarrow>
   filter (\<lambda>v. idf v = i) (map_values m) = (case map_of m i of None \<Rightarrow> [] | Some v \<Rightarrow> [v])"
proof (induction m)
  case Nil
  show ?case by (simp add: map_values_def)
next
  case (Cons a m)
  obtain k v where a: "a = (k, v)" by (cases a)
  from Cons.prems have km: "keyed idf del m" and kv: "k = idf v" and nk: "k \<notin> fst ` set m"
    by (auto simp: keyed_def a)
  have ih: "filter (\<lambda>v. idf v = i) (map_values m) = (case map_of m i of None \<Rightarrow> [] | Some v \<Rightarrow> [v])"
    using Cons.IH km by simp
  show ?case
  proof (cases "k = i")
    case True
    with nk have "map_of m i = None" by (simp add: map_of_eq_None_iff)
    with ih True kv show ?thesis by (simp add: a map_values_def)
  next
    case False
    with ih kv show ?thesis by (simp add: a map_values_def)
  qed
qed


lemma keyed_Nil: "keyed idf del []"
  by (simp add: keyed_def)

lemma keyed_replayOpt: "keyed idf del m \<Longrightarrow> keyed idf del (replayOpt idf del es m)"
  by (cases es) (simp_all add: replayOpt_def keyed_replay)

lemma tasks_updateFromSync:
  "tasks (updateFromSync now resp st) =
     replayOpt t_id t_is_deleted (r_items resp) (if full_sync resp then [] else tasks st)"
  by (simp add: updateFromSync_def Let_def)

lemma projects_updateFromSync:
  "projects (updateFromSync now resp st) =
     replayOpt p_id p_is_deleted (r_projects resp) (if full_sync resp then [] else projects st)"
  by (simp add: updateFromSync_def Let_def)

lemma sections_updateFromSync:
  "sections (updateFromSync now resp st) =
     replayOpt s_id s_is_deleted (r_sections resp) (if full_sync resp then [] else sections st)"
  by (simp add: updateFromSync_def Let_def)

lemma labels_updateFromSync:
  "labels (updateFromSync now resp st) =
     replayOpt l_id l_is_deleted (r_labels resp) (if full_sync resp then [] else labels st)"
  by (simp add: updateFromSync_def Let_def)

lemma wf_updateFromSync: "wf_todoist st \<Longrightarrow> wf_todoist (updateFromSync now resp st)"
  unfolding wf_todoist_def
  by (simp add: tasks_updateFromSync projects_updateFromSync sections_updateFromSync
      labels_updateFromSync keyed_replayOpt keyed_Nil)

lemma wf_initial: "wf_todoist initialTodoistState"
  by (simp add: wf_todoist_def initialTodoistState_def keyed_Nil)

lemma reachable_wf: "reachable st \<Longrightarrow> wf_todoist st"
  by (induction rule: reachable.induct) (simp_all add: wf_initial wf_updateFromSync)

lemma filter_after_replay:
  assumes k: "keyed idf del m0" and last: "idf e \<notin> idf ` set post"
  shows "filter (\<lambda>x. idf x = idf e) (filter keep (map_values (replay idf del (pre @ e # post) m0)))
         = (if del e \<or> \<not> keep e then [] else [e])"
proof -
  let ?m = "replay idf del (pre @ e # post) m0"
  have km: "keyed idf del ?m" using k by (rule keyed_replay)
  have look: "map_of ?m (idf e) = (if del e then None else Some e)"
    using last by (rule map_of_replay_last)
  have "filter (\<lambda>x. idf x = idf e) (filter keep (map_values ?m))
        = filter keep (filter (\<lambda>x. idf x = idf e) (map_values ?m))"
    by (simp add: conj_commute)
  also have "\<dots> = filter keep (case map_of ?m (idf e) of None \<Rightarrow> [] | Some v \<Rightarrow> [v])"
    using km by (simp add: keyed_filter_id)
  also have "\<dots> = (if del e \<or> \<not> keep e then [] else [e])"
    by (simp add: look)
  finally show ?thesis .
qed

lemma getAllTasks_after_replay:
  assumes "wf_todoist st" and "r_items resp = Some (pre @ e # post)"
    and "t_id e \<notin> t_id ` set post"
  shows "filter (\<lambda>x. t_id x = t_id e) (getAllTasks (updateFromSync now resp st))
         = (if t_is_deleted e then [] else [e])"
proof -
  have "keyed t_id t_is_deleted (if full_sync resp then [] else tasks st)"
    using assms(1) by (simp add: wf_todoist_def keyed_Nil)
  from filter_after_replay[OF this assms(3), of "\<lambda>x. \<not> t_is_deleted x" pre]
  show ?thesis by (simp add: getAllTasks_def tasks_updateFromSync assms(2) replayOpt_def)
qed

lemma getAllProjects_after_replay:
  assumes "wf_todoist st" and "r_projects resp = Some (pre @ e # post)"
    and "p_id e \<notin> p_id ` set post"
  shows "filter (\<lambda>x. p_id x = p_id e) (getAllProjects (updateFromSync now resp st))
         = (if p_is_deleted e \<or> p_is_archived e then [] else [e])"
proof -
  have "keyed p_id p_is_deleted (if full_sync resp then [] else projects st)"
    using assms(1) by (simp add: wf_todoist_def keyed_Nil)
  from filter_after_replay[OF this assms(3), of "\<lambda>x. \<not> p_is_deleted x \<and> \<not> p_is_archived x" pre]
  show ?thesis by (simp add: getAllProjects_def projects_updateFromSync assms(2) replayOpt_def)
qed

lemma getAllSections_after_replay:
  assumes "wf_todoist st" and "r_sections resp = Some (pre @ e # post)"
    and "s_id e \<notin> s_id ` set post"
  shows "filter (\<lambda>x. s_id x = s_id e) (getAllSections (updateFromSync now resp st))
         = (if s_is_deleted e then [] else [e])"
proof -
  have "keyed s_id s_is_deleted (if full_sync resp then [] else sections st)"
    using assms(1) by (simp add: wf_todoist_def keyed_Nil)
  from filter_after_replay[OF this assms(3), of "\<lambda>x. \<not> s_is_deleted x" pre]
  show ?thesis by (simp add: getAllSections_def sections_updateFromSync assms(2) replayOpt_def)
qed

lemma getAllLabels_after_replay:
  assumes "wf_todoist st" and "r_labels resp = Some (pre @ e # post)"
    and "l_id e \<notin> l_id ` set post"
  shows "filter (\<lambda>x. l_id x = l_id e) (getAllLabels (updateFromSync now resp st))
         = (if l_is_deleted e then [] else [e])"
proof -
  have "keyed l_id l_is_deleted (if full_sync resp then [] else labels st)"
    using assms(1) by (simp add: wf_todoist_def keyed_Nil)
  from filter_after_replay[OF this assms(3), of "\<lambda>x. \<not> l_is_deleted x" pre]
  show ?thesis by (simp add: getAllLabels_def labels_updateFromSync assms(2) replayOpt_def)
qed

lemma keyed_map_get:
  "keyed idf del m \<Longrightarrow> map_get m i = Some v \<Longrightarrow> idf v = i \<and> \<not> del v"
  by (auto simp: keyed_def map_get_map_of dest!: map_of_SomeD)

text \<open>
  Claim C7, as amended. In a state built from the initial one by replaying payloads, after one
  more replay, for a record of the payload that no later record of the same list repeats by
  id: when the record is marked deleted, the matching \<^verbatim>\<open>getAll\<close> accessor returns no
  entity with its id; otherwise it returns exactly one entity with that id, the record
  itself, except that \<^verbatim>\<open>getAllProjects\<close> returns nothing for an archived project. The
  \<^verbatim>\<open>getAll\<close> accessors return only entities that are not deleted (projects: and not
  archived), and the point lookups return only entities that are not deleted, stored under
  their own id.
\<close>

theorem replay_then_getAll:
  assumes "reachable st"
  shows "(\<forall>pre e post. r_items resp = Some (pre @ e # post) \<and> t_id e \<notin> t_id ` set post \<longrightarrow>
            filter (\<lambda>x. t_id x = t_id e) (getAllTasks (updateFromSync now resp st))
              = (if t_is_deleted e then [] else [e]))
       \<and> (\<forall>pre e post. r_projects resp = Some (pre @ e # post) \<and> p_id e \<notin> p_id ` set post \<longrightarrow>
            filter (\<lambda>x. p_id x = p_id e) (getAllProjects (updateFromSync now resp st))
              = (if p_is_deleted e \<or> p_is_archived e then [] else [e]))
       \<and> (\<forall>pre e post. r_sections resp = Some (pre @ e # post) \<and> s_id e \<notin> s_id ` set post \<longrightarrow>
            filter (\<lambda>x. s_id x = s_id e) (getAllSections (updateFromSync now resp st))
              = (if s_is_deleted e then [] else [e]))
       \<and> (\<forall>pre e post. r_labels resp = Some (pre @ e # post) \<and> l_id e \<notin> l_id ` set post \<longrightarrow>
            filter (\<lambda>x. l_id x = l_id e) (getAllLabels (updateFromSync now resp st))
              = (if l_is_deleted e then [] else [e]))
       \<and> (\<forall>x \<in> set (getAllTasks st). \<not> t_is_deleted x)
       \<and> (\<forall>x \<in> set (getAllProjects st). \<not> p_is_deleted x \<and> \<not> p_is_archived x)
       \<and> (\<forall>x \<in> set (getAllSections st). \<not> s_is_deleted x)
       \<and> (\<forall>x \<in> set (getAllLabels st). \<not> l_is_deleted x)
       \<and> (\<forall>i x. getTask st i = Some x \<longrightarrow> t_id x = i \<and> \<not> t_is_deleted x)
       \<and> (\<forall>i x. getProject st i = Some x \<longrightarrow> p_id x = i \<and> \<not> p_is_deleted x)"
proof -
  have wf: "wf_todoist st" using assms by (rule reachable_wf)
  have 1: "\<forall>pre e post. r_items resp = Some (pre @ e # post) \<and> t_id e \<notin> t_id ` set post \<longrightarrow>
            filter (\<lambda>x. t_id x = t_id e) (getAllTasks (updateFromSync now resp st))
              = (if t_is_deleted e then [] else [e])"
    using getAllTasks_after_replay[OF wf] by blast
  have 2: "\<forall>pre e post. r_projects resp = Some (pre @ e # post) \<and> p_id e \<notin> p_id ` set post \<longrightarrow>
            filter (\<lambda>x. p_id x = p_id e) (getAllProjects (updateFromSync now resp st))
              = (if p_is_deleted e \<or> p_is_archived e then [] else [e])"
    using getAllProjects_after_replay[OF wf] by blast
  have 3: "\<forall>pre e post. r_sections resp = Some (pre @ e # post) \<and> s_id e \<notin> s_id ` set post \<longrightarrow>
            filter (\<lambda>x. s_id x = s_id e) (getAllSections (updateFromSync now resp st))
              = (if s_is_deleted e then [] else [e])"
    using getAllSections_after_replay[OF wf] by blast
  have 4: "\<forall>pre e post. r_labels resp = Some (pre @ e # post) \<and> l_id e \<notin> l_id ` set post \<longrightarrow>
            filter (\<lambda>x. l_id x = l_id e) (getAllLabels (updateFromSync now resp st))
              = (if l_is_deleted e then [] else [e])"
    using getAllLabels_after_replay[OF wf] by blast
  have 5: "\<forall>x \<in> set (getAllTasks st). \<not> t_is_deleted x" by (simp add: getAllTasks_def)
  have 6: "\<forall>x \<in> set (getAllProjects st). \<not> p_is_deleted x \<and> \<not> p_is_archived x"
    by (simp add: getAllProjects_def)
  have 7: "\<forall>x \<in> set (getAllSections st). \<not> s_is_deleted x" by (simp add: getAllSections_def)
  have 8: "\<forall>x \<in> set (getAllLabels st). \<not> l_is_deleted x" by (simp add: getAllLabels_def)
  have 9: "\<forall>i x. getTask st i = Some x \<longrightarrow> t_id x = i \<and> \<not> t_is_deleted x"
    using wf keyed_map_get[of t_id t_is_deleted "tasks st"] by (simp add: wf_todoist_def getTask_def)
  have 10: "\<forall>i x. getProject st i = Some x \<longrightarrow> p_id x = i \<and> \<not> p_is_deleted x"
    using wf keyed_map_get[of p_id p_is_deleted "projects st"] by (simp add: wf_todoist_def getProject_def)
  from 1 2 3 4 5 6 7 8 9 10 show ?thesis by blast
qed

theorem replay_then_getAll_witness:
  "reachable (updateFromSync 1000 sampleSnapshot initialTodoistState)
   \<and> r_items sampleDelta = Some ([] @ sampleTask\<lparr>t_is_deleted := True\<rparr> # [])
   \<and> filter (\<lambda>x. t_id x = ''T1'')
        (getAllTasks (updateFromSync 2000 sampleDelta
           (updateFromSync 1000 sampleSnapshot initialTodoistState))) = []
   \<and> r_projects sampleDelta = Some ([] @ sampleProject # [])
   \<and> filter (\<lambda>x. p_id x = ''P1'')
        (getAllProjects (updateFromSync 2000 sampleDelta
           (updateFromSync 1000 sampleSnapshot initialTodoistState))) = [sampleProject]
   \<and> getAllTasks (updateFromSync 1000 sampleSnapshot initialTodoistState) = [sampleTask]
   \<and> getAllProjects (updateFromSync 1000 sampleSnapshot initialTodoistState) = [sampleProject]
   \<and> getAllSections (updateFromSync 1000 sampleSnapshot initialTodoistState) = [sampleSection]
   \<and> getTask (updateFromSync 1000 sampleSnapshot initialTodoistState) ''T1'' = Some sampleTask
   \<and> \<not> t_is_deleted sampleTask"
proof -
  let ?st = "updateFromSync 1000 sampleSnapshot initialTodoistState"
  have r: "reachable ?st" by (rule reachable_step[OF reachable_init])
  have i: "r_items sampleDelta = Some ([] @ sampleTask\<lparr>t_is_deleted := True\<rparr> # [])"
    by (simp add: sampleDelta_def)
  have p: "r_projects sampleDelta = Some ([] @ sampleProject # [])"
    by (simp add: sampleDelta_def)
  have t1: "t_id (sampleTask\<lparr>t_is_deleted := True\<rparr>) = ''T1''" by (simp add: sampleTask_def)
  have p1: "p_id sampleProject = ''P1'' \<and> \<not> p_is_deleted sampleProject \<and> \<not> p_is_archived sampleProject"
    by (simp add: sampleProject_def)
  have tasks1: "tasks ?st = [(''T1'', sampleTask)]"
    by (simp add: tasks_updateFromSync sampleSnapshot_def replayOpt_def upsert_def map_set_def
        sampleTask_def)
  have projects1: "projects ?st = [(''P1'', sampleProject)]"
    by (simp add: projects_updateFromSync sampleSnapshot_def replayOpt_def upsert_def map_set_def
        sampleProject_def)
  have sections1: "sections ?st = [(''S1'', sampleSection)]"
    by (simp add: sections_updateFromSync sampleSnapshot_def replayOpt_def upsert_def map_set_def
        sampleSection_def)
  have a: "getAllTasks ?st = [sampleTask]"
    by (simp add: getAllTasks_def tasks1 map_values_def) (simp add: sampleTask_def)
  have b: "getAllProjects ?st = [sampleProject]"
    by (simp add: getAllProjects_def projects1 map_values_def) (simp add: sampleProject_def)
  have c: "getAllSections ?st = [sampleSection]"
    by (simp add: getAllSections_def sections1 map_values_def) (simp add: sampleSection_def)
  have d: "getTask ?st ''T1'' = Some sampleTask"
    by (simp add: getTask_def tasks1 map_get_def)
  have e: "\<not> t_is_deleted sampleTask" by (simp add: sampleTask_def)
  note main = replay_then_getAll[OF r, of sampleDelta 2000]
  note forTasks = conjunct1[OF main, rule_format, of "[]" "sampleTask\<lparr>t_is_deleted := True\<rparr>" "[]"]
  note forProjects = conjunct1[OF conjunct2[OF main], rule_format, of "[]" sampleProject "[]"]
  have f: "filter (\<lambda>x. t_id x = ''T1'')
      (getAllTasks (updateFromSync 2000 sampleDelta ?st)) = []"
    using forTasks i t1 by simp
  have g: "filter (\<lambda>x. p_id x = ''P1'')
      (getAllProjects (updateFromSync 2000 sampleDelta ?st)) = [sampleProject]"
    using forProjects p p1 by simp
  from r i f p g a b c d e show ?thesis by (intro conjI)
qed

text \<open>
  The claim as stated fails for an archived project: it is in a full snapshot, it is not
  marked deleted, and \<^verbatim>\<open>getAllProjects\<close> does not return it after the replay.
\<close>

theorem archived_project_counterexample:
  "full_sync archivedSnapshot \<and> r_projects archivedSnapshot = Some [archivedProject]
   \<and> \<not> p_is_deleted archivedProject
   \<and> getAllProjects (updateFromSync 1000 archivedSnapshot initialTodoistState) = []"
  by (simp add: archivedSnapshot_def archivedProject_def getAllProjects_def
      projects_updateFromSync replayOpt_def upsert_def map_set_def map_values_def)

section \<open>Properties of the persistence\<close>

lemma map_set_by_append_new:
  "\<forall>k' \<in> set (map fst m). \<not> eq k' k \<Longrightarrow> map_set_by eq k v m = m @ [(k, v)]"
  by (induction m) auto

lemma sameValueZero_string:
  "sameValueZero k (Some (JStr a)) = (k = Some (JStr a))"
  by (cases "(k, Some (JStr a))" rule: sameValueZero.cases) auto

lemma addEntries_restores:
  assumes "stringKeyed (acc @ m)"
  shows "addEntries (map (\<lambda>(k, v). JArr [jsonOf k, jsonOf v]) m) acc = Inr (acc @ m)"
  using assms
proof (induction m arbitrary: acc)
  case Nil
  show ?case by simp
next
  case (Cons a m)
  obtain k v where a: "a = (k, v)" by (cases a)
  from Cons.prems obtain s v' where k: "k = Some (JStr s)" and v: "v = Some v'"
    by (auto simp: stringKeyed_def a split: option.splits json.splits)
  from Cons.prems have "k \<notin> set (map fst acc)"
    by (auto simp: stringKeyed_def a)
  then have fresh: "\<forall>k' \<in> set (map fst acc). \<not> sameValueZero k' k"
    by (force simp: k sameValueZero_string)
  have step: "map_set_by sameValueZero k v acc = acc @ [(k, v)]"
    using fresh by (rule map_set_by_append_new)
  have "stringKeyed ((acc @ [(k, v)]) @ m)" using Cons.prems by (simp add: a)
  from Cons.IH[OF this] show ?case by (simp add: a k v step[unfolded k v])
qed

lemma newMap_entriesJson: "stringKeyed m \<Longrightarrow> newMap (entriesJson m) = Inr m"
  using addEntries_restores[of "[]" m] by (simp add: entriesJson_def)

lemma mapField_serialize:
  assumes "stringKeyed m" and "map_of kvs name = Some (entriesJson m)"
  shows "mapField (JObj kvs) name = Inr m"
proof -
  have "truthy (entriesJson m)" by (simp add: entriesJson_def)
  then show ?thesis using assms by (simp add: mapField_def newMap_entriesJson)
qed

lemma deserialize_syntax_error: "deserialize None st = resetState st"
  by (simp add: deserialize_def deserializeTry_def)

lemma deserialize_not_object:
  assumes "\<forall>kvs. parsed \<noteq> JObj kvs"
  shows "deserialize (Some parsed) st = resetState st"
proof (cases parsed)
  case JNull
  then show ?thesis by (simp add: deserialize_def deserializeTry_def mapField_def)
next
  case (JObj kvs)
  with assms show ?thesis by simp
qed (simp_all add: deserialize_def deserializeTry_def mapField_def resetState_def)

lemma deserialize_field_error:
  assumes "name \<in> set [''tasks'', ''projects'', ''sections'', ''labels'']"
    and "mapField parsed name = Inl err"
  shows "deserialize (Some parsed) st = resetState st"
proof -
  from assms have "\<exists>e. deserializeTry (Some parsed) st = Inl e"
    by (auto simp: deserializeTry_def split: sum.splits)
  then show ?thesis by (auto simp: deserialize_def)
qed

lemma deserialize_serialize:
  assumes "stringKeyed (tasks s)" and "stringKeyed (projects s)"
    and "stringKeyed (sections s)" and "stringKeyed (labels s)" and "truthy (syncState s)"
  shows "deserialize (Some (serialize s)) st =
           st\<lparr>tasks := tasks s, projects := projects s, sections := sections s,
              labels := labels s, syncState := syncState s\<rparr>"
proof -
  let ?kvs = "[(''tasks'', entriesJson (tasks s)), (''projects'', entriesJson (projects s)),
           (''sections'', entriesJson (sections s)), (''labels'', entriesJson (labels s)),
           (''syncState'', syncState s)]"
  have t: "mapField (JObj ?kvs) ''tasks'' = Inr (tasks s)"
    using assms(1) by (rule mapField_serialize) simp
  have p: "mapField (JObj ?kvs) ''projects'' = Inr (projects s)"
    using assms(2) by (rule mapField_serialize) simp
  have c: "mapField (JObj ?kvs) ''sections'' = Inr (sections s)"
    using assms(3) by (rule mapField_serialize) simp
  have l: "mapField (JObj ?kvs) ''labels'' = Inr (labels s)"
    using assms(4) by (rule mapField_serialize) simp
  have y: "getProperty (JObj ?kvs) ''syncState'' = Inr (Some (syncState s))" by simp
  show ?thesis
    unfolding deserialize_def deserializeTry_def serialize_def
    by (simp only: t p c l y option.case sum.case assms(5) if_True)
qed

text \<open>
  Claim C10, as amended. \<^verbatim>\<open>deserialize\<close> never throws: it is a total function whose
  result is a state. It resets the state to the initial empty one when the text is not JSON,
  when the parsed value is anything but an object, and when one of the four map fields
  makes \<^verbatim>\<open>new Map\<close> throw. The reset state has four empty maps and the initial sync
  state. The value that \<^verbatim>\<open>serialize\<close> writes for a state with string-keyed maps is read
  back as that state.
\<close>

theorem deserialize_resets_or_restores:
  "deserialize None st = resetState st
   \<and> ((\<forall>kvs. parsed \<noteq> JObj kvs) \<longrightarrow> deserialize (Some parsed) st = resetState st)
   \<and> (name \<in> set [''tasks'', ''projects'', ''sections'', ''labels'']
        \<and> mapField parsed name = Inl err \<longrightarrow> deserialize (Some parsed) st = resetState st)
   \<and> tasks (resetState st) = [] \<and> projects (resetState st) = []
   \<and> sections (resetState st) = [] \<and> labels (resetState st) = []
   \<and> syncState (resetState st)
       = JObj [(''syncToken'', JStr ''*''), (''lastFullSync'', JNum 0), (''lastIncrementalSync'', JNum 0)]
   \<and> (stringKeyed (tasks s) \<and> stringKeyed (projects s) \<and> stringKeyed (sections s)
        \<and> stringKeyed (labels s) \<and> truthy (syncState s) \<longrightarrow>
        deserialize (Some (serialize s)) st =
          st\<lparr>tasks := tasks s, projects := projects s, sections := sections s,
             labels := labels s, syncState := syncState s\<rparr>)"
proof (intro conjI impI)
  show "deserialize None st = resetState st" by (rule deserialize_syntax_error)
next
  assume "\<forall>kvs. parsed \<noteq> JObj kvs"
  then show "deserialize (Some parsed) st = resetState st" by (rule deserialize_not_object)
next
  assume "name \<in> set [''tasks'', ''projects'', ''sections'', ''labels'']
      \<and> mapField parsed name = Inl err"
  then show "deserialize (Some parsed) st = resetState st"
    using deserialize_field_error by blast
next
  assume "stringKeyed (tasks s) \<and> stringKeyed (projects s) \<and> stringKeyed (sections s)
      \<and> stringKeyed (labels s) \<and> truthy (syncState s)"
  then show "deserialize (Some (serialize s)) st =
      st\<lparr>tasks := tasks s, projects := projects s, sections := sections s,
         labels := labels s, syncState := syncState s\<rparr>"
    using deserialize_serialize by blast
qed (simp_all add: resetState_def initialSyncStateJson_def)

theorem deserialize_resets_or_restores_witness:
  "deserialize None sampleRawState = resetState sampleRawState
   \<and> deserialize (Some (JNum 5)) sampleRawState = resetState sampleRawState
   \<and> mapField (JObj [(''tasks'', JNum 5)]) ''tasks'' = Inl TypeError
   \<and> deserialize (Some (JObj [(''tasks'', JNum 5)])) sampleRawState = resetState sampleRawState
   \<and> stringKeyed (tasks sampleRawState) \<and> stringKeyed (projects sampleRawState)
   \<and> truthy (syncState sampleRawState)
   \<and> deserialize (Some (serialize sampleRawState)) emptyRawState = sampleRawState"
proof -
  have k: "stringKeyed (tasks sampleRawState) \<and> stringKeyed (projects sampleRawState)
      \<and> stringKeyed (sections sampleRawState) \<and> stringKeyed (labels sampleRawState)
      \<and> truthy (syncState sampleRawState)"
    by (simp add: sampleRawState_def stringKeyed_def)
  have m: "mapField (JObj [(''tasks'', JNum 5)]) ''tasks'' = Inl TypeError"
    by (simp add: mapField_def)
  have n: "\<forall>kvs. JNum 5 \<noteq> JObj kvs" by simp
  note a = deserialize_resets_or_restores[of sampleRawState "JNum 5" "''tasks''" TypeError sampleRawState]
  note b = deserialize_resets_or_restores[of sampleRawState "JObj [(''tasks'', JNum 5)]" "''tasks''"
      TypeError sampleRawState]
  note c = deserialize_resets_or_restores[of emptyRawState "JNum 5" "''tasks''" TypeError sampleRawState]
  have 1: "deserialize None sampleRawState = resetState sampleRawState" using a by simp
  have 2: "deserialize (Some (JNum 5)) sampleRawState = resetState sampleRawState"
    using a n by simp
  have 3: "deserialize (Some (JObj [(''tasks'', JNum 5)])) sampleRawState = resetState sampleRawState"
    using b m by simp
  have 4: "deserialize (Some (serialize sampleRawState)) emptyRawState = sampleRawState"
    using c k by (simp add: emptyRawState_def sampleRawState_def)
  from 1 2 m 3 k 4 show ?thesis by simp
qed

text \<open>
  The claim as stated fails for valid JSON of another shape that makes nothing throw: a
  persisted text whose task entry is the number 5 is loaded, the state is not reset.
\<close>

theorem deserialize_wrong_shape_counterexample:
  "tasks (deserialize (Some wrongShape) emptyRawState) = [(Some (JStr ''a''), Some (JNum 5))]
   \<and> deserialize (Some wrongShape) emptyRawState \<noteq> resetState emptyRawState"
proof -
  have "deserialize (Some wrongShape) emptyRawState
        = emptyRawState\<lparr>tasks := [(Some (JStr ''a''), Some (JNum 5))]\<rparr>"
    by (simp add: deserialize_def deserializeTry_def wrongShape_def mapField_def
        emptyRawState_def)
  then show ?thesis by (simp add: resetState_def emptyRawState_def)
qed

section \<open>The single-flight guard\<close>

text \<open>
  Claim C8. A call of any of the four entry points while a run is in flight returns the
  failure outcome at once and leaves the whole system as it was: both states, the vault with
  its log, the calls made to the remote service, the decisions and the queue of pending
  changes. The result does not depend on the environment, so no step of the pipeline ran, and
  nothing was stored for a later run.
\<close>

theorem single_flight_guard:
  assumes "isRunning sys"
  shows "performSync env sys = (alreadyRunning, sys)
       \<and> fetchFromTodoist env sys = (alreadyRunning, sys)
       \<and> scan env sys = (alreadyRunning, sys)
       \<and> pull env sys = (alreadyRunning, sys)
       \<and> \<not> success alreadyRunning"
  using assms
  by (simp add: performSync_def fetchFromTodoist_def scan_def pull_def alreadyRunning_def)

theorem single_flight_guard_witness:
  "isRunning runningEngine
   \<and> performSync sampleEnv runningEngine = (alreadyRunning, runningEngine)
   \<and> fetchFromTodoist sampleEnv runningEngine = (alreadyRunning, runningEngine)
   \<and> scan sampleEnv runningEngine = (alreadyRunning, runningEngine)
   \<and> pull sampleEnv runningEngine = (alreadyRunning, runningEngine)"
proof -
  have r: "isRunning runningEngine" by (simp add: runningEngine_def)
  from single_flight_guard[OF r, of sampleEnv] r show ?thesis by simp
qed

section \<open>Properties of the materializer\<close>

lemma files_ensureFolder [simp]: "v_files (ensureFolder p v) = v_files v"
  by (simp add: ensureFolder_def vault_createFolder_def)

lemma files_ensureSyncFolder [simp]: "v_files (ensureSyncFolder st v) = v_files v"
  by (simp add: ensureSyncFolder_def vault_createFolder_def)


lemma task_note_fields:
  "createOrUpdateTaskNote env st task pn sn ex v = (note, v') \<Longrightarrow>
     tn_todoistId note = FStr (t_id task)
     \<and> tn_frontmatter note = buildTaskFrontmatter env st task pn sn
     \<and> tn_content note = buildContent env (buildTaskFrontmatter env st task pn sn)"
  by (auto simp: createOrUpdateTaskNote_def Let_def split: prod.splits if_splits)





lemma fmSame_FStr [simp]: "fmSame k (FStr s) = (k = FStr s)"
  by (cases k) simp_all

lemma map_get_by_set_same:
  assumes "\<And>k'. eq k' k = (k' = k)"
  shows "map_get_by eq (map_set_by eq k v m) k = Some v"
  using assms by (induction m) auto

lemma map_get_by_set_other:
  assumes "\<And>k'. eq k' k = (k' = k)" and "\<And>k'. eq k' j = (k' = j)" and "k \<noteq> j"
  shows "map_get_by eq (map_set_by eq k v m) j = map_get_by eq m j"
  using assms by (induction m) auto

lemma getTaskNote_setTaskNote:
  "getTaskNote (setTaskNote (FStr i) note os) (FStr j)
     = (if i = j then Some note else getTaskNote os (FStr j))"
  by (simp add: getTaskNote_def setTaskNote_def map_get_by_set_same map_get_by_set_other)

lemma getProjectNote_setProjectNote:
  "getProjectNote (setProjectNote (FStr i) note os) (FStr j)
     = (if i = j then Some note else getProjectNote os (FStr j))"
  by (simp add: getProjectNote_def setProjectNote_def map_get_by_set_same map_get_by_set_other)

lemma getSectionNote_setSectionNote:
  "getSectionNote (setSectionNote (FStr i) note os) (FStr j)
     = (if i = j then Some note else getSectionNote os (FStr j))"
  by (simp add: getSectionNote_def setSectionNote_def map_get_by_set_same map_get_by_set_other)








section \<open>Properties of the reconcile pass\<close>

lemma sameOutside_refl [simp]: "sameOutside sys sys"
  by (simp add: sameOutside_def)

lemma sameOutside_trans: "sameOutside a b \<Longrightarrow> sameOutside b c \<Longrightarrow> sameOutside a c"
  by (simp add: sameOutside_def)

lemma project_note_fields:
  "createOrUpdateProjectNote env st p v = (note, v') \<Longrightarrow>
     pn_name note = FStr (p_name p) \<and> pn_frontmatter note = buildProjectFrontmatter env p"
  by (auto simp: createOrUpdateProjectNote_def Let_def split: prod.splits)

lemma section_note_fields:
  "createOrUpdateSectionNote env st s pn v = (note, v') \<Longrightarrow>
     sn_name note = FStr (s_name s) \<and> sn_frontmatter note = buildSectionFrontmatter env s"
  by (auto simp: createOrUpdateSectionNote_def Let_def split: prod.splits)

lemma built_project_matches:
  "fmGet (buildProjectFrontmatter env p) ''color'' = FStr (p_color p)
   \<and> fmGet (buildProjectFrontmatter env p) ''is_favorite'' = FBool (p_is_favorite p)"
  by (simp add: buildProjectFrontmatter_def fmGet_def)

lemma reconcileProject_step:
  assumes "reconcileProject env p sys = (d, sys')"
  shows "d = projectDecision (obsidianState sys) p"
    and "decisions sys' = decisions sys @ [(KProject, p_id p, d)]"
    and "sameOutside sys sys'"
    and "taskNotes (obsidianState sys') = taskNotes (obsidianState sys)"
    and "sectionNotes (obsidianState sys') = sectionNotes (obsidianState sys)"
    and "j \<noteq> p_id p \<Longrightarrow> getProjectNote (obsidianState sys') (FStr j) = getProjectNote (obsidianState sys) (FStr j)"
    and "projectDecision (obsidianState sys') p = Skipped"
proof -
  let ?r = "createOrUpdateProjectNote env (settings sys) p (vault sys)"
  let ?w = "sys\<lparr>vault := snd ?r, obsidianState := setProjectNote (FStr (p_id p)) (fst ?r) (obsidianState sys)\<rparr>"
  have fields: "pn_name (fst ?r) = FStr (p_name p) \<and> pn_frontmatter (fst ?r) = buildProjectFrontmatter env p"
    using project_note_fields[of env "settings sys" p "vault sys" "fst ?r" "snd ?r"] by simp
  have written: "projectDecision (obsidianState ?w) p = Skipped"
    using fields built_project_matches[of env p]
    by (simp add: projectDecision_def getProjectNote_setProjectNote)
  consider (c) "d = Created" "sys' = decide KProject (p_id p) Created ?w"
      "projectDecision (obsidianState sys) p = Created"
    | (u) "d = Updated" "sys' = decide KProject (p_id p) Updated ?w"
      "projectDecision (obsidianState sys) p = Updated"
    | (s) "d = Skipped" "sys' = decide KProject (p_id p) Skipped sys"
      "projectDecision (obsidianState sys) p = Skipped"
    using assms
    by (auto simp: reconcileProject_def projectDecision_def Let_def
        split: option.splits prod.splits if_splits)
  note cases = this
  show "d = projectDecision (obsidianState sys) p" by (rule cases) simp_all
  show "decisions sys' = decisions sys @ [(KProject, p_id p, d)]"
    by (rule cases) (simp_all add: decide_def)
  show "sameOutside sys sys'" by (rule cases) (simp_all add: decide_def sameOutside_def)
  show "taskNotes (obsidianState sys') = taskNotes (obsidianState sys)"
    by (rule cases) (simp_all add: decide_def setProjectNote_def)
  show "sectionNotes (obsidianState sys') = sectionNotes (obsidianState sys)"
    by (rule cases) (simp_all add: decide_def setProjectNote_def)
  show "j \<noteq> p_id p \<Longrightarrow> getProjectNote (obsidianState sys') (FStr j) = getProjectNote (obsidianState sys) (FStr j)"
    by (rule cases) (simp_all add: decide_def getProjectNote_setProjectNote)
  show "projectDecision (obsidianState sys') p = Skipped"
  proof (rule cases)
    assume "sys' = decide KProject (p_id p) Created ?w"
    then show ?thesis using written by (simp add: decide_def)
  next
    assume "sys' = decide KProject (p_id p) Updated ?w"
    then show ?thesis using written by (simp add: decide_def)
  next
    assume "sys' = decide KProject (p_id p) Skipped sys"
      and "projectDecision (obsidianState sys) p = Skipped"
    then show ?thesis by (simp add: decide_def)
  qed
qed

lemma projectDecision_cong:
  "getProjectNote os' (FStr (p_id p)) = getProjectNote os (FStr (p_id p)) \<Longrightarrow>
   projectDecision os' p = projectDecision os p"
  by (simp add: projectDecision_def)

lemma tally_Cons: "tally (e # es) st = tally es (bump (snd (snd e)) (fst e) st)"
  by (simp add: tally_def)

lemma tally_append: "tally (xs @ ys) st = tally ys (tally xs st)"
  by (simp add: tally_def)

lemma projects_loop:
  assumes "distinct (map p_id ps)"
  shows "\<exists>sys'. fold (projectStep env) ps (sys, st, pm, sm)
           = (sys', tally (map (\<lambda>p. (KProject, p_id p, projectDecision (obsidianState sys) p)) ps) st,
              fold (\<lambda>p. map_set (p_id p) (p_name p)) ps pm, sm)
         \<and> decisions sys' = decisions sys
             @ map (\<lambda>p. (KProject, p_id p, projectDecision (obsidianState sys) p)) ps
         \<and> sameOutside sys sys'
         \<and> taskNotes (obsidianState sys') = taskNotes (obsidianState sys)
         \<and> sectionNotes (obsidianState sys') = sectionNotes (obsidianState sys)
         \<and> (\<forall>j. j \<notin> p_id ` set ps \<longrightarrow>
               getProjectNote (obsidianState sys') (FStr j) = getProjectNote (obsidianState sys) (FStr j))
         \<and> (\<forall>p \<in> set ps. projectDecision (obsidianState sys') p = Skipped)"
  using assms
proof (induction ps arbitrary: sys st pm)
  case Nil
  show ?case by (simp add: tally_def)
next
  case (Cons p ps)
  obtain d sys1 where r: "reconcileProject env p sys = (d, sys1)" by (cases "reconcileProject env p sys")
  note s = reconcileProject_step[OF r]
  from Cons.prems have dist: "distinct (map p_id ps)" and fresh: "p_id p \<notin> p_id ` set ps" by simp_all
  from Cons.IH[OF dist, of sys1 "bump d KProject st" "map_set (p_id p) (p_name p) pm"]
  obtain sys' where
    f: "fold (projectStep env) ps (sys1, bump d KProject st, map_set (p_id p) (p_name p) pm, sm)
        = (sys', tally (map (\<lambda>p. (KProject, p_id p, projectDecision (obsidianState sys1) p)) ps)
                   (bump d KProject st),
           fold (\<lambda>p. map_set (p_id p) (p_name p)) ps (map_set (p_id p) (p_name p) pm), sm)"
    and dec: "decisions sys' = decisions sys1
                @ map (\<lambda>p. (KProject, p_id p, projectDecision (obsidianState sys1) p)) ps"
    and out: "sameOutside sys1 sys'"
    and tn: "taskNotes (obsidianState sys') = taskNotes (obsidianState sys1)"
    and sn: "sectionNotes (obsidianState sys') = sectionNotes (obsidianState sys1)"
    and keep: "\<forall>j. j \<notin> p_id ` set ps \<longrightarrow>
               getProjectNote (obsidianState sys') (FStr j) = getProjectNote (obsidianState sys1) (FStr j)"
    and settled: "\<forall>p \<in> set ps. projectDecision (obsidianState sys') p = Skipped"
    by (elim exE conjE) (rule that, assumption+)
  have same: "map (\<lambda>q. (KProject, p_id q, projectDecision (obsidianState sys1) q)) ps
              = map (\<lambda>q. (KProject, p_id q, projectDecision (obsidianState sys) q)) ps"
  proof (rule map_cong[OF refl])
    fix q assume "q \<in> set ps"
    with fresh have "p_id q \<noteq> p_id p" by (metis imageI)
    then have "getProjectNote (obsidianState sys1) (FStr (p_id q))
               = getProjectNote (obsidianState sys) (FStr (p_id q))" by (rule s(6))
    then have "projectDecision (obsidianState sys1) q = projectDecision (obsidianState sys) q"
      by (rule projectDecision_cong)
    then show "(KProject, p_id q, projectDecision (obsidianState sys1) q)
               = (KProject, p_id q, projectDecision (obsidianState sys) q)"
      by simp
  qed
  have step: "projectStep env p (sys, st, pm, sm)
              = (sys1, bump d KProject st, map_set (p_id p) (p_name p) pm, sm)"
    by (simp add: projectStep_def r)
  have 1: "fold (projectStep env) (p # ps) (sys, st, pm, sm)
           = (sys', tally (map (\<lambda>p. (KProject, p_id p, projectDecision (obsidianState sys) p)) (p # ps)) st,
              fold (\<lambda>p. map_set (p_id p) (p_name p)) (p # ps) pm, sm)"
    using f by (simp add: step same tally_Cons s(1))
  have 2: "decisions sys' = decisions sys
             @ map (\<lambda>p. (KProject, p_id p, projectDecision (obsidianState sys) p)) (p # ps)"
    using dec by (simp add: same s(1) s(2))
  have 3: "sameOutside sys sys'" using s(3) out by (rule sameOutside_trans)
  have 4: "taskNotes (obsidianState sys') = taskNotes (obsidianState sys)" using tn s(4) by simp
  have 5: "sectionNotes (obsidianState sys') = sectionNotes (obsidianState sys)" using sn s(5) by simp
  have 6: "\<forall>j. j \<notin> p_id ` set (p # ps) \<longrightarrow>
               getProjectNote (obsidianState sys') (FStr j) = getProjectNote (obsidianState sys) (FStr j)"
    using keep s(6) by simp
  have "getProjectNote (obsidianState sys') (FStr (p_id p)) = getProjectNote (obsidianState sys1) (FStr (p_id p))"
    using keep fresh by simp
  then have "projectDecision (obsidianState sys') p = projectDecision (obsidianState sys1) p"
    by (rule projectDecision_cong)
  then have "projectDecision (obsidianState sys') p = Skipped"
    using s(7) by simp
  with settled have 7: "\<forall>q \<in> set (p # ps). projectDecision (obsidianState sys') q = Skipped" by simp
  show ?case by (rule exI[of _ sys']) (intro conjI 1 2 3 4 5 6 7)
qed

lemma sectionDecision_cong:
  "getSectionNote os' (FStr (s_id s)) = getSectionNote os (FStr (s_id s)) \<Longrightarrow>
   sectionDecision os' s = sectionDecision os s"
  by (simp add: sectionDecision_def)

lemma taskDecision_cong:
  "getTaskNote os' (FStr (t_id t)) = getTaskNote os (FStr (t_id t)) \<Longrightarrow>
   taskDecision js os' t = taskDecision js os t"
  by (simp add: taskDecision_def)

lemma projectDecision_notes:
  "projectNotes os' = projectNotes os \<Longrightarrow> projectDecision os' p = projectDecision os p"
  by (simp add: projectDecision_def getProjectNote_def)

lemma sectionDecision_notes:
  "sectionNotes os' = sectionNotes os \<Longrightarrow> sectionDecision os' s = sectionDecision os s"
  by (simp add: sectionDecision_def getSectionNote_def)

lemma taskDecision_notes:
  "taskNotes os' = taskNotes os \<Longrightarrow> taskDecision js os' t = taskDecision js os t"
  by (simp add: taskDecision_def getTaskNote_def)

lemma reconcileSection_step:
  assumes "reconcileSection env s pn sys = (d, sys')"
  shows "d = sectionDecision (obsidianState sys) s"
    and "decisions sys' = decisions sys @ [(KSection, s_id s, d)]"
    and "sameOutside sys sys'"
    and "taskNotes (obsidianState sys') = taskNotes (obsidianState sys)"
    and "projectNotes (obsidianState sys') = projectNotes (obsidianState sys)"
    and "j \<noteq> s_id s \<Longrightarrow> getSectionNote (obsidianState sys') (FStr j) = getSectionNote (obsidianState sys) (FStr j)"
    and "sectionDecision (obsidianState sys') s = Skipped"
proof -
  let ?r = "createOrUpdateSectionNote env (settings sys) s pn (vault sys)"
  let ?w = "sys\<lparr>vault := snd ?r, obsidianState := setSectionNote (FStr (s_id s)) (fst ?r) (obsidianState sys)\<rparr>"
  have fields: "sn_name (fst ?r) = FStr (s_name s)"
    using section_note_fields[of env "settings sys" s pn "vault sys" "fst ?r" "snd ?r"] by simp
  have written: "sectionDecision (obsidianState ?w) s = Skipped"
    using fields by (simp add: sectionDecision_def getSectionNote_setSectionNote)
  consider (c) "d = Created" "sys' = decide KSection (s_id s) Created ?w"
      "sectionDecision (obsidianState sys) s = Created"
    | (u) "d = Updated" "sys' = decide KSection (s_id s) Updated ?w"
      "sectionDecision (obsidianState sys) s = Updated"
    | (s) "d = Skipped" "sys' = decide KSection (s_id s) Skipped sys"
      "sectionDecision (obsidianState sys) s = Skipped"
    using assms
    by (auto simp: reconcileSection_def sectionDecision_def Let_def
        split: option.splits prod.splits if_splits)
  note cases = this
  show "d = sectionDecision (obsidianState sys) s" by (rule cases) simp_all
  show "decisions sys' = decisions sys @ [(KSection, s_id s, d)]"
    by (rule cases) (simp_all add: decide_def)
  show "sameOutside sys sys'" by (rule cases) (simp_all add: decide_def sameOutside_def)
  show "taskNotes (obsidianState sys') = taskNotes (obsidianState sys)"
    by (rule cases) (simp_all add: decide_def setSectionNote_def)
  show "projectNotes (obsidianState sys') = projectNotes (obsidianState sys)"
    by (rule cases) (simp_all add: decide_def setSectionNote_def)
  show "j \<noteq> s_id s \<Longrightarrow> getSectionNote (obsidianState sys') (FStr j) = getSectionNote (obsidianState sys) (FStr j)"
    by (rule cases) (simp_all add: decide_def getSectionNote_setSectionNote)
  show "sectionDecision (obsidianState sys') s = Skipped"
  proof (rule cases)
    assume "sys' = decide KSection (s_id s) Created ?w"
    then show ?thesis using written by (simp add: decide_def)
  next
    assume "sys' = decide KSection (s_id s) Updated ?w"
    then show ?thesis using written by (simp add: decide_def)
  next
    assume "sys' = decide KSection (s_id s) Skipped sys"
      and "sectionDecision (obsidianState sys) s = Skipped"
    then show ?thesis by (simp add: decide_def)
  qed
qed

lemma built_task_last_sync:
  "fmGet (buildTaskFrontmatter env st t pn sn) ''last_sync''
     = FStr (js_toISOString (env_js env) (env_now env))"
  by (simp add: buildTaskFrontmatter_def fmGet_def Let_def)

lemma reconcileTask_step:
  assumes "reconcileTask env t pn sn sys = (d, sys')"
  shows "d = taskDecision (env_js env) (obsidianState sys) t"
    and "decisions sys' = decisions sys @ [(KTask, t_id t, d)]"
    and "sameOutside sys sys'"
    and "projectNotes (obsidianState sys') = projectNotes (obsidianState sys)"
    and "sectionNotes (obsidianState sys') = sectionNotes (obsidianState sys)"
    and "j \<noteq> t_id t \<Longrightarrow> getTaskNote (obsidianState sys') (FStr j) = getTaskNote (obsidianState sys) (FStr j)"
    and "\<not> newerThan (js_dateParse (env_js env) (t_date_added t))
           (parseLastSyncTime (env_js env) (FStr (js_toISOString (env_js env) (env_now env))))
         \<Longrightarrow> taskDecision (env_js env) (obsidianState sys') t = Skipped"
proof -
  let ?js = "env_js env"
  let ?c = "createOrUpdateTaskNote env (settings sys) t pn sn None (vault sys)"
  let ?wc = "sys\<lparr>vault := snd ?c, obsidianState := setTaskNote (FStr (t_id t)) (fst ?c) (obsidianState sys)\<rparr>"
  have fc: "tn_frontmatter (fst ?c) = buildTaskFrontmatter env (settings sys) t pn sn"
    using task_note_fields[of env "settings sys" t pn sn None "vault sys" "fst ?c" "snd ?c"] by simp
  consider (c) "d = Created" "sys' = decide KTask (t_id t) Created ?wc"
      "taskDecision ?js (obsidianState sys) t = Created"
    | (u) n where "d = Updated" "getTaskNote (obsidianState sys) (FStr (t_id t)) = Some n"
      "sys' = decide KTask (t_id t) Updated
         (sys\<lparr>vault := snd (createOrUpdateTaskNote env (settings sys) t pn sn (Some (tn_filePath n)) (vault sys)),
              obsidianState := setTaskNote (FStr (t_id t))
                (fst (createOrUpdateTaskNote env (settings sys) t pn sn (Some (tn_filePath n)) (vault sys)))
                (obsidianState sys)\<rparr>)"
      "taskDecision ?js (obsidianState sys) t = Updated"
    | (s) "d = Skipped" "sys' = decide KTask (t_id t) Skipped sys"
      "taskDecision ?js (obsidianState sys) t = Skipped"
    using assms
    by (auto simp: reconcileTask_def taskDecision_def Let_def
        split: option.splits prod.splits if_splits)
  note cases = this
  show "d = taskDecision ?js (obsidianState sys) t" by (rule cases) simp_all
  show "decisions sys' = decisions sys @ [(KTask, t_id t, d)]"
    by (rule cases) (simp_all add: decide_def)
  show "sameOutside sys sys'" by (rule cases) (simp_all add: decide_def sameOutside_def)
  show "projectNotes (obsidianState sys') = projectNotes (obsidianState sys)"
    by (rule cases) (simp_all add: decide_def setTaskNote_def)
  show "sectionNotes (obsidianState sys') = sectionNotes (obsidianState sys)"
    by (rule cases) (simp_all add: decide_def setTaskNote_def)
  show "j \<noteq> t_id t \<Longrightarrow> getTaskNote (obsidianState sys') (FStr j) = getTaskNote (obsidianState sys) (FStr j)"
    by (rule cases) (simp_all add: decide_def getTaskNote_setTaskNote)
  assume settled: "\<not> newerThan (js_dateParse ?js (t_date_added t))
           (parseLastSyncTime ?js (FStr (js_toISOString ?js (env_now env))))"
  show "taskDecision ?js (obsidianState sys') t = Skipped"
  proof (rule cases)
    assume "sys' = decide KTask (t_id t) Created ?wc"
    then show ?thesis using settled fc
      by (simp add: decide_def taskDecision_def getTaskNote_setTaskNote built_task_last_sync)
  next
    fix n
    let ?u = "createOrUpdateTaskNote env (settings sys) t pn sn (Some (tn_filePath n)) (vault sys)"
    assume "sys' = decide KTask (t_id t) Updated
         (sys\<lparr>vault := snd ?u, obsidianState := setTaskNote (FStr (t_id t)) (fst ?u) (obsidianState sys)\<rparr>)"
    moreover have "tn_frontmatter (fst ?u) = buildTaskFrontmatter env (settings sys) t pn sn"
      using task_note_fields[of env "settings sys" t pn sn "Some (tn_filePath n)" "vault sys" "fst ?u" "snd ?u"]
      by simp
    ultimately show ?thesis using settled
      by (simp add: decide_def taskDecision_def getTaskNote_setTaskNote built_task_last_sync)
  next
    assume "sys' = decide KTask (t_id t) Skipped sys"
      and "taskDecision ?js (obsidianState sys) t = Skipped"
    then show ?thesis by (simp add: decide_def)
  qed
qed

lemma sections_loop:
  assumes "distinct (map s_id ss)"
  shows "\<exists>sys' sm'. fold (sectionStep env) ss (sys, st, pm, sm)
           = (sys', tally (map (\<lambda>s. (KSection, s_id s, sectionDecision (obsidianState sys) s))
                            (filter (\<lambda>s. truthyStr (map_get pm (s_project_id s))) ss)) st,
              pm, sm')
         \<and> sm' = fold (\<lambda>s. map_set (s_id s) (s_name s))
                    (filter (\<lambda>s. truthyStr (map_get pm (s_project_id s))) ss) sm
         \<and> decisions sys' = decisions sys
             @ map (\<lambda>s. (KSection, s_id s, sectionDecision (obsidianState sys) s))
                 (filter (\<lambda>s. truthyStr (map_get pm (s_project_id s))) ss)
         \<and> sameOutside sys sys'
         \<and> taskNotes (obsidianState sys') = taskNotes (obsidianState sys)
         \<and> projectNotes (obsidianState sys') = projectNotes (obsidianState sys)
         \<and> (\<forall>j. j \<notin> s_id ` set ss \<longrightarrow>
               getSectionNote (obsidianState sys') (FStr j) = getSectionNote (obsidianState sys) (FStr j))
         \<and> (\<forall>s \<in> set (filter (\<lambda>s. truthyStr (map_get pm (s_project_id s))) ss).
               sectionDecision (obsidianState sys') s = Skipped)"
  using assms
proof (induction ss arbitrary: sys st sm)
  case Nil
  show ?case by (simp add: tally_def)
next
  case (Cons s ss)
  let ?ok = "\<lambda>s. truthyStr (map_get pm (s_project_id s))"
  from Cons.prems have dist: "distinct (map s_id ss)" and fresh: "s_id s \<notin> s_id ` set ss" by simp_all
  show ?case
  proof (cases "?ok s")
    case False
    have step: "sectionStep env s (sys, st, pm, sm) = (sys, st, pm, sm)"
      using False by (simp add: sectionStep_def)
    from Cons.IH[OF dist, of sys st sm]
    obtain sys' sm' where
      f: "fold (sectionStep env) ss (sys, st, pm, sm)
          = (sys', tally (map (\<lambda>s. (KSection, s_id s, sectionDecision (obsidianState sys) s))
                            (filter ?ok ss)) st, pm, sm')"
      and m: "sm' = fold (\<lambda>s. map_set (s_id s) (s_name s)) (filter ?ok ss) sm"
      and dec: "decisions sys' = decisions sys
                @ map (\<lambda>s. (KSection, s_id s, sectionDecision (obsidianState sys) s)) (filter ?ok ss)"
      and out: "sameOutside sys sys'"
      and tn: "taskNotes (obsidianState sys') = taskNotes (obsidianState sys)"
      and pn: "projectNotes (obsidianState sys') = projectNotes (obsidianState sys)"
      and keep: "\<forall>j. j \<notin> s_id ` set ss \<longrightarrow>
               getSectionNote (obsidianState sys') (FStr j) = getSectionNote (obsidianState sys) (FStr j)"
      and settled: "\<forall>s \<in> set (filter ?ok ss). sectionDecision (obsidianState sys') s = Skipped"
      by (elim exE conjE) (rule that, assumption+)
    have 1: "fold (sectionStep env) (s # ss) (sys, st, pm, sm)
          = (sys', tally (map (\<lambda>s. (KSection, s_id s, sectionDecision (obsidianState sys) s))
                            (filter ?ok (s # ss))) st, pm, sm')"
      using f False by (simp add: step)
    have 2: "sm' = fold (\<lambda>s. map_set (s_id s) (s_name s)) (filter ?ok (s # ss)) sm"
      using m False by simp
    have 3: "decisions sys' = decisions sys
                @ map (\<lambda>s. (KSection, s_id s, sectionDecision (obsidianState sys) s)) (filter ?ok (s # ss))"
      using dec False by simp
    have 7: "\<forall>j. j \<notin> s_id ` set (s # ss) \<longrightarrow>
               getSectionNote (obsidianState sys') (FStr j) = getSectionNote (obsidianState sys) (FStr j)"
      using keep by simp
    have 8: "\<forall>x \<in> set (filter ?ok (s # ss)). sectionDecision (obsidianState sys') x = Skipped"
      using settled False by simp
    show ?thesis by (rule exI[of _ sys'], rule exI[of _ sm']) (intro conjI 1 2 3 out tn pn 7 8)
  next
    case True
    then obtain name where nm: "map_get pm (s_project_id s) = Some name" by (cases "map_get pm (s_project_id s)") simp_all
    obtain d sys1 where r: "reconcileSection env s name sys = (d, sys1)"
      by (cases "reconcileSection env s name sys")
    note q = reconcileSection_step[OF r]
    have step: "sectionStep env s (sys, st, pm, sm)
                = (sys1, bump d KSection st, pm, map_set (s_id s) (s_name s) sm)"
      using True by (simp add: sectionStep_def nm r)
    from Cons.IH[OF dist, of sys1 "bump d KSection st" "map_set (s_id s) (s_name s) sm"]
    obtain sys' sm' where
      f: "fold (sectionStep env) ss (sys1, bump d KSection st, pm, map_set (s_id s) (s_name s) sm)
          = (sys', tally (map (\<lambda>s. (KSection, s_id s, sectionDecision (obsidianState sys1) s))
                            (filter ?ok ss)) (bump d KSection st), pm, sm')"
      and m: "sm' = fold (\<lambda>s. map_set (s_id s) (s_name s)) (filter ?ok ss)
                      (map_set (s_id s) (s_name s) sm)"
      and dec: "decisions sys' = decisions sys1
                @ map (\<lambda>s. (KSection, s_id s, sectionDecision (obsidianState sys1) s)) (filter ?ok ss)"
      and out: "sameOutside sys1 sys'"
      and tn: "taskNotes (obsidianState sys') = taskNotes (obsidianState sys1)"
      and pn: "projectNotes (obsidianState sys') = projectNotes (obsidianState sys1)"
      and keep: "\<forall>j. j \<notin> s_id ` set ss \<longrightarrow>
               getSectionNote (obsidianState sys') (FStr j) = getSectionNote (obsidianState sys1) (FStr j)"
      and settled: "\<forall>s \<in> set (filter ?ok ss). sectionDecision (obsidianState sys') s = Skipped"
      by (elim exE conjE) (rule that, assumption+)
    have same: "map (\<lambda>x. (KSection, s_id x, sectionDecision (obsidianState sys1) x)) (filter ?ok ss)
                = map (\<lambda>x. (KSection, s_id x, sectionDecision (obsidianState sys) x)) (filter ?ok ss)"
    proof (rule map_cong[OF refl])
      fix x assume "x \<in> set (filter ?ok ss)"
      then have "x \<in> set ss" by simp
      with fresh have "s_id x \<noteq> s_id s" by (metis imageI)
      then have "getSectionNote (obsidianState sys1) (FStr (s_id x))
                 = getSectionNote (obsidianState sys) (FStr (s_id x))" by (rule q(6))
      then have "sectionDecision (obsidianState sys1) x = sectionDecision (obsidianState sys) x"
        by (rule sectionDecision_cong)
      then show "(KSection, s_id x, sectionDecision (obsidianState sys1) x)
                 = (KSection, s_id x, sectionDecision (obsidianState sys) x)" by simp
    qed
    have 1: "fold (sectionStep env) (s # ss) (sys, st, pm, sm)
          = (sys', tally (map (\<lambda>s. (KSection, s_id s, sectionDecision (obsidianState sys) s))
                            (filter ?ok (s # ss))) st, pm, sm')"
      using f True by (simp add: step same tally_Cons q(1))
    have 2: "sm' = fold (\<lambda>s. map_set (s_id s) (s_name s)) (filter ?ok (s # ss)) sm"
      using m True by simp
    have 3: "decisions sys' = decisions sys
                @ map (\<lambda>s. (KSection, s_id s, sectionDecision (obsidianState sys) s)) (filter ?ok (s # ss))"
      using dec True by (simp add: same q(1) q(2))
    have 4: "sameOutside sys sys'" using q(3) out by (rule sameOutside_trans)
    have 5: "taskNotes (obsidianState sys') = taskNotes (obsidianState sys)" using tn q(4) by simp
    have 6: "projectNotes (obsidianState sys') = projectNotes (obsidianState sys)" using pn q(5) by simp
    have 7: "\<forall>j. j \<notin> s_id ` set (s # ss) \<longrightarrow>
               getSectionNote (obsidianState sys') (FStr j) = getSectionNote (obsidianState sys) (FStr j)"
      using keep q(6) by simp
    have "getSectionNote (obsidianState sys') (FStr (s_id s)) = getSectionNote (obsidianState sys1) (FStr (s_id s))"
      using keep fresh by simp
    then have "sectionDecision (obsidianState sys') s = sectionDecision (obsidianState sys1) s"
      by (rule sectionDecision_cong)
    then have "sectionDecision (obsidianState sys') s = Skipped" using q(7) by simp
    with settled have 8: "\<forall>x \<in> set (filter ?ok (s # ss)). sectionDecision (obsidianState sys') x = Skipped"
      by simp
    show ?thesis by (rule exI[of _ sys'], rule exI[of _ sm']) (intro conjI 1 2 3 4 5 6 7 8)
  qed
qed

lemma tasks_loop:
  assumes "distinct (map t_id ts)"
  shows "\<exists>sys'. fold (taskStep env) ts (sys, st, pm, sm)
           = (sys', tally (map (\<lambda>t. (KTask, t_id t, taskDecision (env_js env) (obsidianState sys) t)) ts) st,
              pm, sm)
         \<and> decisions sys' = decisions sys
             @ map (\<lambda>t. (KTask, t_id t, taskDecision (env_js env) (obsidianState sys) t)) ts
         \<and> sameOutside sys sys'
         \<and> projectNotes (obsidianState sys') = projectNotes (obsidianState sys)
         \<and> sectionNotes (obsidianState sys') = sectionNotes (obsidianState sys)
         \<and> (\<forall>j. j \<notin> t_id ` set ts \<longrightarrow>
               getTaskNote (obsidianState sys') (FStr j) = getTaskNote (obsidianState sys) (FStr j))
         \<and> (\<forall>t \<in> set (filter (settled env) ts).
               taskDecision (env_js env) (obsidianState sys') t = Skipped)"
  using assms
proof (induction ts arbitrary: sys st)
  case Nil
  show ?case by (simp add: tally_def)
next
  case (Cons t ts)
  let ?js = "env_js env"
  let ?pn = "map_get pm (t_project_id t)"
  let ?sn = "if truthyStr (t_section_id t)
             then (case t_section_id t of Some s \<Rightarrow> map_get sm s | None \<Rightarrow> None) else None"
  from Cons.prems have dist: "distinct (map t_id ts)" and fresh: "t_id t \<notin> t_id ` set ts" by simp_all
  obtain d sys1 where r: "reconcileTask env t ?pn ?sn sys = (d, sys1)"
    by (cases "reconcileTask env t ?pn ?sn sys")
  note q = reconcileTask_step[OF r]
  have step: "taskStep env t (sys, st, pm, sm) = (sys1, bump d KTask st, pm, sm)"
    by (simp add: taskStep_def Let_def r)
  from Cons.IH[OF dist, of sys1 "bump d KTask st"]
  obtain sys' where
    f: "fold (taskStep env) ts (sys1, bump d KTask st, pm, sm)
        = (sys', tally (map (\<lambda>t. (KTask, t_id t, taskDecision ?js (obsidianState sys1) t)) ts)
                   (bump d KTask st), pm, sm)"
    and dec: "decisions sys' = decisions sys1
                @ map (\<lambda>t. (KTask, t_id t, taskDecision ?js (obsidianState sys1) t)) ts"
    and out: "sameOutside sys1 sys'"
    and pn: "projectNotes (obsidianState sys') = projectNotes (obsidianState sys1)"
    and sn: "sectionNotes (obsidianState sys') = sectionNotes (obsidianState sys1)"
    and keep: "\<forall>j. j \<notin> t_id ` set ts \<longrightarrow>
               getTaskNote (obsidianState sys') (FStr j) = getTaskNote (obsidianState sys1) (FStr j)"
    and fin: "\<forall>t \<in> set (filter (settled env) ts). taskDecision ?js (obsidianState sys') t = Skipped"
    by (elim exE conjE) (rule that, assumption+)
  have same: "map (\<lambda>x. (KTask, t_id x, taskDecision ?js (obsidianState sys1) x)) ts
              = map (\<lambda>x. (KTask, t_id x, taskDecision ?js (obsidianState sys) x)) ts"
  proof (rule map_cong[OF refl])
    fix x assume "x \<in> set ts"
    with fresh have "t_id x \<noteq> t_id t" by (metis imageI)
    then have "getTaskNote (obsidianState sys1) (FStr (t_id x))
               = getTaskNote (obsidianState sys) (FStr (t_id x))" by (rule q(6))
    then have "taskDecision ?js (obsidianState sys1) x = taskDecision ?js (obsidianState sys) x"
      by (rule taskDecision_cong)
    then show "(KTask, t_id x, taskDecision ?js (obsidianState sys1) x)
               = (KTask, t_id x, taskDecision ?js (obsidianState sys) x)" by simp
  qed
  have 1: "fold (taskStep env) (t # ts) (sys, st, pm, sm)
        = (sys', tally (map (\<lambda>t. (KTask, t_id t, taskDecision ?js (obsidianState sys) t)) (t # ts)) st,
           pm, sm)"
    using f by (simp add: step same tally_Cons q(1))
  have 2: "decisions sys' = decisions sys
             @ map (\<lambda>t. (KTask, t_id t, taskDecision ?js (obsidianState sys) t)) (t # ts)"
    using dec by (simp add: same q(1) q(2))
  have 3: "sameOutside sys sys'" using q(3) out by (rule sameOutside_trans)
  have 4: "projectNotes (obsidianState sys') = projectNotes (obsidianState sys)" using pn q(4) by simp
  have 5: "sectionNotes (obsidianState sys') = sectionNotes (obsidianState sys)" using sn q(5) by simp
  have 6: "\<forall>j. j \<notin> t_id ` set (t # ts) \<longrightarrow>
               getTaskNote (obsidianState sys') (FStr j) = getTaskNote (obsidianState sys) (FStr j)"
    using keep q(6) by simp
  have "getTaskNote (obsidianState sys') (FStr (t_id t)) = getTaskNote (obsidianState sys1) (FStr (t_id t))"
    using keep fresh by simp
  then have "taskDecision ?js (obsidianState sys') t = taskDecision ?js (obsidianState sys1) t"
    by (rule taskDecision_cong)
  then have "settled env t \<Longrightarrow> taskDecision ?js (obsidianState sys') t = Skipped"
    using q(7) by (simp add: settled_def)
  with fin have 7: "\<forall>x \<in> set (filter (settled env) (t # ts)).
      taskDecision ?js (obsidianState sys') x = Skipped"
    by simp
  show ?case by (rule exI[of _ sys']) (intro conjI 1 2 3 4 5 6 7)
qed

lemma keyed_distinct_ids:
  assumes "keyed idf del m"
  shows "distinct (map idf (filter P (map_values m)))"
proof -
  have "map idf (map_values m) = map fst m"
    using assms by (induction m) (auto simp: keyed_def map_values_def)
  then have "distinct (map idf (map_values m))" using assms by (simp add: keyed_def)
  then show ?thesis by (rule distinct_map_filter)
qed

lemma wf_distinctIds:
  assumes "wf_todoist ts"
  shows "distinctIds ts"
proof -
  from assms have p: "keyed p_id p_is_deleted (projects ts)"
    and s: "keyed s_id s_is_deleted (sections ts)"
    and t: "keyed t_id t_is_deleted (tasks ts)" by (simp_all add: wf_todoist_def)
  show ?thesis
    unfolding distinctIds_def getAllProjects_def getAllSections_def getAllTasks_def
    by (intro conjI keyed_distinct_ids[OF p] keyed_distinct_ids[OF s] keyed_distinct_ids[OF t])
qed

lemma reconcile_pass:
  assumes "distinctIds (todoistState sys)"
  shows "fst (reconcileStates env sys) = tally (plan env sys) zeroStats
       \<and> decisions (snd (reconcileStates env sys)) = decisions sys @ plan env sys
       \<and> sameOutside sys (snd (reconcileStates env sys))
       \<and> (\<forall>p \<in> set (getAllProjects (todoistState sys)).
             projectDecision (obsidianState (snd (reconcileStates env sys))) p = Skipped)
       \<and> (\<forall>s \<in> set (filter (resolved (todoistState sys)) (getAllSections (todoistState sys))).
             sectionDecision (obsidianState (snd (reconcileStates env sys))) s = Skipped)
       \<and> (\<forall>t \<in> set (filter (settled env) (getAllTasks (todoistState sys))).
             taskDecision (env_js env) (obsidianState (snd (reconcileStates env sys))) t = Skipped)"
proof -
  let ?ts = "todoistState sys"
  let ?ps = "getAllProjects ?ts"
  let ?pm = "fold (\<lambda>p. map_set (p_id p) (p_name p)) ?ps []"
  let ?ok = "\<lambda>s. truthyStr (map_get ?pm (s_project_id s))"
  let ?pe = "map (\<lambda>p. (KProject, p_id p, projectDecision (obsidianState sys) p)) ?ps"
  from assms have dp: "distinct (map p_id ?ps)" and ds: "distinct (map s_id (getAllSections ?ts))"
    and dt: "distinct (map t_id (getAllTasks ?ts))" by (simp_all add: distinctIds_def)
  from projects_loop[OF dp, of env sys zeroStats "[]" "[]"]
  obtain sys1 where
    f1: "fold (projectStep env) ?ps (sys, zeroStats, [], []) = (sys1, tally ?pe zeroStats, ?pm, [])"
    and d1: "decisions sys1 = decisions sys @ ?pe"
    and o1: "sameOutside sys sys1"
    and t1: "taskNotes (obsidianState sys1) = taskNotes (obsidianState sys)"
    and s1: "sectionNotes (obsidianState sys1) = sectionNotes (obsidianState sys)"
    and z1: "\<forall>p \<in> set ?ps. projectDecision (obsidianState sys1) p = Skipped"
    by (elim exE conjE) (rule that, assumption+)
  have ts1: "todoistState sys1 = ?ts" using o1 by (simp add: sameOutside_def)
  let ?ss = "getAllSections ?ts"
  let ?se1 = "map (\<lambda>s. (KSection, s_id s, sectionDecision (obsidianState sys1) s)) (filter ?ok ?ss)"
  let ?se = "map (\<lambda>s. (KSection, s_id s, sectionDecision (obsidianState sys) s)) (filter ?ok ?ss)"
  have se: "?se1 = ?se"
    using sectionDecision_notes[OF s1] by simp
  from sections_loop[OF ds, of env sys1 "tally ?pe zeroStats" ?pm "[]"]
  obtain sys2 sm2 where
    f2: "fold (sectionStep env) ?ss (sys1, tally ?pe zeroStats, ?pm, [])
         = (sys2, tally ?se1 (tally ?pe zeroStats), ?pm, sm2)"
    and d2: "decisions sys2 = decisions sys1 @ ?se1"
    and o2: "sameOutside sys1 sys2"
    and t2: "taskNotes (obsidianState sys2) = taskNotes (obsidianState sys1)"
    and p2: "projectNotes (obsidianState sys2) = projectNotes (obsidianState sys1)"
    and z2: "\<forall>s \<in> set (filter ?ok ?ss). sectionDecision (obsidianState sys2) s = Skipped"
    by (elim exE conjE) (rule that, assumption+)
  have ts2: "todoistState sys2 = ?ts" using o2 ts1 by (simp add: sameOutside_def)
  let ?tt = "getAllTasks ?ts"
  let ?te2 = "map (\<lambda>t. (KTask, t_id t, taskDecision (env_js env) (obsidianState sys2) t)) ?tt"
  let ?te = "map (\<lambda>t. (KTask, t_id t, taskDecision (env_js env) (obsidianState sys) t)) ?tt"
  have "taskNotes (obsidianState sys2) = taskNotes (obsidianState sys)" using t1 t2 by simp
  then have te: "?te2 = ?te" using taskDecision_notes by (metis (no_types, lifting))
  from tasks_loop[OF dt, of env sys2 "tally ?se1 (tally ?pe zeroStats)" ?pm sm2]
  obtain sys3 where
    f3: "fold (taskStep env) ?tt (sys2, tally ?se1 (tally ?pe zeroStats), ?pm, sm2)
         = (sys3, tally ?te2 (tally ?se1 (tally ?pe zeroStats)), ?pm, sm2)"
    and d3: "decisions sys3 = decisions sys2 @ ?te2"
    and o3: "sameOutside sys2 sys3"
    and p3: "projectNotes (obsidianState sys3) = projectNotes (obsidianState sys2)"
    and s3: "sectionNotes (obsidianState sys3) = sectionNotes (obsidianState sys2)"
    and z3: "\<forall>t \<in> set (filter (settled env) ?tt). taskDecision (env_js env) (obsidianState sys3) t = Skipped"
    by (elim exE conjE) (rule that, assumption+)
  have run: "reconcileStates env sys = (tally ?te2 (tally ?se1 (tally ?pe zeroStats)), sys3)"
    by (simp add: reconcileStates_def Let_def f1 ts1 f2 ts2 f3)
  have rs: "resolved ?ts = ?ok" by (rule ext) (simp add: resolved_def projectNames_def)
  have pl: "plan env sys = ?pe @ ?se @ ?te"
    by (simp add: plan_def rs)
  have 1: "fst (reconcileStates env sys) = tally (plan env sys) zeroStats"
    by (simp add: run pl se te tally_append)
  have 2: "decisions (snd (reconcileStates env sys)) = decisions sys @ plan env sys"
    by (simp add: run pl d3 d2 d1 se te)
  have 3: "sameOutside sys (snd (reconcileStates env sys))"
    using sameOutside_trans[OF sameOutside_trans[OF o1 o2] o3] by (simp add: run)
  have "projectNotes (obsidianState sys3) = projectNotes (obsidianState sys1)" using p2 p3 by simp
  then have 4: "\<forall>p \<in> set ?ps. projectDecision (obsidianState (snd (reconcileStates env sys))) p = Skipped"
    using z1 projectDecision_notes by (metis (no_types, lifting) run snd_conv)
  have 5: "\<forall>s \<in> set (filter (resolved ?ts) ?ss).
             sectionDecision (obsidianState (snd (reconcileStates env sys))) s = Skipped"
    using z2 sectionDecision_notes[OF s3] by (simp add: run rs)
  have 6: "\<forall>t \<in> set (filter (settled env) ?tt).
             taskDecision (env_js env) (obsidianState (snd (reconcileStates env sys))) t = Skipped"
    using z3 by (simp add: run)
  from 1 2 3 4 5 6 show ?thesis by (intro conjI)
qed

section \<open>The order of a reconcile pass\<close>

lemma filter_same_id:
  assumes "distinct (map f xs)" and "x \<in> set xs"
  shows "filter (\<lambda>y. f y = f x) xs = [x]"
  using assms
proof (induction xs)
  case Nil
  then show ?case by simp
next
  case (Cons a xs)
  show ?case
  proof (cases "a = x")
    case True
    from Cons.prems have "f x \<notin> f ` set xs" using True by simp
    then have "filter (\<lambda>y. f y = f x) xs = []"
      unfolding filter_empty_conv by (metis imageI)
    with True show ?thesis by simp
  next
    case False
    with Cons.prems have in_xs: "x \<in> set xs" by simp
    from Cons.prems have "f a \<notin> f ` set xs" by simp
    with in_xs have "f a \<noteq> f x" by (metis imageI)
    moreover have "filter (\<lambda>y. f y = f x) xs = [x]"
      using Cons.IH Cons.prems in_xs by simp
    ultimately show ?thesis by simp
  qed
qed


lemma plan_task_events:
  assumes "distinct (map t_id (getAllTasks (todoistState sys)))"
    and "T \<in> set (getAllTasks (todoistState sys))"
  shows "filter (\<lambda>e. fst e = KTask \<and> fst (snd e) = t_id T) (plan env sys)
         = [(KTask, t_id T, taskDecision (env_js env) (obsidianState sys) T)]"
proof -
  have "filter (\<lambda>e. fst e = KTask \<and> fst (snd e) = t_id T) (plan env sys)
        = map (\<lambda>t. (KTask, t_id t, taskDecision (env_js env) (obsidianState sys) t))
            (filter (\<lambda>t. t_id t = t_id T) (getAllTasks (todoistState sys)))"
    by (simp add: plan_def filter_map o_def)
  also have "\<dots> = [(KTask, t_id T, taskDecision (env_js env) (obsidianState sys) T)]"
    using filter_same_id[OF assms] by simp
  finally show ?thesis .
qed




section \<open>Tasks whose project is not resolved\<close>

lemma task_note_new_path:
  "tn_filePath (fst (createOrUpdateTaskNote env st task pn sn None v))
     = getTaskFolderPath st pn sn @ ''/''
         @ sanitizeFileName (if t_content task \<noteq> [] then t_content task else ''Task '' @ t_id task)
         @ ''.md''"
  by (simp add: createOrUpdateTaskNote_def Let_def split: prod.splits)

lemma folder_without_project: "\<not> truthyStr pn \<Longrightarrow> getTaskFolderPath st pn sn = syncFolderPath st"
  by (cases pn) (simp_all add: getTaskFolderPath_def)

lemma reconcileTask_new:
  assumes "getTaskNote (obsidianState sys) (FStr (t_id task)) = None"
  shows "fst (reconcileTask env task pn sn sys) = Created
       \<and> (\<exists>note. getTaskNote (obsidianState (snd (reconcileTask env task pn sn sys))) (FStr (t_id task))
                    = Some note
                  \<and> tn_filePath note
                      = getTaskFolderPath (settings sys) pn sn @ ''/''
                          @ sanitizeFileName (if t_content task \<noteq> [] then t_content task
                                              else ''Task '' @ t_id task)
                          @ ''.md'')"
  using assms task_note_new_path[of env "settings sys" task pn sn "vault sys"]
  by (simp add: reconcileTask_def Let_def decide_def getTaskNote_setTaskNote case_prod_beta)

text \<open>
  Claim C2, as amended. A pass makes one decision for every task of the remote state,
  whether the project of the task is resolved or not; only a section whose project is not
  resolved is left out. A task without a resolved project name and without a document is
  created, and its document is placed directly in the sync folder.
\<close>

theorem unresolved_project_task_reconciled:
  assumes "distinctIds (todoistState sys)"
  shows "decisions (snd (reconcileStates env sys)) = decisions sys @ plan env sys
       \<and> (T \<in> set (getAllTasks (todoistState sys)) \<longrightarrow>
            filter (\<lambda>e. fst e = KTask \<and> fst (snd e) = t_id T) (plan env sys)
              = [(KTask, t_id T, taskDecision (env_js env) (obsidianState sys) T)])
       \<and> filter (\<lambda>e. fst e = KSection) (plan env sys)
           = map (\<lambda>s. (KSection, s_id s, sectionDecision (obsidianState sys) s))
               (filter (resolved (todoistState sys)) (getAllSections (todoistState sys)))
       \<and> (\<not> truthyStr pn \<and> getTaskNote (obsidianState sys) (FStr (t_id T)) = None \<longrightarrow>
            fst (reconcileTask env T pn sn sys) = Created
            \<and> (\<exists>note. getTaskNote (obsidianState (snd (reconcileTask env T pn sn sys))) (FStr (t_id T))
                         = Some note
                       \<and> tn_filePath note
                           = syncFolderPath (settings sys) @ ''/''
                               @ sanitizeFileName (if t_content T \<noteq> [] then t_content T
                                                   else ''Task '' @ t_id T)
                               @ ''.md''))"
proof (intro conjI impI)
  show "decisions (snd (reconcileStates env sys)) = decisions sys @ plan env sys"
    using reconcile_pass[OF assms, of env] by simp
next
  assume "T \<in> set (getAllTasks (todoistState sys))"
  moreover from assms have "distinct (map t_id (getAllTasks (todoistState sys)))"
    by (simp add: distinctIds_def)
  ultimately show "filter (\<lambda>e. fst e = KTask \<and> fst (snd e) = t_id T) (plan env sys)
      = [(KTask, t_id T, taskDecision (env_js env) (obsidianState sys) T)]"
    using plan_task_events by blast
next
  show "filter (\<lambda>e. fst e = KSection) (plan env sys)
           = map (\<lambda>s. (KSection, s_id s, sectionDecision (obsidianState sys) s))
               (filter (resolved (todoistState sys)) (getAllSections (todoistState sys)))"
    by (simp add: plan_def filter_map o_def)
next
  assume a: "\<not> truthyStr pn \<and> getTaskNote (obsidianState sys) (FStr (t_id T)) = None"
  then have n: "getTaskNote (obsidianState sys) (FStr (t_id T)) = None" by simp
  from a have f: "getTaskFolderPath (settings sys) pn sn = syncFolderPath (settings sys)"
    by (simp add: folder_without_project)
  note r = reconcileTask_new[OF n, of env pn sn, unfolded f]
  from r show "fst (reconcileTask env T pn sn sys) = Created" by (rule conjunct1)
  from r show "\<exists>note. getTaskNote (obsidianState (snd (reconcileTask env T pn sn sys))) (FStr (t_id T))
                         = Some note
                       \<and> tn_filePath note
                           = syncFolderPath (settings sys) @ ''/''
                               @ sanitizeFileName (if t_content T \<noteq> [] then t_content T
                                                   else ''Task '' @ t_id T)
                               @ ''.md''"
    by (rule conjunct2)
qed

theorem unresolved_project_task_reconciled_witness:
  "distinctIds (todoistState orphanSystem)
   \<and> orphanTask \<in> set (getAllTasks (todoistState orphanSystem))
   \<and> \<not> truthyStr (map_get (projectNames (getAllProjects (todoistState orphanSystem)))
                     (t_project_id orphanTask))
   \<and> getTaskNote (obsidianState orphanSystem) (FStr (t_id orphanTask)) = None
   \<and> decisions (snd (reconcileStates sampleEnv orphanSystem)) = [(KTask, ''T1'', Created)]
   \<and> fst (reconcileTask sampleEnv orphanTask None None orphanSystem) = Created
   \<and> (\<exists>note. getTaskNote (obsidianState (snd (reconcileTask sampleEnv orphanTask None None orphanSystem)))
                (FStr (t_id orphanTask)) = Some note
              \<and> tn_filePath note = ''Todoist/Write report.md'')"
proof -
  have d: "distinctIds (todoistState orphanSystem)" by code_simp
  have t: "orphanTask \<in> set (getAllTasks (todoistState orphanSystem))" by code_simp
  have u: "\<not> truthyStr (map_get (projectNames (getAllProjects (todoistState orphanSystem)))
                     (t_project_id orphanTask))" by code_simp
  have n: "getTaskNote (obsidianState orphanSystem) (FStr (t_id orphanTask)) = None" by code_simp
  have pl: "plan sampleEnv orphanSystem = [(KTask, ''T1'', Created)]" by code_simp
  have d0: "decisions orphanSystem = []" by code_simp
  have path: "syncFolderPath (settings orphanSystem) @ ''/''
      @ sanitizeFileName (if t_content orphanTask \<noteq> [] then t_content orphanTask
                          else ''Task '' @ t_id orphanTask) @ ''.md''
      = ''Todoist/Write report.md''" by code_simp
  note main = unresolved_project_task_reconciled[OF d, of sampleEnv orphanTask None None]
  from main have 1: "decisions (snd (reconcileStates sampleEnv orphanSystem)) = [(KTask, ''T1'', Created)]"
    by (simp add: pl d0)
  from main n have 2: "fst (reconcileTask sampleEnv orphanTask None None orphanSystem) = Created"
    by simp
  from main n have 3: "\<exists>note. getTaskNote (obsidianState (snd (reconcileTask sampleEnv orphanTask None None
         orphanSystem))) (FStr (t_id orphanTask)) = Some note
       \<and> tn_filePath note = ''Todoist/Write report.md''"
    unfolding path[symmetric] by simp
  from d t u n 1 2 3 show ?thesis by (intro conjI)
qed

text \<open>
  The claim as stated fails: the project of the task is not in the remote state, and the pass
  still decides to create the task and writes its document.
\<close>

theorem orphan_task_counterexample:
  "getAllProjects (todoistState orphanSystem) = []
   \<and> t_project_id orphanTask = ''P9''
   \<and> getAllTasks (todoistState orphanSystem) = [orphanTask]
   \<and> decisions (snd (reconcileStates sampleEnv orphanSystem)) = [(KTask, ''T1'', Created)]
   \<and> n_tasks (created (fst (reconcileStates sampleEnv orphanSystem))) = 1
   \<and> map fst (v_files (vault (snd (reconcileStates sampleEnv orphanSystem))))
       = [''Todoist/Write report.md'']"
  by code_simp

section \<open>A second reconcile pass\<close>

lemma tally_skipped:
  assumes "\<forall>e \<in> set es. snd (snd e) = Skipped"
  shows "created (tally es st) = created st \<and> updated (tally es st) = updated st"
  using assms
proof (induction es arbitrary: st)
  case Nil
  show ?case by (simp add: tally_def)
next
  case (Cons e es)
  then have "snd (snd e) = Skipped" and "\<forall>x \<in> set es. snd (snd x) = Skipped" by simp_all
  with Cons.IH[of "bump Skipped (fst e) st"] show ?case by (simp add: tally_Cons)
qed

lemma plan_all_skipped:
  assumes "\<forall>p \<in> set (getAllProjects (todoistState sys)). projectDecision (obsidianState sys) p = Skipped"
    and "\<forall>s \<in> set (filter (resolved (todoistState sys)) (getAllSections (todoistState sys))).
           sectionDecision (obsidianState sys) s = Skipped"
    and "\<forall>t \<in> set (getAllTasks (todoistState sys)).
           taskDecision (env_js env) (obsidianState sys) t = Skipped"
  shows "\<forall>e \<in> set (plan env sys). snd (snd e) = Skipped"
  using assms by (auto simp: plan_def)

text \<open>
  Claim C5, as amended. Take a remote state whose ids are distinct within each kind, a first
  pass whose stamp reads back as the reading of its clock, and tasks none of which is dated
  after that reading. Then a second pass, run on the result of the first with no change in
  between, decides to skip every project, section and task: it counts no creation and no
  update.
\<close>

theorem second_pass_skips_all:
  assumes ids: "distinctIds (todoistState sys)"
    and stamp: "js_toISOString (env_js env1) (env_now env1) \<noteq> []
                \<and> js_dateParse (env_js env1) (js_toISOString (env_js env1) (env_now env1))
                    = Some (env_now env1)"
    and dates: "\<forall>t \<in> set (getAllTasks (todoistState sys)).
                  \<not> newerThan (js_dateParse (env_js env1) (t_date_added t)) (env_now env1)"
    and js: "env_js env2 = env_js env1"
  shows "(\<forall>e \<in> set (plan env2 (snd (reconcileStates env1 sys))). snd (snd e) = Skipped)
       \<and> decisions (snd (reconcileStates env2 (snd (reconcileStates env1 sys))))
           = decisions (snd (reconcileStates env1 sys)) @ plan env2 (snd (reconcileStates env1 sys))
       \<and> created (fst (reconcileStates env2 (snd (reconcileStates env1 sys)))) = zeroCounts
       \<and> updated (fst (reconcileStates env2 (snd (reconcileStates env1 sys)))) = zeroCounts"
proof -
  let ?sys1 = "snd (reconcileStates env1 sys)"
  note first = reconcile_pass[OF ids, of env1]
  from first have out: "sameOutside sys ?sys1" by simp
  then have ts: "todoistState ?sys1 = todoistState sys" by (simp add: sameOutside_def)
  have ids1: "distinctIds (todoistState ?sys1)" using ids by (simp add: ts)
  have stampTime: "parseLastSyncTime (env_js env1) (FStr (js_toISOString (env_js env1) (env_now env1)))
                   = env_now env1"
    using stamp by (simp add: orZero_def)
  have all_settled: "filter (settled env1) (getAllTasks (todoistState sys)) = getAllTasks (todoistState sys)"
  proof -
    have "\<forall>t \<in> set (getAllTasks (todoistState sys)). settled env1 t"
      unfolding settled_def stampTime using dates by blast
    then show ?thesis by (simp add: filter_id_conv)
  qed
  from first have p: "\<forall>p \<in> set (getAllProjects (todoistState ?sys1)).
      projectDecision (obsidianState ?sys1) p = Skipped"
    by (simp add: ts)
  from first have s: "\<forall>s \<in> set (filter (resolved (todoistState ?sys1)) (getAllSections (todoistState ?sys1))).
      sectionDecision (obsidianState ?sys1) s = Skipped"
    by (simp add: ts)
  from first have "\<forall>t \<in> set (filter (settled env1) (getAllTasks (todoistState sys))).
      taskDecision (env_js env1) (obsidianState ?sys1) t = Skipped"
    by simp
  then have t: "\<forall>t \<in> set (getAllTasks (todoistState ?sys1)).
      taskDecision (env_js env2) (obsidianState ?sys1) t = Skipped"
    by (simp add: all_settled ts js)
  have sk: "\<forall>e \<in> set (plan env2 ?sys1). snd (snd e) = Skipped"
    using p s t by (rule plan_all_skipped)
  note second = reconcile_pass[OF ids1, of env2]
  from second have d: "decisions (snd (reconcileStates env2 ?sys1)) = decisions ?sys1 @ plan env2 ?sys1"
    by simp
  from second have st: "fst (reconcileStates env2 ?sys1) = tally (plan env2 ?sys1) zeroStats" by simp
  have c: "created (fst (reconcileStates env2 ?sys1)) = zeroCounts"
    and u: "updated (fst (reconcileStates env2 ?sys1)) = zeroCounts"
    using tally_skipped[OF sk, of zeroStats] by (simp_all add: st zeroStats_def)
  from sk d c u show ?thesis by (intro conjI)
qed

theorem second_pass_skips_all_witness:
  "distinctIds (todoistState freshSystem)
   \<and> js_toISOString (env_js sampleEnv) (env_now sampleEnv) = ''1970-01-01T00:00:01.000Z''
   \<and> js_dateParse (env_js sampleEnv) ''1970-01-01T00:00:01.000Z'' = Some (env_now sampleEnv)
   \<and> getAllTasks (todoistState freshSystem) = [sampleTask]
   \<and> js_dateParse (env_js sampleEnv) (t_date_added sampleTask) = Some 500
   \<and> env_now sampleEnv = 1000
   \<and> decisions (snd (reconcileStates sampleEnv (snd (reconcileStates sampleEnv freshSystem))))
       = [(KProject, ''P1'', Created), (KSection, ''S1'', Created), (KTask, ''T1'', Created),
          (KProject, ''P1'', Skipped), (KSection, ''S1'', Skipped), (KTask, ''T1'', Skipped)]
   \<and> created (fst (reconcileStates sampleEnv (snd (reconcileStates sampleEnv freshSystem)))) = zeroCounts
   \<and> updated (fst (reconcileStates sampleEnv (snd (reconcileStates sampleEnv freshSystem)))) = zeroCounts"
proof -
  have ids: "distinctIds (todoistState freshSystem)" by code_simp
  have iso: "js_toISOString (env_js sampleEnv) (env_now sampleEnv) = ''1970-01-01T00:00:01.000Z''"
    by code_simp
  have rd: "js_dateParse (env_js sampleEnv) ''1970-01-01T00:00:01.000Z'' = Some (env_now sampleEnv)"
    by code_simp
  have tasks: "getAllTasks (todoistState freshSystem) = [sampleTask]" by code_simp
  have date: "js_dateParse (env_js sampleEnv) (t_date_added sampleTask) = Some 500" by code_simp
  have now: "env_now sampleEnv = 1000" by code_simp
  have stamp: "js_toISOString (env_js sampleEnv) (env_now sampleEnv) \<noteq> []
                \<and> js_dateParse (env_js sampleEnv) (js_toISOString (env_js sampleEnv) (env_now sampleEnv))
                    = Some (env_now sampleEnv)"
    using iso rd by simp
  have dates: "\<forall>t \<in> set (getAllTasks (todoistState freshSystem)).
                  \<not> newerThan (js_dateParse (env_js sampleEnv) (t_date_added t)) (env_now sampleEnv)"
    by (simp add: tasks date now newerThan_def)
  have d1: "decisions (snd (reconcileStates sampleEnv freshSystem))
       = [(KProject, ''P1'', Created), (KSection, ''S1'', Created), (KTask, ''T1'', Created)]"
    by code_simp
  have pl: "plan sampleEnv (snd (reconcileStates sampleEnv freshSystem))
       = [(KProject, ''P1'', Skipped), (KSection, ''S1'', Skipped), (KTask, ''T1'', Skipped)]"
    by code_simp
  note main = second_pass_skips_all[OF ids stamp dates refl]
  from main have 1: "decisions (snd (reconcileStates sampleEnv (snd (reconcileStates sampleEnv freshSystem))))
       = [(KProject, ''P1'', Created), (KSection, ''S1'', Created), (KTask, ''T1'', Created),
          (KProject, ''P1'', Skipped), (KSection, ''S1'', Skipped), (KTask, ''T1'', Skipped)]"
    by (simp add: d1 pl)
  from main have 2: "created (fst (reconcileStates sampleEnv (snd (reconcileStates sampleEnv freshSystem))))
       = zeroCounts" by simp
  from main have 3: "updated (fst (reconcileStates sampleEnv (snd (reconcileStates sampleEnv freshSystem))))
       = zeroCounts" by simp
  from ids iso rd tasks date now 1 2 3 show ?thesis by (intro conjI)
qed

text \<open>
  The claim as stated fails for a task dated after the reading of the local clock: the first
  pass creates its document and stamps it with the clock, and the second pass, with nothing
  changed, finds the task newer than the stamp and updates it again.
\<close>

theorem future_task_counterexample:
  "decisions (snd (reconcileStates sampleEnv futureSystem))
     = [(KProject, ''P1'', Created), (KTask, ''T1'', Created)]
   \<and> js_dateParse (env_js sampleEnv) (t_date_added futureTask) = Some 5000
   \<and> env_now sampleEnv = 1000
   \<and> decisions (snd (reconcileStates sampleEnv (snd (reconcileStates sampleEnv futureSystem))))
     = [(KProject, ''P1'', Created), (KTask, ''T1'', Created),
        (KProject, ''P1'', Skipped), (KTask, ''T1'', Updated)]
   \<and> n_tasks (updated (fst (reconcileStates sampleEnv (snd (reconcileStates sampleEnv futureSystem))))) = 1"
  by code_simp

section \<open>Dry run\<close>

text \<open>Under dry-run the write of a document is skipped and the note is stamped with the clock.\<close>

lemma writeNote_dry_run:
  "dryRunMode st \<Longrightarrow> writeNote env st filePath content v = (env_now env, v)"
  by (simp add: writeNote_def)

text \<open>
  Claim C1 at a concrete input. A full run under dry-run on an empty vault, with one project,
  one section and one task on the remote side, makes the same decisions as the run with the
  flag clear, makes no call that changes the remote side and writes no document; but it
  creates the sync root folder, the folder of the project and the folder of the section in
  the vault, where the claim says that a dry run creates no folder. The folders are
  created before the dry-run flag is read.
\<close>

theorem dry_run_creates_folders:
  "v_log (vault (snd (performSync remoteEnv dryRunEngine)))
     = [CreateFolder ''Todoist'', CreateFolder ''Todoist/Work'', CreateFolder ''Todoist/Work/Later'']
   \<and> v_folders (vault (snd (performSync remoteEnv dryRunEngine)))
     = [''Todoist'', ''Todoist/Work'', ''Todoist/Work/Later'']
   \<and> v_folders (vault dryRunEngine) = []
   \<and> v_files (vault (snd (performSync remoteEnv dryRunEngine))) = []
   \<and> remoteLog (snd (performSync remoteEnv dryRunEngine)) = []
   \<and> fst (performSync remoteEnv dryRunEngine)
     = \<lparr>success = True, message = ''Sync completed successfully''\<rparr>
   \<and> decisions (snd (performSync remoteEnv dryRunEngine))
     = decisions (snd (performSync remoteEnv (newSyncEngine sampleSettings emptyVault)))
   \<and> decisions (snd (performSync remoteEnv dryRunEngine))
     = [(KProject, ''P1'', Created), (KSection, ''S1'', Created), (KTask, ''T1'', Created)]"
  by code_simp

section \<open>Properties of the frontmatter codec\<close>

lemma splitOn_without: "c \<notin> set l \<Longrightarrow> splitOn c l = [l]"
  by (induction l) auto

lemma splitOn_line: "c \<notin> set l \<Longrightarrow> splitOn c (l @ c # rest) = l # splitOn c rest"
  by (induction l) auto

lemma splitOn_lines:
  "\<forall>l \<in> set ls. c \<notin> set l
   \<Longrightarrow> splitOn c (concat (map (\<lambda>l. l @ [c]) ls) @ rest) = ls @ splitOn c rest"
  by (induction ls) (auto simp: splitOn_line)

lemma splitOn_joinWith:
  "ls \<noteq> [] \<Longrightarrow> \<forall>l \<in> set ls. c \<notin> set l \<Longrightarrow> splitOn c (joinWith c ls) = ls"
proof (induction c ls rule: joinWith.induct)
  case (1 c)
  then show ?case by simp
next
  case (2 c l)
  then show ?case by (simp add: splitOn_without)
next
  case (3 c l v va)
  then show ?case by (simp add: splitOn_line)
qed

lemma indexOf_first: "c \<notin> set k \<Longrightarrow> indexOf c (k @ c # rest) = Some (length k)"
  by (induction k) auto

lemma trim_trimmed: "trimmed s \<Longrightarrow> trim s = s"
proof (cases "s = []")
  case True
  then show ?thesis by (simp add: trim_def)
next
  case False
  assume "trimmed s"
  with False have h: "\<not> isWhiteSpace (hd s)" and l: "\<not> isWhiteSpace (last s)"
    by (simp_all add: trimmed_def)
  from h False have 1: "dropWhile isWhiteSpace s = s" by (cases s) simp_all
  have 2: "dropWhile isWhiteSpace (rev s) = rev s"
  proof (cases "rev s")
    case Nil
    then show ?thesis by simp
  next
    case (Cons x xs)
    have "hd (rev s) = last s" using False by (simp add: hd_rev)
    with Cons l have "\<not> isWhiteSpace x" by simp
    with Cons show ?thesis by simp
  qed
  show ?thesis by (simp add: trim_def 1 2)
qed


lemma escapeQuotes_without: "DQ \<notin> set v \<Longrightarrow> escapeQuotes v = v"
  by (induction v) auto

lemma startsWith_member: "startsWith c s \<Longrightarrow> c \<in> set s"
  by (cases s) (simp_all add: startsWith_def)

lemma numberChars_plain:
  "c \<in> set numberChars
   \<Longrightarrow> \<not> isWhiteSpace c \<and> c \<noteq> NL \<and> c \<noteq> DQ \<and> c \<noteq> SQ \<and> c \<noteq> CHR ''[''
       \<and> c \<noteq> CHR ''r'' \<and> c \<noteq> CHR ''a''"
  by (auto simp: numberChars_def isWhiteSpace_def)

lemma valueText_plain:
  assumes "plainValue js v"
  shows "valueText js v \<noteq> [] \<and> NL \<notin> set (valueText js v) \<and> trimmed (valueText js v)"
proof (cases v)
  case (FStr x)
  with assms show ?thesis by (simp add: trimmed_def isWhiteSpace_def)
next
  case (FNum n)
  let ?t = "js_numToString js n"
  from FNum assms have ne: "?t \<noteq> []" and sub: "set ?t \<subseteq> set numberChars" by simp_all
  from ne have "hd ?t \<in> set ?t" and "last ?t \<in> set ?t" by simp_all
  with sub have "hd ?t \<in> set numberChars" and "last ?t \<in> set numberChars" by blast+
  then have "\<not> isWhiteSpace (hd ?t)" and "\<not> isWhiteSpace (last ?t)"
    by (simp_all add: numberChars_plain)
  moreover have "NL \<notin> set ?t" using sub numberChars_plain by blast
  ultimately show ?thesis using FNum ne by (simp add: trimmed_def)
next
  case (FBool b)
  then show ?thesis by (simp add: trimmed_def isWhiteSpace_def)
next
  case (FArr xs)
  with assms show ?thesis by simp
next
  case FNull
  with assms show ?thesis by simp
qed

lemma parseValue_valueText:
  assumes "plainValue js v"
  shows "parseValue (js_Number js) (valueText js v) = v"
proof (cases v)
  case (FStr x)
  have s: "slice1m1 (DQ # x @ [DQ]) = x" by (simp add: slice1m1_def)
  from FStr assms have br: "\<not> (startsWith (CHR ''['') x \<and> endsWith (CHR '']'') x)"
    and tf: "x \<noteq> ''true''" "x \<noteq> ''false''" and num: "x = [] \<or> js_Number js x = None"
    by simp_all
  have q: "startsWith DQ (DQ # x @ [DQ]) \<and> endsWith DQ (DQ # x @ [DQ])"
    by (simp add: startsWith_def endsWith_def)
  have "parseValue (js_Number js) (DQ # x @ [DQ]) = FStr x"
    unfolding parseValue_def Let_def using q br tf num
    by (auto simp: s slice1m1_def split: option.splits)
  with FStr show ?thesis by simp
next
  case (FNum n)
  let ?t = "js_numToString js n"
  from FNum assms have ne: "?t \<noteq> []" and sub: "set ?t \<subseteq> set numberChars"
    and rd: "js_Number js ?t = Some n" by simp_all
  have no: "\<And>c. c \<in> set ?t \<Longrightarrow> c \<in> set numberChars" using sub by blast
  have 1: "\<not> startsWith DQ ?t" using startsWith_member no numberChars_plain by blast
  have 2: "\<not> startsWith SQ ?t" using startsWith_member no numberChars_plain by blast
  have 3: "\<not> startsWith (CHR ''['') ?t" using startsWith_member no numberChars_plain by blast
  have 4: "?t \<noteq> ''true''"
  proof
    assume "?t = ''true''"
    then have "CHR ''r'' \<in> set ?t" by simp
    with no numberChars_plain show False by blast
  qed
  have 5: "?t \<noteq> ''false''"
  proof
    assume "?t = ''false''"
    then have "CHR ''a'' \<in> set ?t" by simp
    with no numberChars_plain show False by blast
  qed
  from FNum show ?thesis by (simp add: parseValue_def 1 2 3 4 5 rd ne)
next
  case (FBool b)
  then show ?thesis by (simp add: parseValue_def startsWith_def endsWith_def)
next
  case (FArr xs)
  with assms show ?thesis by simp
next
  case FNull
  with assms show ?thesis by simp
qed

lemma trim_after_space: "trimmed s \<Longrightarrow> trim (CHR '' '' # s) = s"
proof -
  assume t: "trimmed s"
  have "trim (CHR '' '' # s) = trim s" by (simp add: trim_def isWhiteSpace_def)
  with t show ?thesis by (simp add: trim_trimmed)
qed

lemma parseLine_lineOf:
  assumes k: "plainKey k" and v: "plainValue js v"
  shows "parseLine (js_Number js) (lineOf js (k, v)) result = map_set k v result"
proof -
  let ?vt = "valueText js v"
  let ?line = "k @ CHR '':'' # CHR '' '' # ?vt"
  have line: "lineOf js (k, v) = ?line" by (simp add: lineOf_def)
  from valueText_plain[OF v] have vne: "?vt \<noteq> []" and vtr: "trimmed ?vt" by simp_all
  from k have ktr: "trimmed k" and kc: "CHR '':'' \<notin> set k" and kh: "\<not> startsWith (CHR ''#'') k"
    and kp: "k \<noteq> ''__proto__''" by (simp_all add: plainKey_def)
  have hd_line: "hd ?line = (if k = [] then CHR '':'' else hd k)" by (cases k) simp_all
  have last_line: "last ?line = last ?vt" using vne by simp
  have ltr: "trimmed ?line"
    using ktr vtr vne by (auto simp: trimmed_def hd_line last_line isWhiteSpace_def)
  have t1: "trim ?line = ?line" using ltr by (rule trim_trimmed)
  have t2: "\<not> startsWith (CHR ''#'') ?line" using kh by (cases k) (simp_all add: startsWith_def)
  have t3: "indexOf (CHR '':'') ?line = Some (length k)" using kc by (rule indexOf_first)
  have t4: "trim (take (length k) ?line) = k" using ktr by (simp add: trim_trimmed)
  have t5: "trim (drop (length k + 1) ?line) = ?vt" using vtr by (simp add: trim_after_space)
  have t6: "?line \<noteq> []" by simp
  show ?thesis
    unfolding line parseLine_def Let_def t1 t3
    using t2 t6 kp
    by (simp add: trim_trimmed[OF ktr] trim_after_space[OF vtr] parseValue_valueText[OF v] objSet_def)
qed

lemma serializeEntry_plain:
  assumes "plainValue js v"
  shows "serializeEntry (js_numToString js) (k, v) = lineOf js (k, v) @ [NL]"
  using assms by (cases v) (simp_all add: lineOf_def escapeQuotes_without)

lemma lineOf_plain:
  assumes "plainKey k" and "plainValue js v"
  shows "NL \<notin> set (lineOf js (k, v)) \<and> lineOf js (k, v) \<noteq> ''---''"
proof -
  have "CHR '':'' \<in> set (lineOf js (k, v))" by (simp add: lineOf_def)
  then have "lineOf js (k, v) \<noteq> ''---''" by auto
  moreover have "NL \<notin> set (lineOf js (k, v))"
    using assms valueText_plain[of js v] by (simp add: lineOf_def plainKey_def)
  ultimately show ?thesis by simp
qed

lemma fold_parseLine:
  assumes "list_all (\<lambda>(k, v). plainKey k \<and> plainValue js v) fm"
    and "distinct (map fst fm)"
    and "set (map fst acc) \<inter> set (map fst fm) = {}"
  shows "fold (parseLine (js_Number js)) (map (lineOf js) fm) acc = acc @ fm"
  using assms
proof (induction fm arbitrary: acc)
  case Nil
  then show ?case by simp
next
  case (Cons e fm)
  obtain k v where e: "e = (k, v)" by (cases e)
  from Cons.prems e have pk: "plainKey k" and pv: "plainValue js v"
    and rest: "list_all (\<lambda>(k, v). plainKey k \<and> plainValue js v) fm"
    and d: "distinct (map fst fm)" and knew: "k \<notin> set (map fst fm)"
    and kacc: "k \<notin> set (map fst acc)" and dis: "set (map fst acc) \<inter> set (map fst fm) = {}"
    by auto
  have "\<forall>k' \<in> set (map fst acc). \<not> k' = k" using kacc by auto
  then have "map_set_by (=) k v acc = acc @ [(k, v)]" by (rule map_set_by_append_new)
  then have step: "parseLine (js_Number js) (lineOf js (k, v)) acc = acc @ [(k, v)]"
    by (simp add: parseLine_lineOf[OF pk pv] map_set_def)
  have dis': "set (map fst (acc @ [(k, v)])) \<inter> set (map fst fm) = {}"
    using dis knew by auto
  show ?case using Cons.IH[OF rest d dis'] by (simp add: e step)
qed


lemma serialized_lines:
  assumes "list_all (\<lambda>(k, v). plainKey k \<and> plainValue js v) fm"
  shows "splitOn NL (serializeFrontmatter (js_numToString js) fm)
         = ''---'' # map (lineOf js) fm @ [''---'']"
proof -
  have ent: "map (serializeEntry (js_numToString js)) fm = map (\<lambda>l. l @ [NL]) (map (lineOf js) fm)"
    using assms by (induction fm) (auto simp: serializeEntry_plain)
  have free: "\<forall>l \<in> set (map (lineOf js) fm). NL \<notin> set l"
    using assms lineOf_plain[of _ js] by (auto simp: list_all_iff)
  have "splitOn NL (serializeFrontmatter (js_numToString js) fm)
        = splitOn NL (''---'' @ NL # (concat (map (\<lambda>l. l @ [NL]) (map (lineOf js) fm)) @ ''---''))"
    by (simp add: serializeFrontmatter_def ent)
  also have "\<dots> = ''---'' # splitOn NL (concat (map (\<lambda>l. l @ [NL]) (map (lineOf js) fm)) @ ''---'')"
    by (rule splitOn_line) simp
  also have "\<dots> = ''---'' # (map (lineOf js) fm @ splitOn NL ''---'')"
    using free by (simp only: splitOn_lines)
  also have "\<dots> = ''---'' # map (lineOf js) fm @ [''---'']"
    by (simp add: splitOn_without)
  finally show ?thesis .
qed

lemma parseYaml_lines:
  assumes "plainBag js fm"
  shows "parseYaml (js_Number js) (joinWith NL (map (lineOf js) fm)) = fm"
proof (cases "fm = []")
  case True
  then show ?thesis by (simp add: parseYaml_def parseLine_def trim_def)
next
  case False
  from assms have all: "list_all (\<lambda>(k, v). plainKey k \<and> plainValue js v) fm"
    and d: "distinct (map fst fm)" by (simp_all add: plainBag_def)
  have free: "\<forall>l \<in> set (map (lineOf js) fm). NL \<notin> set l"
    using all lineOf_plain[of _ js] by (auto simp: list_all_iff)
  from False have ne: "map (lineOf js) fm \<noteq> []" by simp
  have "splitOn NL (joinWith NL (map (lineOf js) fm)) = map (lineOf js) fm"
    using ne free by (rule splitOn_joinWith)
  then show ?thesis
    using fold_parseLine[OF all d, of "[]"] by (simp add: parseYaml_def)
qed

text \<open>
  Claim C4, as amended. A property bag of scalars, with distinct plain keys and values that
  are booleans, numbers whose text reads back as the number, or one-line strings without a
  double quote that are not the text of a boolean or of a number and are not enclosed in
  square brackets, is read back from its serialized frontmatter as it was, with an empty
  body.
\<close>

theorem scalar_bag_round_trip:
  assumes "plainBag js fm"
  shows "parseFrontmatter (js_Number js) (serializeFrontmatter (js_numToString js) fm)
         = Some (fm, [])"
proof -
  let ?ls = "map (lineOf js) fm"
  from assms have all: "list_all (\<lambda>(k, v). plainKey k \<and> plainValue js v) fm"
    by (simp add: plainBag_def)
  have lines: "splitOn NL (serializeFrontmatter (js_numToString js) fm) = ''---'' # ?ls @ [''---'']"
    using all by (rule serialized_lines)
  have nd: "\<And>l. l \<in> set ?ls \<Longrightarrow> l \<noteq> ''---''"
    using all lineOf_plain[of _ js] by (auto simp: list_all_iff)
  have "takeWhile (\<lambda>l. l \<noteq> ''---'') (?ls @ [''---''])
        = ?ls @ takeWhile (\<lambda>l. l \<noteq> ''---'') [''---'']"
    by (rule takeWhile_append2) (rule nd)
  then have tw: "takeWhile (\<lambda>l. l \<noteq> ''---'') (?ls @ [''---'']) = ?ls" by simp
  have "dropWhile (\<lambda>l. l \<noteq> ''---'') (?ls @ [''---''])
        = dropWhile (\<lambda>l. l \<noteq> ''---'') [''---'']"
    by (rule dropWhile_append2) (rule nd)
  then have dw: "dropWhile (\<lambda>l. l \<noteq> ''---'') (?ls @ [''---'']) = [''---'']" by simp
  show ?thesis
    unfolding parseFrontmatter_def lines
    by (simp add: tw dw parseYaml_lines[OF assms] del: map_map)
qed

theorem scalar_bag_round_trip_witness:
  "plainBag sampleJs scalarBag
   \<and> serializeFrontmatter (js_numToString sampleJs) scalarBag
       = ''---'' @ [NL] @ ''title: '' @ [DQ] @ ''Write report'' @ [DQ] @ [NL] @ ''priority: 2'' @ [NL]
         @ ''completed: false'' @ [NL] @ ''description: '' @ [DQ, DQ] @ [NL] @ ''---''
   \<and> parseFrontmatter (js_Number sampleJs) (serializeFrontmatter (js_numToString sampleJs) scalarBag)
       = Some (scalarBag, [])"
proof -
  have p: "plainBag sampleJs scalarBag" by code_simp
  have t: "serializeFrontmatter (js_numToString sampleJs) scalarBag
       = ''---'' @ [NL] @ ''title: '' @ [DQ] @ ''Write report'' @ [DQ] @ [NL] @ ''priority: 2'' @ [NL]
         @ ''completed: false'' @ [NL] @ ''description: '' @ [DQ, DQ] @ [NL] @ ''---''"
    by code_simp
  from p t scalar_bag_round_trip[OF p] show ?thesis by (intro conjI)
qed

text \<open>
  The claim as stated fails for a bag with an array of strings: the serializer writes the
  array as a block, one item on each line, and the parser reads arrays on one line only, so
  the property comes back as the empty string. A string that is the text of a number comes
  back as the number.
\<close>

theorem string_array_counterexample:
  "serializeFrontmatter (js_numToString sampleJs) labelsBag
     = ''---'' @ [NL] @ ''labels:'' @ [NL] @ ''  - home'' @ [NL] @ ''  - urgent'' @ [NL] @ ''---''
   \<and> parseFrontmatter (js_Number sampleJs) (serializeFrontmatter (js_numToString sampleJs) labelsBag)
     = Some ([(''labels'', FStr [])], [])
   \<and> labelsBag \<noteq> [(''labels'', FStr [])]
   \<and> parseFrontmatter (js_Number sampleJs)
        (serializeFrontmatter (js_numToString sampleJs) [(''title'', FStr ''42'')])
     = Some ([(''title'', FNum 42)], [])"
  by code_simp

end
